(* ===== verification/Imp_Prelude.thy ===== *)
theory Imp_Prelude
  imports Main "HOL-Library.Word" "HOL-Library.AList" "HOL-Library.Multiset"
    "HOL-Library.Char_ord" "HOL-Library.List_Lexorder"
begin

text \<open>
  The prelude of the development: what every component of the operator shares.
  \<^item> Go's language level: strings (byte lists ordered lexicographically), string maps
    (association lists), 32- and 64-bit signed integers, decimal rendering.
  \<^item> The error values a reconciler returns, and \<open>io\<close>: a run that talks to the API
    server. A run takes the writes done so far and returns an error or a value with the
    writes done by then. Whether a write succeeds is decided by an oracle, a parameter of
    every definition that writes; a refused write leaves no entry.
  \<^item> \<open>io_ok\<close>: a Hoare-style predicate on runs (every write satisfies \<open>P\<close>, the result
    satisfies \<open>Q\<close>) with one rule per construct, collected in \<open>io_rules\<close>; \<open>counted\<close> bounds the
    number of writes of one kind.
  \<^item> \<open>triple\<close>: a Hoare triple on traces, for properties of the order of writes, with the rules
    \<open>triple_rules\<close>; \<open>accepting\<close> is the server that refuses nothing.
  \<^item> \<open>on_error\<close> and \<open>deferring\<close>: Go's deferred clean-up; \<open>observe\<close>: a read whose answer depends on the
    writes done so far.
  \<^item> \<open>sort_slice\<close>: Go's sort.Slice, whose algorithm is a parameter, with its contract as
    the locale \<open>slice_sort\<close>; it is interpreted on the insertion sort that Go runs on
    short slices.
\<close>

named_theorems io_rules \<open>introduction rules for io_ok\<close>
named_theorems triple_rules \<open>introduction rules for triple\<close>
named_theorems io_run \<open>equations that run an io computation\<close>
named_theorems wrap_simps \<open>fixed-width integers that do not wrap\<close>

section \<open>Strings and string maps\<close>

type_synonym strmap = "(string \<times> string) list"

definition str_get :: "strmap \<Rightarrow> string \<Rightarrow> string" where
  "str_get m k = (case map_of m k of None \<Rightarrow> '''' | Some v \<Rightarrow> v)"

definition has_key :: "strmap \<Rightarrow> string \<Rightarrow> bool" where
  "has_key m k = (map_of m k \<noteq> None)"

lemma str_get_update [simp]:
  "str_get (AList.update k v m) k' = (if k' = k then v else str_get m k')"
  by (simp add: str_get_def update_conv')

lemma has_key_update [simp]:
  "has_key (AList.update k v m) k' = (k' = k \<or> has_key m k')"
  by (simp add: has_key_def update_conv')

lemma str_get_delete [simp]:
  "str_get (AList.delete k m) k' = (if k' = k then '''' else str_get m k')"
  by (simp add: str_get_def delete_conv')

lemma has_key_delete [simp]:
  "has_key (AList.delete k m) k' = (k' \<noteq> k \<and> has_key m k')"
  by (simp add: has_key_def delete_conv')

definition has_prefix :: "string \<Rightarrow> string \<Rightarrow> bool" where
  "has_prefix s p = (take (length p) s = p)"

section \<open>Machine integers\<close>

text \<open>Go's int32 and int64 values are integers; arithmetic that may leave the range is
  brought back by the two's complement wrap.\<close>

definition wrap32 :: "int \<Rightarrow> int" where
  "wrap32 x = signed_take_bit 31 x"

definition wrap64 :: "int \<Rightarrow> int" where
  "wrap64 x = signed_take_bit 63 x"

lemma wrap32_id [wrap_simps]: "- (2 ^ 31) \<le> x \<Longrightarrow> x < 2 ^ 31 \<Longrightarrow> wrap32 x = x"
  by (simp add: wrap32_def signed_take_bit_int_eq_self)

lemma wrap64_id [wrap_simps]: "- (2 ^ 63) \<le> x \<Longrightarrow> x < 2 ^ 63 \<Longrightarrow> wrap64 x = x"
  by (simp add: wrap64_def signed_take_bit_int_eq_self)

lemma wrap32_range: "- (2 ^ 31) \<le> wrap32 x" "wrap32 x < 2 ^ 31"
  using signed_take_bit_int_greater_eq_minus_exp [of 31 x] signed_take_bit_int_less_exp [of 31 x]
  by (simp_all add: wrap32_def)

lemma wrap64_range: "- (2 ^ 63) \<le> wrap64 x" "wrap64 x < 2 ^ 63"
  using signed_take_bit_int_greater_eq_minus_exp [of 63 x] signed_take_bit_int_less_exp [of 63 x]
  by (simp_all add: wrap64_def)

text \<open>Go divides and takes remainders towards zero; a zero divisor panics and is a
  separate branch of the definitions that divide.\<close>

definition quot :: "int \<Rightarrow> int \<Rightarrow> int" where
  "quot a b = sgn a * sgn b * (\<bar>a\<bar> div \<bar>b\<bar>)"

lemma quot_nonneg: "0 \<le> a \<Longrightarrow> 0 < b \<Longrightarrow> quot a b = a div b"
  by (cases "a = 0") (simp_all add: quot_def)

section \<open>Errors, results and runs\<close>

datatype api_error = NotFound | AlreadyExists | Conflict | NoMatch | OtherErr string

datatype error = Api api_error | Err string | Panic string

record ctrl_result =
  Requeue :: bool
  RequeueAfter :: int

definition no_requeue :: ctrl_result where
  "no_requeue = \<lparr>Requeue = False, RequeueAfter = 0\<rparr>"

definition requeue_after :: "int \<Rightarrow> ctrl_result" where
  "requeue_after d = \<lparr>Requeue = False, RequeueAfter = d\<rparr>"

definition requeue_now :: ctrl_result where
  "requeue_now = \<lparr>Requeue = True, RequeueAfter = 0\<rparr>"

text \<open>Durations are counted in nanoseconds, as time.Duration does.\<close>

definition seconds :: "int \<Rightarrow> int" where
  "seconds n = n * 1000000000"

text \<open>client.IgnoreNotFound: a missing object is not an error.\<close>

definition ignoreNotFound :: "api_error \<Rightarrow> error + unit" where
  "ignoreNotFound e = (if e = NotFound then Inr () else Inl (Api e))"

type_synonym ('s, 'a) run = "'s \<Rightarrow> (error + 'a) \<times> 's"

type_synonym ('w, 'a) io = "('w list, 'a) run"

type_synonym 'w faults = "'w list \<Rightarrow> 'w \<Rightarrow> api_error option"

definition ret :: "'a \<Rightarrow> ('s, 'a) run" where
  "ret x = (\<lambda>tr. (Inr x, tr))"

definition fail :: "error \<Rightarrow> ('s, 'a) run" where
  "fail e = (\<lambda>tr. (Inl e, tr))"

text \<open>A write that cannot be refused (an event).\<close>

definition emit :: "'w \<Rightarrow> ('w, unit) io" where
  "emit e = (\<lambda>tr. (Inr (), tr @ [e]))"

text \<open>A write whose error the code inspects, and one whose error it returns.\<close>

definition try_call :: "'w faults \<Rightarrow> 'w \<Rightarrow> ('w, api_error option) io" where
  "try_call w e = (\<lambda>tr. case w tr e of None \<Rightarrow> (Inr None, tr @ [e]) | Some er \<Rightarrow> (Inr (Some er), tr))"

definition call :: "'w faults \<Rightarrow> 'w \<Rightarrow> ('w, unit) io" where
  "call w e = (\<lambda>tr. case w tr e of None \<Rightarrow> (Inr (), tr @ [e]) | Some er \<Rightarrow> (Inl (Api er), tr))"

text \<open>A write that answers with the object as the client decodes it from the response. The
  server, too, is a parameter: from the writes so far and the new one it gives an error or
  the answer.\<close>

type_synonym ('w, 'r) server = "'w list \<Rightarrow> 'w \<Rightarrow> api_error + 'r"

definition send :: "('w, 'r) server \<Rightarrow> 'w \<Rightarrow> ('w, 'r) io" where
  "send srv e = (\<lambda>tr. case srv tr e of Inl er \<Rightarrow> (Inl (Api er), tr) | Inr r \<Rightarrow> (Inr r, tr @ [e]))"

definition try_send :: "('w, 'r) server \<Rightarrow> 'w \<Rightarrow> ('w, api_error option) io" where
  "try_send srv e =
     (\<lambda>tr. case srv tr e of Inl er \<Rightarrow> (Inr (Some er), tr) | Inr r \<Rightarrow> (Inr None, tr @ [e]))"

definition and_then :: "('s, 'a) run \<Rightarrow> ('a \<Rightarrow> ('s, 'b) run) \<Rightarrow> ('s, 'b) run" where
  "and_then m f = (\<lambda>tr. case m tr of (Inl e, tr') \<Rightarrow> (Inl e, tr') | (Inr x, tr') \<Rightarrow> f x tr')"

text \<open>A write whose errors of some kinds are ignored.\<close>

definition send_ignoring :: "(api_error \<Rightarrow> bool) \<Rightarrow> ('w, 'r) server \<Rightarrow> 'w \<Rightarrow> ('w, unit) io" where
  "send_ignoring ign srv e =
     and_then (try_send srv e) (\<lambda>r. case r of None \<Rightarrow> ret () | Some er \<Rightarrow> if ign er then ret () else fail (Api er))"

primrec for_each :: "('x \<Rightarrow> ('s, unit) run) \<Rightarrow> 'x list \<Rightarrow> ('s, unit) run" where
  "for_each f [] = ret ()"
| "for_each f (x # xs) = and_then (f x) (\<lambda>_. for_each f xs)"

text \<open>A write done only when a condition holds, and its counted repetition.\<close>

definition when_io :: "bool \<Rightarrow> ('s, unit) run \<Rightarrow> ('s, unit) run" where
  "when_io b m = (if b then m else ret ())"

text \<open>A read: its error is returned at once.\<close>

definition lift :: "api_error + 'a \<Rightarrow> ('s, 'a) run" where
  "lift r = (case r of Inl e \<Rightarrow> fail (Api e) | Inr x \<Rightarrow> ret x)"

definition all_ok :: "'w faults" where
  "all_ok tr e = None"

lemmas io_defs = ret_def fail_def emit_def try_call_def call_def send_def try_send_def and_then_def lift_def when_io_def

lemma run_ret [io_run]: "ret x tr = (Inr x, tr)"
  by (simp add: ret_def)

lemma run_fail [io_run]: "fail e tr = (Inl e, tr)"
  by (simp add: fail_def)

lemma run_emit [io_run]: "emit e tr = (Inr (), tr @ [e])"
  by (simp add: emit_def)

lemma run_call [io_run]: "call all_ok e tr = (Inr (), tr @ [e])"
  by (simp add: call_def all_ok_def)

lemma run_try_call [io_run]: "try_call all_ok e tr = (Inr None, tr @ [e])"
  by (simp add: try_call_def all_ok_def)

lemma run_send [io_run]:
  "send srv e tr = (case srv tr e of Inl er \<Rightarrow> (Inl (Api er), tr) | Inr r \<Rightarrow> (Inr r, tr @ [e]))"
  by (simp add: send_def)

lemma run_try_send [io_run]:
  "try_send srv e tr =
     (case srv tr e of Inl er \<Rightarrow> (Inr (Some er), tr) | Inr r \<Rightarrow> (Inr None, tr @ [e]))"
  by (simp add: try_send_def)

lemma run_then [io_run]:
  "and_then m f tr = (case m tr of (Inl e, tr') \<Rightarrow> (Inl e, tr') | (Inr x, tr') \<Rightarrow> f x tr')"
  by (simp add: and_then_def)

lemma run_lift [io_run]:
  "lift r tr = (case r of Inl e \<Rightarrow> (Inl (Api e), tr) | Inr x \<Rightarrow> (Inr x, tr))"
  by (simp add: lift_def ret_def fail_def split: sum.split)

lemma run_when [io_run]: "when_io b m tr = (if b then m tr else (Inr (), tr))"
  by (simp add: when_io_def ret_def)

section \<open>Properties of runs\<close>

text \<open>\<open>io_ok P Q m\<close>: every write \<open>m\<close> does satisfies \<open>P\<close>, earlier writes are kept, and a
  value it returns satisfies \<open>Q\<close>.\<close>

definition io_ok :: "('w \<Rightarrow> bool) \<Rightarrow> ('a \<Rightarrow> bool) \<Rightarrow> ('w, 'a) io \<Rightarrow> bool" where
  "io_ok P Q m \<longleftrightarrow>
     (\<forall>tr. \<exists>new. snd (m tr) = tr @ new \<and> list_all P new \<and>
           (\<forall>x. fst (m tr) = Inr x \<longrightarrow> Q x))"

lemma io_ok_ret [io_rules]: "Q x \<Longrightarrow> io_ok P Q (ret x)"
  by (simp add: io_ok_def ret_def)

lemma io_ok_fail [io_rules]: "io_ok P Q (fail e)"
  by (simp add: io_ok_def fail_def)

lemma io_ok_emit [io_rules]: "P e \<Longrightarrow> Q () \<Longrightarrow> io_ok P Q (emit e)"
  by (simp add: io_ok_def emit_def)

lemma io_ok_call [io_rules]: "P e \<Longrightarrow> Q () \<Longrightarrow> io_ok P Q (call w e)"
  by (auto simp: io_ok_def call_def split: option.splits)

lemma io_ok_try_call [io_rules]: "P e \<Longrightarrow> (\<And>r. Q r) \<Longrightarrow> io_ok P Q (try_call w e)"
  by (auto simp: io_ok_def try_call_def split: option.splits)

lemma io_ok_send: "P e \<Longrightarrow> (\<And>tr r. srv tr e = Inr r \<Longrightarrow> Q r) \<Longrightarrow> io_ok P Q (send srv e)"
  by (auto simp: io_ok_def send_def split: sum.splits)

lemma io_ok_send_any [io_rules]: "P e \<Longrightarrow> (\<And>r. Q r) \<Longrightarrow> io_ok P Q (send srv e)"
  by (simp add: io_ok_send)

lemma io_ok_try_send [io_rules]: "P e \<Longrightarrow> (\<And>r. Q r) \<Longrightarrow> io_ok P Q (try_send srv e)"
  by (auto simp: io_ok_def try_send_def split: sum.splits)

lemma io_ok_lift [io_rules]: "(\<And>x. r = Inr x \<Longrightarrow> Q x) \<Longrightarrow> io_ok P Q (lift r)"
  by (auto simp: lift_def intro: io_rules split: sum.splits)

lemma io_ok_then:
  assumes m: "io_ok P R m" and f: "\<And>x. R x \<Longrightarrow> io_ok P Q (f x)"
  shows "io_ok P Q (and_then m f)"
  unfolding io_ok_def
proof
  fix tr
  obtain new where new: "snd (m tr) = tr @ new" "list_all P new"
    and R: "\<And>x. fst (m tr) = Inr x \<Longrightarrow> R x"
    using m unfolding io_ok_def by blast
  show "\<exists>new. snd (and_then m f tr) = tr @ new \<and> list_all P new \<and>
      (\<forall>x. fst (and_then m f tr) = Inr x \<longrightarrow> Q x)"
  proof (cases "fst (m tr)")
    case (Inl e)
    then have "and_then m f tr = (Inl e, tr @ new)"
      using new by (simp add: and_then_def split_beta)
    then show ?thesis using new by simp
  next
    case (Inr x)
    then have run: "and_then m f tr = f x (tr @ new)"
      using new by (simp add: and_then_def split_beta)
    obtain new' where "snd (f x (tr @ new)) = (tr @ new) @ new'" "list_all P new'"
      "\<And>y. fst (f x (tr @ new)) = Inr y \<Longrightarrow> Q y"
      using f [OF R [OF Inr]] unfolding io_ok_def by blast
    then show ?thesis using new run by auto
  qed
qed

lemma io_ok_seq [io_rules]:
  "io_ok P (\<lambda>_. True) m \<Longrightarrow> (\<And>x. io_ok P Q (f x)) \<Longrightarrow> io_ok P Q (and_then m f)"
  by (rule io_ok_then)

lemma io_ok_when [io_rules]: "(b \<Longrightarrow> io_ok P Q m) \<Longrightarrow> Q () \<Longrightarrow> io_ok P Q (when_io b m)"
  by (simp add: when_io_def io_ok_ret)

lemma io_ok_for_each [io_rules]:
  "(\<And>x. x \<in> set xs \<Longrightarrow> io_ok P (\<lambda>_. True) (f x)) \<Longrightarrow> Q () \<Longrightarrow> io_ok P Q (for_each f xs)"
  by (induction xs) (auto intro!: io_ok_ret io_ok_seq)

lemma io_ok_weaken:
  assumes "io_ok P Q m" and "\<And>e. P e \<Longrightarrow> P' e" and "\<And>x. Q x \<Longrightarrow> Q' x"
  shows "io_ok P' Q' m"
  unfolding io_ok_def
proof
  fix tr
  obtain new where "snd (m tr) = tr @ new" "list_all P new" "\<forall>x. fst (m tr) = Inr x \<longrightarrow> Q x"
    using assms(1) unfolding io_ok_def by blast
  then show "\<exists>new. snd (m tr) = tr @ new \<and> list_all P' new \<and> (\<forall>x. fst (m tr) = Inr x \<longrightarrow> Q' x)"
    using assms(2,3) by (auto simp: list_all_iff)
qed

text \<open>What a property of all writes says of the trace of one run from the start.\<close>

lemma io_okD: "io_ok P Q m \<Longrightarrow> e \<in> set (snd (m [])) \<Longrightarrow> P e"
  unfolding io_ok_def by (metis append_Nil list_all_iff)

lemma io_ok_resultD: "io_ok P Q m \<Longrightarrow> fst (m tr) = Inr x \<Longrightarrow> Q x"
  unfolding io_ok_def by blast

lemma io_ok_send_ignoring [io_rules]: "P e \<Longrightarrow> Q () \<Longrightarrow> io_ok P Q (send_ignoring ign srv e)"
  unfolding send_ignoring_def
  by (intro io_rules io_ok_then [where R = "\<lambda>_. True"]) (auto intro!: io_rules split: option.splits)

text \<open>A server that accepts every write.\<close>

definition accepting :: "('w, 'r) server \<Rightarrow> bool" where
  "accepting srv \<longleftrightarrow> (\<forall>tr e. \<exists>r. srv tr e = Inr r)"

lemma run_send_ignoring:
  assumes "accepting srv"
  shows "send_ignoring ign srv e tr = (Inr (), tr @ [e])"
proof -
  obtain r where "srv tr e = Inr r" using assms unfolding accepting_def by blast
  then show ?thesis by (simp add: send_ignoring_def io_run)
qed

lemma run_accepted:
  assumes "accepting srv"
  obtains r where "send srv e tr = (Inr r, tr @ [e])" "srv tr e = Inr r"
  using assms unfolding accepting_def by (metis run_send sum.case(2))

lemma accepting_unit:
  fixes srv :: "('w, unit) server"
  assumes "accepting srv"
  shows "srv tr e = Inr ()"
  using assms unfolding accepting_def by (metis (full_types) unit.exhaust)

section \<open>Properties of traces\<close>

text \<open>What a run makes of a trace: from a trace with \<open>P\<close> it ends in \<open>Q\<close> with a result, or in \<open>E\<close> with an error.
  The rules go through a run in its order, so a property may speak of the writes before a write.\<close>

definition triple :: "('s \<Rightarrow> bool) \<Rightarrow> ('s, 'a) run \<Rightarrow> ('a \<Rightarrow> 's \<Rightarrow> bool) \<Rightarrow> ('s \<Rightarrow> bool) \<Rightarrow> bool" where
  "triple P m Q E \<longleftrightarrow> (\<forall>tr. P tr \<longrightarrow> (case m tr of (Inl e, tr') \<Rightarrow> E tr' | (Inr x, tr') \<Rightarrow> Q x tr'))"

lemma triple_ret [triple_rules]: "(\<And>tr. P tr \<Longrightarrow> Q x tr) \<Longrightarrow> triple P (ret x) Q E"
  by (simp add: triple_def ret_def)

lemma triple_fail [triple_rules]: "(\<And>tr. P tr \<Longrightarrow> E tr) \<Longrightarrow> triple P (fail e) Q E"
  by (simp add: triple_def fail_def)

lemma triple_emit [triple_rules]: "(\<And>tr. P tr \<Longrightarrow> Q () (tr @ [e])) \<Longrightarrow> triple P (emit e) Q E"
  by (simp add: triple_def emit_def)

lemma triple_send:
  "(\<And>tr r. P tr \<Longrightarrow> srv tr e = Inr r \<Longrightarrow> Q r (tr @ [e])) \<Longrightarrow> (\<And>tr. P tr \<Longrightarrow> E tr) \<Longrightarrow> triple P (send srv e) Q E"
  by (auto simp: triple_def send_def split: sum.splits)

lemma triple_lift [triple_rules]:
  "(\<And>tr x. P tr \<Longrightarrow> r = Inr x \<Longrightarrow> Q x tr) \<Longrightarrow> (\<And>tr. P tr \<Longrightarrow> E tr) \<Longrightarrow> triple P (lift r) Q E"
  by (auto simp: triple_def lift_def ret_def fail_def split: sum.splits)

lemma triple_then:
  assumes m: "triple P m R E" and f: "\<And>x. triple (R x) (f x) Q E"
  shows "triple P (and_then m f) Q E"
  unfolding triple_def
proof (intro allI impI)
  fix tr assume "P tr"
  then show "case and_then m f tr of (Inl e, tr') \<Rightarrow> E tr' | (Inr x, tr') \<Rightarrow> Q x tr'"
    using m f unfolding triple_def and_then_def by (fastforce split: prod.splits sum.splits)
qed

lemma triple_when [triple_rules]:
  "(b \<Longrightarrow> triple P m Q E) \<Longrightarrow> (\<And>tr. \<not> b \<Longrightarrow> P tr \<Longrightarrow> Q () tr) \<Longrightarrow> triple P (when_io b m) Q E"
  by (simp add: when_io_def triple_ret)

lemma triple_weaken:
  "triple P m Q E \<Longrightarrow> (\<And>tr. P' tr \<Longrightarrow> P tr) \<Longrightarrow> (\<And>x tr. Q x tr \<Longrightarrow> Q' x tr) \<Longrightarrow> (\<And>tr. E tr \<Longrightarrow> E' tr) \<Longrightarrow> triple P' m Q' E'"
  unfolding triple_def by (fastforce split: prod.splits sum.splits)

lemma tripleD: "triple P m (\<lambda>_. I) I \<Longrightarrow> P tr \<Longrightarrow> I (snd (m tr))"
  unfolding triple_def by (cases "m tr") (fastforce split: sum.splits)

lemma triple_run: "triple P m Q E \<Longrightarrow> P tr \<Longrightarrow> case m tr of (Inl e, tr') \<Rightarrow> E tr' | (Inr x, tr') \<Rightarrow> Q x tr'"
  by (simp add: triple_def)

lemma tripleI: "(\<And>tr. P tr \<Longrightarrow> I (snd (m tr))) \<Longrightarrow> triple P m (\<lambda>_. I) I"
  unfolding triple_def by (metis (no_types, lifting) case_prod_beta sum.case_eq_if)

text \<open>A result computed without effects, and Go's deferred calls: one that runs when the body fails, and one
  that always runs. A panic of the deferred call replaces the outcome.\<close>

definition raise :: "error + 'a \<Rightarrow> ('s, 'a) run" where
  "raise r = (case r of Inl e \<Rightarrow> fail e | Inr x \<Rightarrow> ret x)"

definition on_error :: "('s, 'a) run \<Rightarrow> ('s, unit) run \<Rightarrow> ('s, 'a) run" where
  "on_error m cleanup = (\<lambda>s.
     case m s of
       (Inr x, s') \<Rightarrow> (Inr x, s')
     | (Inl e, s') \<Rightarrow> (case cleanup s' of (Inl p, s'') \<Rightarrow> (Inl p, s'') | (Inr _, s'') \<Rightarrow> (Inl e, s'')))"

definition deferring :: "('s, 'a) run \<Rightarrow> ('s, unit) run \<Rightarrow> ('s, 'a) run" where
  "deferring m cleanup = (\<lambda>s.
     case m s of (r, s') \<Rightarrow> (case cleanup s' of (Inl p, s'') \<Rightarrow> (Inl p, s'') | (Inr _, s'') \<Rightarrow> (r, s'')))"

lemma run_raise [io_run]: "raise r s = (case r of Inl e \<Rightarrow> (Inl e, s) | Inr x \<Rightarrow> (Inr x, s))"
  by (simp add: raise_def ret_def fail_def split: sum.split)

lemma run_on_error [io_run]:
  "on_error m c s = (case m s of
       (Inr x, s') \<Rightarrow> (Inr x, s')
     | (Inl e, s') \<Rightarrow> (case c s' of (Inl p, s'') \<Rightarrow> (Inl p, s'') | (Inr _, s'') \<Rightarrow> (Inl e, s'')))"
  by (simp add: on_error_def)

lemma run_deferring [io_run]:
  "deferring m c s = (case m s of (r, s') \<Rightarrow> (case c s' of (Inl p, s'') \<Rightarrow> (Inl p, s'') | (Inr _, s'') \<Rightarrow> (r, s'')))"
  by (simp add: deferring_def)

lemma io_ok_raise [io_rules]: "(\<And>x. r = Inr x \<Longrightarrow> Q x) \<Longrightarrow> io_ok P Q (raise r)"
  by (auto simp: raise_def intro: io_rules split: sum.splits)

lemma io_ok_on_error [io_rules]:
  assumes m: "io_ok P Q m" and c: "io_ok P (\<lambda>_. True) c"
  shows "io_ok P Q (on_error m c)"
  unfolding io_ok_def
proof
  fix tr
  obtain new where new: "snd (m tr) = tr @ new" "list_all P new" "\<forall>x. fst (m tr) = Inr x \<longrightarrow> Q x"
    using m unfolding io_ok_def by blast
  obtain more where more: "snd (c (tr @ new)) = (tr @ new) @ more" "list_all P more"
    using c unfolding io_ok_def by blast
  show "\<exists>new. snd (on_error m c tr) = tr @ new \<and> list_all P new \<and> (\<forall>x. fst (on_error m c tr) = Inr x \<longrightarrow> Q x)"
  proof (cases "fst (m tr)")
    case (Inl e)
    then have "snd (on_error m c tr) = tr @ new @ more \<and> isl (fst (on_error m c tr))"
      using new more by (cases "c (tr @ new)") (simp add: on_error_def split_beta split: sum.split)
    then show ?thesis using new more by (intro exI [of _ "new @ more"]) auto
  next
    case (Inr x)
    then show ?thesis using new by (intro exI [of _ new]) (simp add: on_error_def split_beta)
  qed
qed

text \<open>\<open>observe f\<close> reads the state it runs in: a call whose answer depends on the writes done so far.\<close>

definition observe :: "('s \<Rightarrow> ('s, 'a) run) \<Rightarrow> ('s, 'a) run" where
  "observe f = (\<lambda>s. f s s)"

lemma run_observe [io_run]: "observe f s = f s s"
  by (simp add: observe_def)

lemma io_ok_observe [io_rules]: "(\<And>tr. io_ok P Q (f tr)) \<Longrightarrow> io_ok P Q (observe f)"
  unfolding io_ok_def observe_def by blast

lemma triple_observe: "(\<And>s. P s \<Longrightarrow> triple (\<lambda>t. t = s) (f s) Q E) \<Longrightarrow> triple P (observe f) Q E"
  by (simp add: triple_def observe_def)

text \<open>\<open>counted P n m\<close>: at most \<open>n\<close> of the writes of \<open>m\<close> satisfy \<open>P\<close>.\<close>

definition counted :: "('w \<Rightarrow> bool) \<Rightarrow> nat \<Rightarrow> ('w, 'a) io \<Rightarrow> bool" where
  "counted P n m \<longleftrightarrow> (\<forall>tr. \<exists>new. snd (m tr) = tr @ new \<and> length (filter P new) \<le> n)"

lemma counted_none: "io_ok (\<lambda>e. \<not> P e) Q m \<Longrightarrow> counted P 0 m"
  unfolding counted_def
proof
  assume ok: "io_ok (\<lambda>e. \<not> P e) Q m"
  fix tr
  obtain new where "snd (m tr) = tr @ new" "list_all (\<lambda>e. \<not> P e) new"
    using ok unfolding io_ok_def by blast
  then show "\<exists>new. snd (m tr) = tr @ new \<and> length (filter P new) \<le> 0"
    by (intro exI [of _ new]) (simp add: list_all_iff)
qed

lemma counted_send: "counted P 1 (send srv e)"
  by (auto simp: counted_def send_def split: sum.split)

lemma counted_then:
  assumes m: "counted P a m" and f: "\<And>x. counted P b (f x)"
  shows "counted P (a + b) (and_then m f)"
  unfolding counted_def
proof
  fix tr
  obtain new where new: "snd (m tr) = tr @ new" "length (filter P new) \<le> a"
    using m unfolding counted_def by blast
  show "\<exists>new. snd (and_then m f tr) = tr @ new \<and> length (filter P new) \<le> a + b"
  proof (cases "fst (m tr)")
    case (Inl e)
    then show ?thesis using new by (intro exI [of _ new]) (simp add: and_then_def split_beta)
  next
    case (Inr x)
    obtain more where "snd (f x (tr @ new)) = (tr @ new) @ more" "length (filter P more) \<le> b"
      using f [of x] unfolding counted_def by blast
    then show ?thesis using new Inr by (intro exI [of _ "new @ more"]) (simp add: and_then_def split_beta)
  qed
qed

lemma counted_observe: "(\<And>tr. counted P n (f tr)) \<Longrightarrow> counted P n (observe f)"
  unfolding counted_def observe_def by blast

lemma counted_weaken: "counted P n m \<Longrightarrow> n \<le> k \<Longrightarrow> counted P k m"
  unfolding counted_def using order_trans by blast

lemma triple_raise [triple_rules]:
  "(\<And>s x. P s \<Longrightarrow> r = Inr x \<Longrightarrow> Q x s) \<Longrightarrow> (\<And>s. P s \<Longrightarrow> E s) \<Longrightarrow> triple P (raise r) Q E"
  by (auto simp: triple_def raise_def ret_def fail_def split: sum.splits)

lemma triple_on_error:
  assumes m: "triple P m Q F" and c: "triple F c (\<lambda>_. E) E"
  shows "triple P (on_error m c) Q E"
  unfolding triple_def
proof (intro allI impI)
  fix s assume "P s"
  obtain r s' where run: "m s = (r, s')" by fastforce
  show "case on_error m c s of (Inl e, s') \<Rightarrow> E s' | (Inr x, s') \<Rightarrow> Q x s'"
    using triple_run [OF m \<open>P s\<close>] tripleD [OF c, of s'] run
    by (auto simp: on_error_def split: sum.splits prod.splits)
qed

lemma triple_deferring:
  assumes m: "triple P m Q F" and c: "\<And>x. triple (Q x) c (\<lambda>_. R x) E" "triple F c (\<lambda>_. E) E"
  shows "triple P (deferring m c) R E"
  unfolding triple_def
proof (intro allI impI)
  fix s assume "P s"
  obtain r s' where run: "m s = (r, s')" by fastforce
  show "case deferring m c s of (Inl e, s') \<Rightarrow> E s' | (Inr x, s') \<Rightarrow> R x s'"
    using triple_run [OF m \<open>P s\<close>] triple_run [OF c(1), of _ s'] tripleD [OF c(2), of s'] run
    by (auto simp: deferring_def split: sum.splits prod.splits)
qed

section \<open>sort.Slice\<close>

text \<open>sort.Slice sorts by a comparison of indices. Its algorithm is a parameter \<open>srt\<close>: given
  the comparison on indices and the length it returns the order of the old indices.\<close>

type_synonym sorter = "(nat \<Rightarrow> nat \<Rightarrow> bool) \<Rightarrow> nat \<Rightarrow> nat list"

definition sort_slice :: "sorter \<Rightarrow> ('a \<Rightarrow> 'a \<Rightarrow> bool) \<Rightarrow> 'a list \<Rightarrow> 'a list" where
  "sort_slice srt before xs = map (\<lambda>i. xs ! i) (srt (\<lambda>i j. before (xs ! i) (xs ! j)) (length xs))"

text \<open>What sort.Slice asks of a comparison: a strict weak order on what is compared.\<close>

definition weak_order_on :: "'a set \<Rightarrow> ('a \<Rightarrow> 'a \<Rightarrow> bool) \<Rightarrow> bool" where
  "weak_order_on A lt \<longleftrightarrow>
     (\<forall>x\<in>A. \<forall>y\<in>A. lt x y \<longrightarrow> \<not> lt y x) \<and>
     (\<forall>x\<in>A. \<forall>y\<in>A. \<forall>z\<in>A. \<not> lt x y \<longrightarrow> \<not> lt y z \<longrightarrow> \<not> lt x z)"

lemma weak_order_asym: "weak_order_on A lt \<Longrightarrow> x \<in> A \<Longrightarrow> y \<in> A \<Longrightarrow> lt x y \<Longrightarrow> \<not> lt y x"
  unfolding weak_order_on_def by blast

lemma weak_order_trans:
  "weak_order_on A lt \<Longrightarrow> x \<in> A \<Longrightarrow> y \<in> A \<Longrightarrow> z \<in> A \<Longrightarrow> \<not> lt x y \<Longrightarrow> \<not> lt y z \<Longrightarrow> \<not> lt x z"
  unfolding weak_order_on_def by blast

lemma weak_order_on_index:
  assumes "weak_order_on (set xs) before"
  shows "weak_order_on {..<length xs} (\<lambda>i j. before (xs ! i) (xs ! j))"
  unfolding weak_order_on_def
proof (intro conjI ballI impI)
  fix i j assume "i \<in> {..<length xs}" "j \<in> {..<length xs}" "before (xs ! i) (xs ! j)"
  then show "\<not> before (xs ! j) (xs ! i)" using weak_order_asym [OF assms] by simp
next
  fix i j k assume "i \<in> {..<length xs}" "j \<in> {..<length xs}" "k \<in> {..<length xs}"
    "\<not> before (xs ! i) (xs ! j)" "\<not> before (xs ! j) (xs ! k)"
  then show "\<not> before (xs ! i) (xs ! k)"
    using weak_order_trans [OF assms, of "xs ! i" "xs ! j" "xs ! k"] by simp
qed

text \<open>A comparison of keys in a linear order is a strict weak order.\<close>

lemma weak_order_on_key:
  fixes f :: "'a \<Rightarrow> 'b::linorder"
  shows "weak_order_on A (\<lambda>x y. f x < f y)"
  unfolding weak_order_on_def by auto

lemma weak_order_on_key_desc:
  fixes f :: "'a \<Rightarrow> 'b::linorder"
  shows "weak_order_on A (\<lambda>x y. f x > f y)"
  unfolding weak_order_on_def by auto

text \<open>The contract of sort.Slice: a permutation, in order for a strict weak order. Elements
  that compare equal may come in any order.\<close>

locale slice_sort =
  fixes srt :: sorter
  assumes srt_perm: "mset (srt lt n) = mset [0..<n]"
    and srt_sorted: "weak_order_on {..<n} lt \<Longrightarrow> sorted_wrt (\<lambda>i j. \<not> lt j i) (srt lt n)"
begin

lemma sort_slice_mset [simp]: "mset (sort_slice srt before xs) = mset xs"
proof -
  have "mset (sort_slice srt before xs) = image_mset (\<lambda>i. xs ! i) (mset [0..<length xs])"
    by (simp only: sort_slice_def mset_map srt_perm)
  also have "\<dots> = mset (map (\<lambda>i. xs ! i) [0..<length xs])"
    by (simp only: mset_map)
  finally show ?thesis by (simp only: map_nth)
qed

lemma sort_slice_set [simp]: "set (sort_slice srt before xs) = set xs"
  by (metis sort_slice_mset set_mset_mset)

lemma sort_slice_length [simp]: "length (sort_slice srt before xs) = length xs"
  by (metis sort_slice_mset size_mset)

lemma sort_slice_Nil [simp]: "(sort_slice srt before xs = []) = (xs = [])"
  by (metis sort_slice_length length_0_conv)

lemma sort_slice_distinct [simp]: "distinct (sort_slice srt before xs) = distinct xs"
  by (metis sort_slice_mset mset_eq_imp_distinct_iff)

lemma sort_slice_sorted:
  assumes "weak_order_on (set xs) before"
  shows "sorted_wrt (\<lambda>x y. \<not> before y x) (sort_slice srt before xs)"
  using srt_sorted [OF weak_order_on_index [OF assms]]
  by (simp add: sort_slice_def sorted_wrt_map)

text \<open>What the callers use: the first element is in the slice and nothing precedes it.\<close>

lemma sort_slice_hd:
  assumes "weak_order_on (set xs) before" and "xs \<noteq> []"
  shows "hd (sort_slice srt before xs) \<in> set xs"
    and "x \<in> set xs \<Longrightarrow> \<not> before x (hd (sort_slice srt before xs))"
proof -
  obtain y ys where sorted: "sort_slice srt before xs = y # ys"
    using assms(2) by (metis sort_slice_Nil neq_Nil_conv)
  then have y: "y \<in> set xs" by (metis list.set_intros(1) sort_slice_set)
  then show "hd (sort_slice srt before xs) \<in> set xs" using sorted by simp
  show "\<not> before x (hd (sort_slice srt before xs))" if x: "x \<in> set xs"
  proof -
    have "x \<in> set (y # ys)" using x sorted by (metis sort_slice_set)
    moreover have "\<not> before y y" using weak_order_asym [OF assms(1) y y] by blast
    moreover have "\<forall>z\<in>set ys. \<not> before z y"
      using sort_slice_sorted [OF assms(1)] sorted by simp
    ultimately show ?thesis using sorted by auto
  qed
qed

end

text \<open>Go runs an insertion sort on slices of at most twelve elements: each element in turn is
  moved left past the elements that come after it.\<close>

fun insert_idx :: "(nat \<Rightarrow> nat \<Rightarrow> bool) \<Rightarrow> nat \<Rightarrow> nat list \<Rightarrow> nat list" where
  "insert_idx lt x [] = [x]"
| "insert_idx lt x (y # ys) = (if lt x y then x # y # ys else y # insert_idx lt x ys)"

definition insertion_sort :: sorter where
  "insertion_sort lt n = foldl (\<lambda>acc x. insert_idx lt x acc) [] [0..<n]"

lemma mset_insert_idx [simp]: "mset (insert_idx lt x ys) = add_mset x (mset ys)"
  by (induction ys) auto

lemma set_insert_idx [simp]: "set (insert_idx lt x ys) = insert x (set ys)"
  by (metis mset_insert_idx set_mset_add_mset_insert set_mset_mset)

lemma sorted_insert_idx:
  assumes "weak_order_on A lt" and "insert x (set ys) \<subseteq> A"
  shows "sorted_wrt (\<lambda>i j. \<not> lt j i) ys \<Longrightarrow> sorted_wrt (\<lambda>i j. \<not> lt j i) (insert_idx lt x ys)"
  using assms(2)
proof (induction ys)
  case (Cons y ys)
  show ?case
  proof (cases "lt x y")
    case True
    have "\<not> lt z x" if z: "z \<in> set ys" for z
    proof
      assume "lt z x"
      then have "\<not> lt x z" using weak_order_asym [OF assms(1)] Cons.prems z by auto
      moreover have "\<not> lt z y" using Cons.prems z by simp
      ultimately show False
        using True weak_order_trans [OF assms(1), of x z y] Cons.prems z by auto
    qed
    moreover have "\<not> lt y x" using True weak_order_asym [OF assms(1)] Cons.prems by auto
    ultimately show ?thesis using True Cons.prems by simp
  next
    case False
    then show ?thesis using Cons by auto
  qed
qed simp

lemma insertion_sort_foldl:
  assumes "weak_order_on A lt" and "set xs \<union> set acc \<subseteq> A" and "sorted_wrt (\<lambda>i j. \<not> lt j i) acc"
  shows "sorted_wrt (\<lambda>i j. \<not> lt j i) (foldl (\<lambda>acc x. insert_idx lt x acc) acc xs)"
  using assms(2,3)
proof (induction xs arbitrary: acc)
  case (Cons x xs)
  then show ?case
    using sorted_insert_idx [OF assms(1), of x acc] by simp
qed simp

lemma mset_insertion_foldl:
  "mset (foldl (\<lambda>acc x. insert_idx lt x acc) acc xs) = mset acc + mset xs"
  by (induction xs arbitrary: acc) auto

interpretation go_sort: slice_sort insertion_sort
proof unfold_locales
  show "mset (insertion_sort lt n) = mset [0..<n]" for lt n
    by (simp add: insertion_sort_def mset_insertion_foldl)
  show "sorted_wrt (\<lambda>i j. \<not> lt j i) (insertion_sort lt n)" if "weak_order_on {..<n} lt" for lt n
    unfolding insertion_sort_def
    by (rule insertion_sort_foldl [OF that]) auto
qed

section \<open>Decimal rendering\<close>

fun itoa :: "nat \<Rightarrow> string" where
  "itoa n = (if n < 10 then [char_of (48 + n)] else itoa (n div 10) @ [char_of (48 + n mod 10)])"

declare itoa.simps [simp del]

definition itoa_int :: "int \<Rightarrow> string" where
  "itoa_int i = (if i < 0 then ''-'' @ itoa (nat (- i)) else itoa (nat i))"

end
