(* ===== verification/Imp_Types.thy ===== *)
theory Imp_Types
  imports Imp_Prelude
begin

text \<open>
  The data model of the API group imp.dev (src/api/v1alpha1): the ImpVM object with its
  spec and status, the class and template it refers to, the per-node profile and the
  cluster configuration. The structs of k8s.io/api that the operator reads (object
  metadata, conditions, nodes, taints, tolerations) come first, with the fields the code
  uses. Enumerations whose values the CRD schema fixes are datatypes with a constructor for
  the unset value; open strings stay strings. Times and durations are integers counting
  nanoseconds, a nil pointer is None.
\<close>

section \<open>Structs of k8s.io/api\<close>

record owner_ref =
  or_Kind :: string
  or_Name :: string
  or_UID :: string
  or_Controller :: "bool option"

record object_meta =
  om_Name :: string
  om_Namespace :: string
  om_UID :: string
  om_Labels :: strmap
  om_Annotations :: strmap
  om_Finalizers :: "string list"
  om_CreationTimestamp :: "int option"
  om_DeletionTimestamp :: "int option"
  om_Generation :: int
  om_OwnerReferences :: "owner_ref list"
  om_GenerateName :: string

text \<open>Time.Before on creation times; a missing time is the zero time.\<close>

fun time_before :: "int option \<Rightarrow> int option \<Rightarrow> bool" where
  "time_before (Some a) (Some b) = (a < b)"
| "time_before None (Some b) = True"
| "time_before _ None = False"

lemma time_before_asym: "time_before a b \<Longrightarrow> \<not> time_before b a"
  by (cases a; cases b; simp)

lemma time_before_trans: "\<not> time_before a b \<Longrightarrow> \<not> time_before b c \<Longrightarrow> \<not> time_before a c"
  by (cases a; cases b; cases c; simp)

datatype cond_status = ConditionTrue | ConditionFalse | ConditionUnknown

record condition =
  c_Type :: string
  c_Status :: cond_status
  c_Reason :: string
  c_Message :: string
  c_ObservedGeneration :: int
  c_LastTransitionTime :: int

datatype taint_effect = EffectUnset | NoSchedule | PreferNoSchedule | NoExecute

record taint =
  ta_Key :: string
  ta_Value :: string
  ta_Effect :: taint_effect

datatype toleration_op = OpUnset | OpExists | OpEqual

record toleration =
  to_Key :: string
  to_Operator :: toleration_op
  to_Value :: string
  to_Effect :: taint_effect

datatype node_cond_type = NodeReady | NodeMemoryPressure | NodeDiskPressure | NodePIDPressure
  | NodeOther string

record node =
  nd_Name :: string
  nd_Labels :: strmap
  nd_Taints :: "taint list"
  nd_Unschedulable :: bool
  nd_Conditions :: "(node_cond_type \<times> cond_status) list"
  nd_AllocCPUMillis :: int
  nd_AllocMemBytes :: int
  nd_PodCIDRs :: "string list"

record env_var =
  ev_Name :: string
  ev_Value :: string
  ev_ValueFrom :: bool

record env_from =
  ef_Prefix :: string
  ef_ConfigMapRef :: "string option"
  ef_SecretRef :: "string option"

section \<open>Shared types (shared\_types.go)\<close>

definition LabelSnapshotParent :: string where
  "LabelSnapshotParent = ''imp.dev/snapshot-parent''"

definition LabelWarmPool :: string where
  "LabelWarmPool = ''imp.dev/warm-pool''"

definition LabelRunnerPool :: string where
  "LabelRunnerPool = ''imp.dev/runner-pool''"

datatype VMLifecycle = VMLifecycleUnset | VMLifecycleEphemeral | VMLifecyclePersistent

datatype VMPhase = VMPhaseUnset | VMPhasePending | VMPhaseScheduled | VMPhaseStarting
  | VMPhaseRunning | VMPhaseTerminating | VMPhaseSucceeded | VMPhaseFailed
  | VMPhaseRetryExhausted | VMPhaseSuspending | VMPhaseSuspended | VMPhaseResuming

fun phase_string :: "VMPhase \<Rightarrow> string" where
  "phase_string VMPhaseUnset = ''''"
| "phase_string VMPhasePending = ''Pending''"
| "phase_string VMPhaseScheduled = ''Scheduled''"
| "phase_string VMPhaseStarting = ''Starting''"
| "phase_string VMPhaseRunning = ''Running''"
| "phase_string VMPhaseTerminating = ''Terminating''"
| "phase_string VMPhaseSucceeded = ''Succeeded''"
| "phase_string VMPhaseFailed = ''Failed''"
| "phase_string VMPhaseRetryExhausted = ''RetryExhausted''"
| "phase_string VMPhaseSuspending = ''Suspending''"
| "phase_string VMPhaseSuspended = ''Suspended''"
| "phase_string VMPhaseResuming = ''Resuming''"

datatype VMDesiredState = VMDesiredStateUnset | VMDesiredStateRunning | VMDesiredStateSuspended
  | VMDesiredStateScaleToZero

record exec_action =
  ea_Command :: "string list"

record http_get_action =
  hg_Path :: string
  hg_Port :: int

record probe =
  pr_Exec :: "exec_action option"
  pr_HTTP :: "http_get_action option"
  pr_InitialDelaySeconds :: int
  pr_PeriodSeconds :: int
  pr_FailureThreshold :: int

record HTTPCheckSpec =
  hc_Enabled :: bool
  hc_Path :: string
  hc_Port :: int
  hc_IntervalSeconds :: int
  hc_FailureThreshold :: int

record ProbeSpec =
  ps_StartupProbe :: "probe option"
  ps_ReadinessProbe :: "probe option"
  ps_LivenessProbe :: "probe option"
  ps_HTTPCheck :: "HTTPCheckSpec option"

datatype Arch = ArchUnset | ArchAMD64 | ArchARM64 | ArchMulti

text \<open>GuestAgentConfig has one field, Enabled, a *bool.\<close>

record GuestAgentConfig =
  ga_Enabled :: "bool option"

record RestartBackoff =
  rb_MaxRetries :: int
  rb_InitialDelay :: string
  rb_MaxDelay :: string

record RestartPolicy =
  rp_Mode :: string
  rp_Backoff :: RestartBackoff
  rp_OnExhaustion :: string
  rp_CoolDownPeriod :: string

section \<open>ImpVM (impvm\_types.go)\<close>

text \<open>TemplateRef, ClassRef, NetworkRef and UserData hold the name they refer to.\<close>

record ImpVMSpec =
  vs_TemplateRef :: "string option"
  vs_ClassRef :: "string option"
  vs_NetworkRef :: "string option"
  vs_Image :: string
  vs_Lifecycle :: VMLifecycle
  vs_NodeName :: string
  vs_SnapshotRef :: string
  vs_NodeSelector :: strmap
  vs_Tolerations :: "toleration list"
  vs_Env :: "env_var list"
  vs_EnvFrom :: "env_from list"
  vs_UserData :: "string option"
  vs_Probes :: "ProbeSpec option"
  vs_GuestAgent :: "GuestAgentConfig option"
  vs_RestartPolicy :: "RestartPolicy option"
  vs_NetworkGroup :: string
  vs_RunnerLayer :: string
  vs_RunnerConfigSecret :: string
  vs_CiliumLayer :: string
  vs_ExpireAfter :: "int option"
  vs_RescheduleOnNodeLoss :: bool
  vs_DesiredState :: VMDesiredState
  vs_IdleTimeout :: "int option"

record ImpVMStatus =
  vt_Phase :: VMPhase
  vt_NodeName :: string
  vt_IP :: string
  vt_RuntimePID :: int
  vt_ScheduledAt :: "int option"
  vt_RunningAt :: "int option"
  vt_ExpiresAt :: "int option"
  vt_StartedAt :: "int option"
  vt_SuspendSnapshotPath :: string
  vt_SuspendedAt :: "int option"
  vt_LastActivityTime :: "int option"
  vt_RestartCount :: int
  vt_NextRetryAfter :: "int option"
  vt_ExhaustedAt :: "int option"
  vt_CiliumEndpointID :: int
  vt_RunnerHandoffAccepted :: bool
  vt_RunnerExitCode :: "int option"
  vt_RunnerFailureReason :: string
  vt_Conditions :: "condition list"

record ImpVM =
  vm_Meta :: object_meta
  vm_Spec :: ImpVMSpec
  vm_Status :: ImpVMStatus

section \<open>Class, template, node profile, cluster configuration\<close>

record ImpVMClassSpec =
  cs_VCPU :: int
  cs_MemoryMiB :: int
  cs_DiskGiB :: int
  cs_Arch :: Arch
  cs_Probes :: "ProbeSpec option"
  cs_GuestAgent :: "GuestAgentConfig option"
  cs_RestartPolicy :: "RestartPolicy option"
  cs_Tolerations :: "toleration list"

record ImpVMTemplateSpec =
  ts_ClassRef :: string
  ts_NetworkRef :: "string option"
  ts_Image :: string
  ts_Probes :: "ProbeSpec option"
  ts_GuestAgent :: "GuestAgentConfig option"
  ts_RestartPolicy :: "RestartPolicy option"
  ts_NetworkGroup :: string
  ts_RunnerLayer :: string
  ts_CiliumLayer :: string
  ts_ExpireAfter :: "int option"

record NodeLANBinding =
  nb_AttachmentName :: string
  nb_ParentInterface :: string

record ClusterImpNodeProfileSpec =
  np_CapacityFraction :: string
  np_MaxImpVMs :: int
  np_VCPUCapacity :: int
  np_MemoryMiB :: int
  np_CPUModel :: string
  np_VTEPIP :: string
  np_LANBindings :: "NodeLANBinding list"

record LANAttachmentSpec =
  la_Name :: string
  la_VLANID :: int
  la_SubnetCIDR :: string
  la_AllowDHCP :: bool
  la_AllowedSubjects :: "string list"

record CapacityConfig =
  cc_DefaultFraction :: string
  cc_MemoryReserveMiB :: "int option"

text \<open>ClusterImpConfigSpec with the parts the controllers read: capacity, the LAN allowlist,
  the default HTTP check and the sandbox floor. The observability and CNI settings are read
  only by the process start-up code.\<close>

record ClusterImpConfigSpec =
  cf_Capacity :: CapacityConfig
  cf_LANAttachments :: "LANAttachmentSpec list"
  cf_DefaultHttpCheck :: "HTTPCheckSpec option"
  cf_SandboxFloorTenancy :: "string option"

section \<open>Zero values\<close>

text \<open>Go's zero values, from which the controllers build new objects.\<close>

definition zero_meta :: object_meta where
  "zero_meta = \<lparr>om_Name = '''', om_Namespace = '''', om_UID = '''', om_Labels = [],
     om_Annotations = [], om_Finalizers = [], om_CreationTimestamp = None,
     om_DeletionTimestamp = None, om_Generation = 0, om_OwnerReferences = [], om_GenerateName = ''''\<rparr>"

definition zero_vm_spec :: ImpVMSpec where
  "zero_vm_spec = \<lparr>vs_TemplateRef = None, vs_ClassRef = None, vs_NetworkRef = None,
     vs_Image = '''', vs_Lifecycle = VMLifecycleUnset, vs_NodeName = '''', vs_SnapshotRef = '''',
     vs_NodeSelector = [], vs_Tolerations = [], vs_Env = [], vs_EnvFrom = [], vs_UserData = None,
     vs_Probes = None, vs_GuestAgent = None, vs_RestartPolicy = None, vs_NetworkGroup = '''',
     vs_RunnerLayer = '''', vs_RunnerConfigSecret = '''', vs_CiliumLayer = '''',
     vs_ExpireAfter = None, vs_RescheduleOnNodeLoss = False,
     vs_DesiredState = VMDesiredStateUnset, vs_IdleTimeout = None\<rparr>"

definition zero_vm_status :: ImpVMStatus where
  "zero_vm_status = \<lparr>vt_Phase = VMPhaseUnset, vt_NodeName = '''', vt_IP = '''',
     vt_RuntimePID = 0, vt_ScheduledAt = None, vt_RunningAt = None, vt_ExpiresAt = None,
     vt_StartedAt = None, vt_SuspendSnapshotPath = '''', vt_SuspendedAt = None,
     vt_LastActivityTime = None, vt_RestartCount = 0, vt_NextRetryAfter = None,
     vt_ExhaustedAt = None, vt_CiliumEndpointID = 0, vt_RunnerHandoffAccepted = False,
     vt_RunnerExitCode = None, vt_RunnerFailureReason = '''', vt_Conditions = []\<rparr>"

definition zero_vm :: ImpVM where
  "zero_vm = \<lparr>vm_Meta = zero_meta, vm_Spec = zero_vm_spec, vm_Status = zero_vm_status\<rparr>"

section \<open>Accessors\<close>

text \<open>Names for the updates the controllers make, and for the fields they read.\<close>

abbreviation vm_name :: "ImpVM \<Rightarrow> string" where
  "vm_name vm \<equiv> om_Name (vm_Meta vm)"

abbreviation vm_namespace :: "ImpVM \<Rightarrow> string" where
  "vm_namespace vm \<equiv> om_Namespace (vm_Meta vm)"

abbreviation vm_phase :: "ImpVM \<Rightarrow> VMPhase" where
  "vm_phase vm \<equiv> vt_Phase (vm_Status vm)"

abbreviation vm_node :: "ImpVM \<Rightarrow> string" where
  "vm_node vm \<equiv> vs_NodeName (vm_Spec vm)"

definition upd_spec :: "(ImpVMSpec \<Rightarrow> ImpVMSpec) \<Rightarrow> ImpVM \<Rightarrow> ImpVM" where
  "upd_spec f vm = vm\<lparr>vm_Spec := f (vm_Spec vm)\<rparr>"

definition upd_status :: "(ImpVMStatus \<Rightarrow> ImpVMStatus) \<Rightarrow> ImpVM \<Rightarrow> ImpVM" where
  "upd_status f vm = vm\<lparr>vm_Status := f (vm_Status vm)\<rparr>"

definition upd_meta :: "(object_meta \<Rightarrow> object_meta) \<Rightarrow> ImpVM \<Rightarrow> ImpVM" where
  "upd_meta f vm = vm\<lparr>vm_Meta := f (vm_Meta vm)\<rparr>"

lemma upd_sel [simp]:
  "vm_Spec (upd_spec f vm) = f (vm_Spec vm)" "vm_Status (upd_spec f vm) = vm_Status vm"
  "vm_Meta (upd_spec f vm) = vm_Meta vm"
  "vm_Spec (upd_status g vm) = vm_Spec vm" "vm_Status (upd_status g vm) = g (vm_Status vm)"
  "vm_Meta (upd_status g vm) = vm_Meta vm"
  "vm_Spec (upd_meta h vm) = vm_Spec vm" "vm_Status (upd_meta h vm) = vm_Status vm"
  "vm_Meta (upd_meta h vm) = h (vm_Meta vm)"
  by (simp_all add: upd_spec_def upd_status_def upd_meta_def)

definition set_phase :: "VMPhase \<Rightarrow> ImpVM \<Rightarrow> ImpVM" where
  "set_phase p = upd_status (\<lambda>s. s\<lparr>vt_Phase := p\<rparr>)"

definition set_node :: "string \<Rightarrow> ImpVM \<Rightarrow> ImpVM" where
  "set_node n = upd_spec (\<lambda>s. s\<lparr>vs_NodeName := n\<rparr>)"

definition set_status_node :: "string \<Rightarrow> ImpVM \<Rightarrow> ImpVM" where
  "set_status_node n = upd_status (\<lambda>s. s\<lparr>vt_NodeName := n\<rparr>)"

lemma set_sel [simp]:
  "vm_Spec (set_phase p vm) = vm_Spec vm" "vm_Meta (set_phase p vm) = vm_Meta vm"
  "vm_Status (set_phase p vm) = (vm_Status vm)\<lparr>vt_Phase := p\<rparr>"
  "vm_Spec (set_node n vm) = (vm_Spec vm)\<lparr>vs_NodeName := n\<rparr>"
  "vm_Meta (set_node n vm) = vm_Meta vm" "vm_Status (set_node n vm) = vm_Status vm"
  "vm_Spec (set_status_node n vm) = vm_Spec vm" "vm_Meta (set_status_node n vm) = vm_Meta vm"
  "vm_Status (set_status_node n vm) = (vm_Status vm)\<lparr>vt_NodeName := n\<rparr>"
  by (simp_all add: set_phase_def set_node_def set_status_node_def)

section \<open>Status conditions\<close>

text \<open>apimeta.SetStatusCondition and FindStatusCondition: conditions are keyed by type; a
  replaced condition keeps its transition time while the status does not change.\<close>

definition FindStatusCondition :: "condition list \<Rightarrow> string \<Rightarrow> condition option" where
  "FindStatusCondition cs t = find (\<lambda>c. c_Type c = t) cs"

fun SetStatusCondition :: "condition \<Rightarrow> condition list \<Rightarrow> condition list" where
  "SetStatusCondition new [] = [new]"
| "SetStatusCondition new (c # cs) =
     (if c_Type c = c_Type new
      then (if c_Status c = c_Status new
            then new\<lparr>c_LastTransitionTime := c_LastTransitionTime c\<rparr> else new) # cs
      else c # SetStatusCondition new cs)"

lemma FindStatusCondition_Nil [simp]: "FindStatusCondition [] t = None"
  by (simp add: FindStatusCondition_def)

lemma Find_Set_same:
  "\<exists>c. FindStatusCondition (SetStatusCondition new cs) (c_Type new) = Some c \<and>
     c_Type c = c_Type new \<and> c_Status c = c_Status new \<and> c_Reason c = c_Reason new \<and>
     c_Message c = c_Message new"
  by (induction cs) (auto simp: FindStatusCondition_def)

lemma Find_Set_other [simp]:
  "t \<noteq> c_Type new \<Longrightarrow> FindStatusCondition (SetStatusCondition new cs) t = FindStatusCondition cs t"
  by (induction cs) (auto simp: FindStatusCondition_def)

end
