(* ===== verification/Go_Std.thy ===== *)
theory Go_Std
  imports Imp_Prelude
begin

text \<open>
  The parts of Go's language and standard library that the operator computes with: float64
  arithmetic (an exact model of binary64 with rounding to nearest even; the two zeros are one
  value), strconv.ParseFloat, strconv.Atoi and time.ParseDuration.
\<close>

section \<open>float64\<close>

text \<open>\<open>Fin m e\<close> is the number m times 2 to the e.\<close>

datatype float64 = Fin int int | PInf | NInf | NaN

fun bit_length :: "nat \<Rightarrow> nat" where
  "bit_length n = (if n = 0 then 0 else Suc (bit_length (n div 2)))"

declare bit_length.simps [simp del]

lemma bit_length_0 [simp]: "bit_length 0 = 0"
  by (simp add: bit_length.simps)

lemma bit_length_pos: "0 < n \<Longrightarrow> bit_length n = Suc (bit_length (n div 2))"
  by (subst bit_length.simps) simp

lemma less_bit_length: "n < 2 ^ bit_length n"
proof (induction n rule: bit_length.induct)
  case (1 n)
  show ?case
  proof (cases "n = 0")
    case False
    with 1 have "n div 2 < 2 ^ bit_length (n div 2)" by simp
    then show ?thesis using False by (simp add: bit_length_pos)
  qed simp
qed

lemma bit_length_le: "0 < n \<Longrightarrow> 2 ^ (bit_length n - 1) \<le> n"
proof (induction n rule: bit_length.induct)
  case (1 n)
  show ?case
  proof (cases "n div 2 = 0")
    case True
    with 1 show ?thesis by (simp add: bit_length_pos)
  next
    case False
    with 1 have IH: "2 ^ (bit_length (n div 2) - 1) \<le> n div 2" by simp
    obtain k where k: "bit_length (n div 2) = Suc k"
      using False bit_length_pos [of "n div 2"] by auto
    have "2 * 2 ^ k \<le> n" using IH k by simp
    then show ?thesis using 1 k by (simp add: bit_length_pos)
  qed
qed

text \<open>Drop \<open>k\<close> bits, rounding to nearest and ties to even.\<close>

definition shift_right_even :: "nat \<Rightarrow> nat \<Rightarrow> nat" where
  "shift_right_even n k =
     (let q = n div 2 ^ k; r = n mod 2 ^ k in
      if 2 * r < 2 ^ k then q
      else if 2 ^ k < 2 * r then q + 1
      else if even q then q else q + 1)"

lemma shift_right_even_le:
  assumes "n \<le> c * 2 ^ k"
  shows "shift_right_even n k \<le> c"
proof -
  let ?q = "n div 2 ^ k" and ?r = "n mod 2 ^ k"
  have n: "n = ?q * 2 ^ k + ?r" by (rule div_mult_mod_eq [symmetric])
  have "?q \<le> (c * 2 ^ k) div 2 ^ k" using assms by (rule div_le_mono)
  then have "?q \<le> c" by simp
  moreover have "?q < c" if "0 < ?r"
  proof (rule ccontr)
    assume "\<not> ?q < c"
    then have "c * 2 ^ k \<le> ?q * 2 ^ k" by simp
    then show False using assms n that by linarith
  qed
  moreover have "0 < ?r" if "\<not> 2 * ?r < 2 ^ k" using that by (cases "?r = 0") auto
  ultimately show ?thesis by (auto simp: shift_right_even_def Let_def)
qed

text \<open>The float64 nearest to m times 2 to the e: 53 bits of significand, exponents down to -1074,
  infinity from 2 to the 1024 on.\<close>

definition f64_round :: "int \<Rightarrow> int \<Rightarrow> float64" where
  "f64_round m e =
     (let n = nat \<bar>m\<bar>; k = nat (max (int (bit_length n) - 53) (-1074 - e));
          n' = shift_right_even n k; e' = e + int k in
      if n' \<noteq> 0 \<and> 1024 < int (bit_length n') + e' then (if m < 0 then NInf else PInf)
      else Fin (sgn m * int n') e')"

definition f64_of_int :: "int \<Rightarrow> float64" where
  "f64_of_int a = f64_round a 0"

fun f64_neg :: "float64 \<Rightarrow> float64" where
  "f64_neg (Fin m e) = Fin (- m) e"
| "f64_neg PInf = NInf"
| "f64_neg NInf = PInf"
| "f64_neg NaN = NaN"

fun f64_mul :: "float64 \<Rightarrow> float64 \<Rightarrow> float64" where
  "f64_mul (Fin m e) (Fin m' e') = f64_round (m * m') (e + e')"
| "f64_mul NaN y = NaN"
| "f64_mul x NaN = NaN"
| "f64_mul (Fin m e) PInf = (if m = 0 then NaN else if 0 < m then PInf else NInf)"
| "f64_mul (Fin m e) NInf = (if m = 0 then NaN else if 0 < m then NInf else PInf)"
| "f64_mul PInf (Fin m e) = (if m = 0 then NaN else if 0 < m then PInf else NInf)"
| "f64_mul NInf (Fin m e) = (if m = 0 then NaN else if 0 < m then NInf else PInf)"
| "f64_mul PInf PInf = PInf"
| "f64_mul PInf NInf = NInf"
| "f64_mul NInf PInf = NInf"
| "f64_mul NInf NInf = PInf"

text \<open>The float64 nearest to the quotient n / d times 2 to the e of naturals: enough quotient bits are
  kept and a sticky bit stands for the remainder.\<close>

definition f64_quot :: "nat \<Rightarrow> nat \<Rightarrow> int \<Rightarrow> float64" where
  "f64_quot n d e =
     (let s = bit_length d + 55; q = (n * 2 ^ s) div d; r = (n * 2 ^ s) mod d in
      f64_round (int (2 * q + (if r = 0 then 0 else 1))) (e - int s - 1))"

text \<open>Comparison with an integer: m times 2 to the e < c.\<close>

fun f64_less_int :: "float64 \<Rightarrow> int \<Rightarrow> bool" where
  "f64_less_int (Fin m e) c = (if 0 \<le> e then m * 2 ^ nat e < c else m < c * 2 ^ nat (- e))"
| "f64_less_int PInf c = False"
| "f64_less_int NInf c = True"
| "f64_less_int NaN c = False"

fun f64_greater_int :: "float64 \<Rightarrow> int \<Rightarrow> bool" where
  "f64_greater_int (Fin m e) c = (if 0 \<le> e then c < m * 2 ^ nat e else c * 2 ^ nat (- e) < m)"
| "f64_greater_int PInf c = True"
| "f64_greater_int NInf c = False"
| "f64_greater_int NaN c = False"

text \<open>Conversion to int64 truncates. Outside the range, and for NaN, the Go specification
  leaves the value to the implementation: a parameter.\<close>

fun f64_trunc :: "float64 \<Rightarrow> int option" where
  "f64_trunc (Fin m e) = Some (if 0 \<le> e then m * 2 ^ nat e else sgn m * (\<bar>m\<bar> div 2 ^ nat (- e)))"
| "f64_trunc _ = None"

definition f64_to_int64 :: "(float64 \<Rightarrow> int) \<Rightarrow> float64 \<Rightarrow> int" where
  "f64_to_int64 oob x =
     (case f64_trunc x of
        Some i \<Rightarrow> if - (2 ^ 63) \<le> i \<and> i < 2 ^ 63 then i else oob x
      | None \<Rightarrow> oob x)"

lemma shift_right_even_0 [simp]: "shift_right_even n 0 = n"
  by (simp add: shift_right_even_def)

text \<open>Integers of at most 53 bits are exact.\<close>

lemma bit_length_bound: "n < 2 ^ k \<Longrightarrow> bit_length n \<le> k"
proof (cases "n = 0")
  case False
  assume "n < 2 ^ k"
  with bit_length_le [of n] False have "(2::nat) ^ (bit_length n - 1) < 2 ^ k" by linarith
  then have "bit_length n - 1 < k" by simp
  then show ?thesis by linarith
qed simp

lemma f64_of_int_exact:
  assumes "0 \<le> a" and "a < 2 ^ 53"
  shows "f64_of_int a = Fin a 0"
proof -
  have "bit_length (nat a) \<le> 53"
    using assms by (intro bit_length_bound) (simp add: nat_less_iff)
  then show ?thesis using assms by (auto simp: f64_of_int_def f64_round_def Let_def sgn_if)
qed

text \<open>Scaling an integer by a fraction in [0,1] and truncating never exceeds the integer.\<close>

lemma f64_round_scaled:
  assumes n: "n \<le> a * 2 ^ p" and a: "a < 2 ^ 53"
  shows "\<exists>n' q. f64_round (int n) (- int p) = Fin (int n') (- int q) \<and> n' \<le> a * 2 ^ q"
proof -
  define k where "k = nat (max (int (bit_length n) - 53) (-1074 - (- int p)))"
  define n' where "n' = shift_right_even n k"
  have "n < 2 ^ (53 + p)" using n a
    by (metis le_less_trans mult_less_mono1 power_add zero_less_numeral zero_less_power)
  then have "bit_length n \<le> 53 + p" by (rule bit_length_bound)
  then have kp: "k \<le> p" by (auto simp: k_def)
  have "n \<le> (a * 2 ^ (p - k)) * 2 ^ k" using n kp by (simp add: mult.assoc flip: power_add)
  then have n': "n' \<le> a * 2 ^ (p - k)" unfolding n'_def by (rule shift_right_even_le)
  then have "n' < 2 ^ (53 + (p - k))" using a
    by (metis le_less_trans mult_less_mono1 power_add zero_less_numeral zero_less_power)
  then have "bit_length n' \<le> 53 + (p - k)" by (rule bit_length_bound)
  then have ok: "\<not> 1024 < int (bit_length n') + (- int p + int k)" using kp by linarith
  have "f64_round (int n) (- int p) = Fin (sgn (int n) * int n') (- int p + int k)"
    using ok unfolding f64_round_def n'_def k_def by (simp add: Let_def)
  moreover have "sgn (int n) * int n' = int n'"
    by (cases "n = 0") (simp_all add: n'_def shift_right_even_def)
  moreover have "- int p + int k = - int (p - k)" using kp by simp
  ultimately show ?thesis using n' by metis
qed

lemma pow2_scaled_le_1:
  fixes m :: int
  assumes "0 \<le> m" and "m * 2 ^ k \<le> 1"
  shows "m = 0 \<or> (m = 1 \<and> k = 0)"
proof (cases k)
  case (Suc j)
  have "1 * 2 \<le> m * (2 * 2 ^ j)" if "1 \<le> m"
    using that by (intro mult_mono) simp_all
  then show ?thesis using assms Suc by fastforce
qed (use assms in auto)

lemma f64_scale_le:
  assumes a: "0 \<le> a" "a < 2 ^ 53" and f: "\<not> f64_less_int (Fin m e) 0" "\<not> f64_greater_int (Fin m e) 1"
  shows "\<exists>i. f64_trunc (f64_mul (f64_of_int a) (Fin m e)) = Some i \<and> 0 \<le> i \<and> i \<le> a"
proof -
  have m: "0 \<le> m" using f(1) by (auto simp: mult_less_0_iff not_less split: if_splits)
  define p where "p = nat (- min e 0)"
  have le: "m * 2 ^ nat (max e 0) \<le> 2 ^ p"
    using f(2) by (auto simp: p_def split: if_splits)
  show ?thesis
  proof (cases "e < 0")
    case True
    then have e: "e = - int p" by (simp add: p_def)
    have "m \<le> 2 ^ p" using le True by simp
    then have le: "nat (a * m) \<le> nat a * 2 ^ p"
      using a m by (simp add: nat_le_iff nat_mult_distrib nat_power_eq)
    have lt: "nat a < 2 ^ 53" using a by (simp add: nat_less_iff)
    obtain n' q where fin: "f64_round (int (nat (a * m))) (- int p) = Fin (int n') (- int q)"
      and n': "n' \<le> nat a * 2 ^ q"
      using f64_round_scaled [OF le lt] by blast
    have "int n' div 2 ^ q \<le> a"
    proof -
      have "int n' \<le> int (nat a * 2 ^ q)" using n' by (simp only: of_nat_le_iff)
      then have "int n' \<le> a * 2 ^ q" using a by simp
      then have "int n' div 2 ^ q \<le> (a * 2 ^ q) div 2 ^ q" by (intro zdiv_mono1) simp_all
      then show ?thesis by simp
    qed
    moreover have "f64_mul (f64_of_int a) (Fin m e) = Fin (int n') (- int q)"
      using fin a m e by (simp add: f64_of_int_exact)
    ultimately show ?thesis by (auto simp: sgn_if pos_imp_zdiv_nonneg_iff)
  next
    case False
    then have "m * 2 ^ nat e \<le> 1" using le by (simp add: p_def)
    then have "m = 0 \<or> (m = 1 \<and> e = 0)" using pow2_scaled_le_1 [OF m] False by fastforce
    then show ?thesis
    proof
      assume "m = 0"
      then show ?thesis using a False
        by (simp add: f64_of_int_exact f64_round_def Let_def shift_right_even_def)
    next
      assume "m = 1 \<and> e = 0"
      then show ?thesis using a f64_of_int_exact [OF a] by (simp add: f64_of_int_def)
    qed
  qed
qed

section \<open>Digits\<close>

definition is_digit :: "char \<Rightarrow> bool" where
  "is_digit c = (48 \<le> (of_char c :: nat) \<and> (of_char c :: nat) \<le> 57)"

definition digit_val :: "char \<Rightarrow> nat" where
  "digit_val c = of_char c - 48"

fun dec_val :: "string \<Rightarrow> nat \<Rightarrow> nat" where
  "dec_val [] acc = acc"
| "dec_val (c # cs) acc = dec_val cs (10 * acc + digit_val c)"

text \<open>strconv.Atoi on a 64-bit platform: an optional sign and decimal digits.\<close>

definition Atoi :: "string \<Rightarrow> int option" where
  "Atoi s =
     (let neg = (s \<noteq> [] \<and> hd s = CHR ''-''); signed = (s \<noteq> [] \<and> (hd s = CHR ''-'' \<or> hd s = CHR ''+''));
          d = (if signed then tl s else s); v = int (dec_val d 0); r = (if neg then - v else v) in
      if d = [] \<or> \<not> list_all is_digit d then None
      else if - (2 ^ 63) \<le> r \<and> r < 2 ^ 63 then Some r else None)"

section \<open>strconv.ParseFloat\<close>

text \<open>Special values are recognised in any letter case, with an optional sign.\<close>

definition lower_char :: "char \<Rightarrow> char" where
  "lower_char c = (if 65 \<le> (of_char c :: nat) \<and> (of_char c :: nat) \<le> 90
     then char_of (of_char c + 32 :: nat) else c)"

definition special_float :: "string \<Rightarrow> float64 option" where
  "special_float s =
     (let l = map lower_char s in
      if l = ''nan'' then Some NaN
      else if l \<in> {''inf'', ''infinity'', ''+inf'', ''+infinity''} then Some PInf
      else if l \<in> {''-inf'', ''-infinity''} then Some NInf
      else None)"

text \<open>Hexadecimal digits and values.\<close>

definition hex_val :: "char \<Rightarrow> nat option" where
  "hex_val c = (let v = (of_char (lower_char c) :: nat) in
     if is_digit c then Some (digit_val c) else if 97 \<le> v \<and> v \<le> 102 then Some (v - 87) else None)"

text \<open>readFloat: the mantissa digits in the given base with at most one point. The result is the
  mantissa, the number of digits after the point, whether a digit was seen and the rest.\<close>

fun read_mantissa :: "nat \<Rightarrow> string \<Rightarrow> nat \<Rightarrow> nat \<Rightarrow> bool \<Rightarrow> bool \<Rightarrow> nat \<times> nat \<times> bool \<times> string" where
  "read_mantissa base [] m k dot sawd = (m, k, sawd, [])"
| "read_mantissa base (c # cs) m k dot sawd =
     (if c = CHR ''_'' \<and> base = 16 then read_mantissa base cs m k dot sawd
      else if c = CHR ''.'' \<and> \<not> dot then read_mantissa base cs m k True sawd
      else (case (if base = 16 then hex_val c else if is_digit c then Some (digit_val c) else None) of
              Some d \<Rightarrow> read_mantissa base cs (base * m + d) (if dot then Suc k else k) dot True
            | None \<Rightarrow> (m, k, sawd, c # cs)))"

text \<open>The exponent part after its letter: an optional sign and at least one digit.\<close>

definition read_exponent :: "string \<Rightarrow> int option" where
  "read_exponent s =
     (let neg = (s \<noteq> [] \<and> hd s = CHR ''-''); signed = (s \<noteq> [] \<and> (hd s = CHR ''-'' \<or> hd s = CHR ''+''));
          d = (if signed then tl s else s) in
      if d = [] \<or> \<not> list_all is_digit d then None
      else Some ((if neg then -1 else 1) * int (dec_val d 0)))"

text \<open>ParseFloat(s, 64); None is an error (a syntax error or a value out of range). Decimal
  literals, hexadecimal literals with their binary exponent, and the special values.
  Underscores, which are accepted only after a base prefix, are checked by position.\<close>

fun underscore_ok :: "string \<Rightarrow> bool \<Rightarrow> bool" where
  "underscore_ok [] prev_digit = True"
| "underscore_ok (c # cs) prev_digit =
     (if c = CHR ''_'' then prev_digit \<and> cs \<noteq> [] \<and> hex_val (hd cs) \<noteq> None \<and> underscore_ok cs False
      else underscore_ok cs (hex_val c \<noteq> None))"

definition finite_float :: "bool \<Rightarrow> float64 \<Rightarrow> float64 option" where
  "finite_float neg x =
     (case x of Fin m e \<Rightarrow> Some (if neg then f64_neg x else x) | _ \<Rightarrow> None)"

definition ParseFloat :: "string \<Rightarrow> float64 option" where
  "ParseFloat s =
     (case special_float s of
        Some x \<Rightarrow> Some x
      | None \<Rightarrow>
         (let neg = (s \<noteq> [] \<and> hd s = CHR ''-''); signed = (s \<noteq> [] \<and> (hd s = CHR ''-'' \<or> hd s = CHR ''+''));
              u = (if signed then tl s else s);
              hex = (2 < length u \<and> hd u = CHR ''0'' \<and> lower_char (u ! 1) = CHR ''x'');
              base = (if hex then 16 else 10);
              (m, k, sawd, rest) = read_mantissa base (if hex then drop 2 u else u) 0 0 False False in
          if \<not> sawd then None
          else if hex then
            (if rest = [] \<or> lower_char (hd rest) \<noteq> CHR ''p'' \<or> \<not> underscore_ok (drop 2 u) True then None
             else case read_exponent (tl rest) of
                    None \<Rightarrow> None
                  | Some e \<Rightarrow> finite_float neg (f64_round (int m) (e - 4 * int k)))
          else
            (case (if rest = [] then Some 0
                   else if lower_char (hd rest) = CHR ''e'' then read_exponent (tl rest) else None) of
               None \<Rightarrow> None
             | Some e \<Rightarrow>
                 (let x = e - int k in
                  finite_float neg
                    (if 0 \<le> x then f64_round (int m * 10 ^ nat x) 0
                     else f64_quot m (10 ^ nat (- x)) 0)))))"

section \<open>time.ParseDuration\<close>

text \<open>The units, in nanoseconds. (The micro sign spellings are not ASCII and are two-byte
  strings starting with 194 or 206.)\<close>

definition unit_ns :: "string \<Rightarrow> nat option" where
  "unit_ns u = map_of
     [(''ns'', 1), (''us'', 1000), ([char_of (194 :: nat), char_of (181 :: nat), CHR ''s''], 1000),
      ([char_of (206 :: nat), char_of (188 :: nat), CHR ''s''], 1000),
      (''ms'', 1000000), (''s'', 1000000000), (''m'', 60000000000), (''h'', 3600000000000)] u"

text \<open>leadingFraction: digits beyond the point, kept while they fit in 63 bits.\<close>

primrec leading_fraction :: "string \<Rightarrow> nat \<Rightarrow> nat \<Rightarrow> bool \<Rightarrow> nat \<times> nat" where
  "leading_fraction [] x scale over = (x, scale)"
| "leading_fraction (c # cs) x scale over =
     (if over then leading_fraction cs x scale over
      else if (2 ^ 63 - 1) div 10 < x then leading_fraction cs x scale True
      else let y = x * 10 + digit_val c in
           if 2 ^ 63 < y then leading_fraction cs x scale True
           else leading_fraction cs y (scale * 10) False)"

text \<open>One number with its unit: the value in nanoseconds and the rest of the string.\<close>

definition parse_component :: "string \<Rightarrow> (nat \<times> string) option" where
  "parse_component s =
     (if s = [] \<or> \<not> (hd s = CHR ''.'' \<or> is_digit (hd s)) then None
      else
       (let ipart = takeWhile is_digit s; s1 = dropWhile is_digit s;
            point = (s1 \<noteq> [] \<and> hd s1 = CHR ''.'');
            fpart = (if point then takeWhile is_digit (tl s1) else []);
            s2 = (if point then dropWhile is_digit (tl s1) else s1);
            v = dec_val ipart 0;
            (f, scale) = leading_fraction fpart 0 1 False;
            in_unit = (\<lambda>c. c \<noteq> CHR ''.'' \<and> \<not> is_digit c);
            u = takeWhile in_unit s2; s3 = dropWhile in_unit s2 in
        if 2 ^ 63 < v \<or> (ipart = [] \<and> fpart = []) then None
        else case unit_ns u of
               None \<Rightarrow> None
             | Some ns \<Rightarrow>
                 (if (2 ^ 63) div ns < v then None
                  else let frac = (if f = 0 then 0
                         else case f64_trunc (f64_mul (f64_of_int (int f)) (f64_quot ns scale 0)) of
                                Some i \<Rightarrow> nat i | None \<Rightarrow> 0)
                       in if 2 ^ 63 < v * ns + frac then None else Some (v * ns + frac, s3))))"

lemma parse_component_shorter: "parse_component s = Some (v, t) \<Longrightarrow> length t < length s"
proof -
  assume p: "parse_component s = Some (v, t)"
  let ?s1 = "dropWhile is_digit s"
  let ?s2 = "if ?s1 \<noteq> [] \<and> hd ?s1 = CHR ''.'' then dropWhile is_digit (tl ?s1) else ?s1"
  let ?in = "\<lambda>c. c \<noteq> CHR ''.'' \<and> \<not> is_digit c"
  have s: "s \<noteq> []" "hd s = CHR ''.'' \<or> is_digit (hd s)"
    and t: "t = dropWhile ?in ?s2"
    using p by (auto simp: parse_component_def Let_def split: if_splits option.splits prod.splits)
  have "length ?s2 \<le> length ?s1" by (auto intro: le_trans [OF length_dropWhile_le])
  moreover have "length ?s2 < length s"
  proof (cases "is_digit (hd s)")
    case True
    then have "length ?s1 < length s" using s by (cases s) (auto simp: le_imp_less_Suc length_dropWhile_le)
    then show ?thesis using calculation by linarith
  next
    case False
    then have "hd s = CHR ''.''" using s by simp
    moreover have "?s1 = s" using False s by (cases s) auto
    ultimately show ?thesis using s by (cases s) (auto simp: le_imp_less_Suc length_dropWhile_le)
  qed
  moreover have "length t \<le> length ?s2" unfolding t by (rule length_dropWhile_le)
  ultimately show ?thesis by linarith
qed

function parse_components :: "string \<Rightarrow> nat \<Rightarrow> nat option" where
  "parse_components s d =
     (if s = [] then Some d
      else case parse_component s of
             None \<Rightarrow> None
           | Some (v, t) \<Rightarrow> if 2 ^ 63 < d + v then None else parse_components t (d + v))"
  by pat_completeness auto
termination
  by (relation "measure (\<lambda>(s, d). length s)") (auto dest: parse_component_shorter)

declare parse_components.simps [simp del]

definition ParseDuration :: "string \<Rightarrow> int option" where
  "ParseDuration s =
     (let neg = (s \<noteq> [] \<and> hd s = CHR ''-''); signed = (s \<noteq> [] \<and> (hd s = CHR ''-'' \<or> hd s = CHR ''+''));
          u = (if signed then tl s else s) in
      if u = ''0'' then Some 0
      else if u = [] then None
      else case parse_components u 0 of
             None \<Rightarrow> None
           | Some d \<Rightarrow> if neg then Some (- int d)
                       else if 2 ^ 63 - 1 < d then None else Some (int d))"

lemma ParseDuration_range:
  assumes "ParseDuration s = Some d"
  shows "- (2 ^ 63) \<le> d" "d < 2 ^ 63"
proof -
  have bound: "parse_components t a = Some b \<Longrightarrow> a \<le> 2 ^ 63 \<Longrightarrow> b \<le> 2 ^ 63" for t a b
  proof (induction t a rule: parse_components.induct)
    case (1 t a)
    show ?case
    proof (cases "t = []")
      case True
      with 1 show ?thesis by (simp add: parse_components.simps [of "[]" a])
    next
      case False
      then obtain v t' where c: "parse_component t = Some (v, t')" "\<not> 2 ^ 63 < a + v"
        "parse_components t' (a + v) = Some b"
        using "1.prems" by (auto simp: parse_components.simps [of t a] split: option.splits if_splits)
      then show ?thesis using "1.IH" False by fastforce
    qed
  qed
  show "- (2 ^ 63) \<le> d" "d < 2 ^ 63"
    using assms bound [of _ 0]
    by (fastforce simp: ParseDuration_def Let_def split: if_splits option.splits)+
qed

section \<open>Time differences\<close>

text \<open>time.Time.Sub, and with it time.Since and time.Until: the difference saturates at the
  bounds of an int64.\<close>

definition time_sub :: "int \<Rightarrow> int \<Rightarrow> int" where
  "time_sub t u = max (- (2 ^ 63)) (min (2 ^ 63 - 1) (t - u))"

lemma time_sub_less_0 [simp]: "time_sub t u < 0 \<longleftrightarrow> t < u"
  by (auto simp: time_sub_def)

lemma time_sub_le_0 [simp]: "time_sub t u \<le> 0 \<longleftrightarrow> t \<le> u"
  by (auto simp: time_sub_def)

lemma time_sub_exact: "\<bar>t - u\<bar> < 2 ^ 63 \<Longrightarrow> time_sub t u = t - u"
  by (auto simp: time_sub_def)

section \<open>fmt.Sscan into an int32\<close>

text \<open>Leading space is skipped; then an optional sign, an optional base prefix (a plain leading
  zero means octal) and the longest run of digits and underscores. A token that
  strconv.ParseInt refuses, or a value that does not fit, is an error.\<close>

definition is_space :: "char \<Rightarrow> bool" where
  "is_space c = (of_char c \<in> {9, 10, 11, 12, 13, 32 :: nat})"

definition base_digit :: "nat \<Rightarrow> char \<Rightarrow> bool" where
  "base_digit b c = (case hex_val c of None \<Rightarrow> False | Some d \<Rightarrow> d < b)"

fun base_val :: "nat \<Rightarrow> string \<Rightarrow> nat \<Rightarrow> nat" where
  "base_val b [] acc = acc"
| "base_val b (c # cs) acc = base_val b cs (b * acc + (case hex_val c of None \<Rightarrow> 0 | Some d \<Rightarrow> d))"

definition scan_prefix :: "string \<Rightarrow> nat \<times> bool \<times> string" where
  "scan_prefix s =
     (if s = [] \<or> hd s \<noteq> CHR ''0'' then (10, False, s)
      else case tl s of
        [] \<Rightarrow> (8, True, [])
      | c # t \<Rightarrow> if lower_char c = CHR ''b'' then (2, False, t)
                 else if lower_char c = CHR ''o'' then (8, False, t)
                 else if lower_char c = CHR ''x'' then (16, False, t)
                 else (8, True, c # t))"

definition sscan_int :: "nat \<Rightarrow> string \<Rightarrow> int option" where
  "sscan_int bits s =
     (let s0 = dropWhile is_space s;
          neg = (s0 \<noteq> [] \<and> hd s0 = CHR ''-'');
          signed = (s0 \<noteq> [] \<and> (hd s0 = CHR ''-'' \<or> hd s0 = CHR ''+''));
          s1 = (if signed then tl s0 else s0) in
      case scan_prefix s1 of (b, zero, s2) \<Rightarrow>
      let tok = takeWhile (\<lambda>c. c = CHR ''_'' \<or> base_digit b c) s2;
          digits = filter (\<lambda>c. c \<noteq> CHR ''_'') tok;
          v = int (base_val b digits 0);
          r = (if neg then - v else v) in
      if digits = [] \<and> (\<not> zero \<or> tok \<noteq> []) \<or> \<not> underscore_ok tok (b \<noteq> 10 \<or> zero) then None
      else if - (2 ^ bits) \<le> r \<and> r < 2 ^ bits then Some r else None)"

abbreviation sscan_int32 :: "string \<Rightarrow> int option" where
  "sscan_int32 \<equiv> sscan_int 31"

text \<open>Scanning what fmt.Sprintf printed gives the number back.\<close>

lemma char_digit [simp]:
  fixes d :: nat
  assumes "d < 10"
  shows "hex_val (char_of (48 + d)) = Some d" "char_of (48 + d) \<noteq> CHR ''_''"
    "is_digit (char_of (48 + d))" "digit_val (char_of (48 + d)) = d"
    "\<not> is_space (char_of (48 + d))" "char_of (48 + d) \<noteq> CHR ''-''" "char_of (48 + d) \<noteq> CHR ''+''"
    "char_of (48 + d) = CHR ''0'' \<longleftrightarrow> d = 0"
proof -
  have "of_char (char_of (48 + d) :: char) = 48 + d" using assms by simp
  then show "hex_val (char_of (48 + d)) = Some d" "char_of (48 + d) \<noteq> CHR ''_''"
    "is_digit (char_of (48 + d))" "digit_val (char_of (48 + d)) = d"
    "\<not> is_space (char_of (48 + d))" "char_of (48 + d) \<noteq> CHR ''-''" "char_of (48 + d) \<noteq> CHR ''+''"
    "char_of (48 + d) = CHR ''0'' \<longleftrightarrow> d = 0"
    using assms by (auto simp: hex_val_def is_digit_def digit_val_def is_space_def Let_def
        simp flip: of_char_eq_iff [where 'a = nat])
qed

lemma itoa_digits: "list_all (\<lambda>c. \<exists>d<10. c = char_of (48 + d :: nat)) (itoa n)"
proof (induction n rule: itoa.induct)
  case (1 n)
  have "n mod 10 < 10" by simp
  then show ?case using 1 by (subst itoa.simps) (auto simp del: mod_less_divisor)
qed

lemma base_val_append: "base_val b (xs @ ys) acc = base_val b ys (base_val b xs acc)"
  by (induction xs arbitrary: acc) simp_all

lemma base_val_itoa: "base_val 10 (itoa n) 0 = n"
proof (induction n rule: itoa.induct)
  case (1 n)
  then show ?case by (subst itoa.simps) (simp add: base_val_append)
qed

lemma itoa_hd: "\<exists>d t. itoa n = char_of (48 + d :: nat) # t \<and> d < 10 \<and> (d = 0 \<longrightarrow> n = 0)"
proof (induction n rule: itoa.induct)
  case (1 n)
  show ?case
  proof (cases "n < 10")
    case True
    then have "itoa n = [char_of (48 + n)]" by (subst itoa.simps) simp
    then show ?thesis using True by blast
  next
    case False
    then obtain d t where "itoa (n div 10) = char_of (48 + d :: nat) # t" "d < 10" "d = 0 \<longrightarrow> n div 10 = 0"
      using 1 by blast
    moreover have "itoa n = itoa (n div 10) @ [char_of (48 + n mod 10)]"
      using False by (subst itoa.simps) simp
    ultimately show ?thesis using False by (metis append_Cons div_eq_0_iff zero_neq_numeral)
  qed
qed

lemma underscore_ok_digits: "\<forall>c\<in>set s. c \<noteq> CHR ''_'' \<Longrightarrow> underscore_ok s b"
  by (induction s arbitrary: b) simp_all

lemma sscan_itoa:
  assumes "n < 2 ^ 31"
  shows "sscan_int32 (itoa n) = Some (int n)"
proof (cases "n = 0")
  case True
  then show ?thesis by (simp add: itoa.simps [of 0]) code_simp
next
  case False
  obtain d t where hd: "itoa n = char_of (48 + d :: nat) # t" "d < 10" "d \<noteq> 0"
    using itoa_hd [of n] False by blast
  have all: "\<forall>c\<in>set (itoa n). c \<noteq> CHR ''_'' \<and> base_digit 10 c"
  proof
    fix c assume "c \<in> set (itoa n)"
    then obtain d :: nat where "d < 10" "c = char_of (48 + d)"
      using itoa_digits [of n] by (auto simp: list_all_iff)
    then show "c \<noteq> CHR ''_'' \<and> base_digit 10 c" by (simp only: char_digit base_digit_def) simp
  qed
  have nonempty: "itoa n \<noteq> []" using hd(1) by simp
  have space: "dropWhile is_space (itoa n) = itoa n" using hd by simp
  have sign: "hd (itoa n) \<noteq> CHR ''-''" "hd (itoa n) \<noteq> CHR ''+''" using hd by simp_all
  have prefix: "scan_prefix (itoa n) = (10, False, itoa n)" using hd by (simp add: scan_prefix_def)
  have tok: "takeWhile (\<lambda>c. c = CHR ''_'' \<or> base_digit 10 c) (itoa n) = itoa n"
    using all by (simp add: takeWhile_eq_all_conv)
  have filt: "filter (\<lambda>c. c \<noteq> CHR ''_'') (itoa n) = itoa n"
    using all by (simp add: filter_id_conv)
  have under: "underscore_ok (itoa n) b" for b using all underscore_ok_digits by blast
  show ?thesis
    unfolding sscan_int_def space Let_def
    using assms nonempty sign by (simp add: prefix tok filt under base_val_itoa)
qed

end
