(* ===== verification/ImpVM_Base.thy ===== *)
theory ImpVM_Base
  imports Imp_Types Go_Std
begin

text \<open>
  What the ImpVM controller's parts share: the writes it does on an ImpVM, the API server that
  answers them, the status conditions (impvm\_conditions.go), the reference check of the spec
  (impvm\_spec\_validation.go) and the HTTP health check (impvm\_health.go).

  The API server is a parameter. Its answer to a patch is the object the controller goes on
  with. The locale \<open>quiet_api\<close> states what the documentation of the status subresource promises
  while nobody else writes the object.
\<close>

section \<open>Writes\<close>

datatype event_type = EventNormal | EventWarning

text \<open>\<open>PatchVM base obj\<close> is r.Patch(ctx, obj, client.MergeFrom(base)), \<open>PatchVMStatus base obj\<close>
  the same on the status subresource. The text of the Restarting event holds a formatted
  duration; that event has its numbers instead.\<close>

datatype vm_effect =
    PatchVM ImpVM ImpVM
  | PatchVMStatus ImpVM ImpVM
  | DeleteVM ImpVM
  | VMEvent event_type string string
  | RestartingEvent int int int

type_synonym vm_server = "(vm_effect, ImpVM) server"

type_synonym 'a vm_io = "(vm_effect, 'a) io"

text \<open>A response is decoded into the object that was sent: entries of a map that the response
  holds replace the local ones, other local entries stay.\<close>

definition decode_into :: "strmap \<Rightarrow> strmap \<Rightarrow> strmap" where
  "decode_into local server = server @ filter (\<lambda>kv. \<not> has_key server (fst kv)) local"

lemma has_key_fst: "kv \<in> set m \<Longrightarrow> has_key m (fst kv)"
  by (cases kv) (simp add: has_key_def map_of_eq_None_iff, force)

lemma decode_into_same [simp]: "decode_into m m = m"
  using has_key_fst by (auto simp: decode_into_def filter_empty_conv)

lemma str_get_decode_into:
  "has_key server k \<Longrightarrow> str_get (decode_into local server) k = str_get server k"
  by (auto simp: decode_into_def has_key_def str_get_def map_add_def split: option.splits)

text \<open>The status subresource ignores every change outside the status, so the response to a
  status patch carries the annotations the server has.\<close>

definition status_answer :: "ImpVM \<Rightarrow> ImpVM \<Rightarrow> ImpVM" where
  "status_answer base obj =
     upd_meta (\<lambda>m. m\<lparr>om_Annotations :=
       decode_into (om_Annotations (vm_Meta obj)) (om_Annotations (vm_Meta base))\<rparr>) obj"

lemma status_answer_sel [simp]:
  "vm_Spec (status_answer b obj) = vm_Spec obj" "vm_Status (status_answer b obj) = vm_Status obj"
  by (simp_all add: status_answer_def)

lemma status_answer_same [simp]:
  assumes "vm_Meta obj = vm_Meta b"
  shows "status_answer b obj = obj"
  using assms by (simp add: status_answer_def upd_meta_def)

locale quiet_api =
  fixes srv :: vm_server
  assumes patch_answer: "srv tr (PatchVM b obj) = Inr r \<Longrightarrow> r = obj"
    and status_patch_answer: "srv tr (PatchVMStatus b obj) = Inr r \<Longrightarrow> r = status_answer b obj"
begin

lemma io_ok_patch: "P (PatchVM b obj) \<Longrightarrow> Q obj \<Longrightarrow> io_ok P Q (send srv (PatchVM b obj))"
  by (rule io_ok_send) (auto dest: patch_answer)

lemma io_ok_patch_status:
  "P (PatchVMStatus b obj) \<Longrightarrow> Q (status_answer b obj) \<Longrightarrow> io_ok P Q (send srv (PatchVMStatus b obj))"
  by (rule io_ok_send) (auto dest: status_patch_answer)

end

text \<open>A server that accepts everything and whose object nobody else writes.\<close>

fun quiet_server :: vm_server where
  "quiet_server tr (PatchVM b obj) = Inr obj"
| "quiet_server tr (PatchVMStatus b obj) = Inr (status_answer b obj)"
| "quiet_server tr (DeleteVM vm) = Inr vm"
| "quiet_server tr _ = Inr zero_vm"

interpretation quiet: quiet_api quiet_server
  by unfold_locales auto

section \<open>Conditions (impvm\_conditions.go)\<close>

definition ConditionScheduled :: string where "ConditionScheduled = ''Scheduled''"
definition ConditionNodeHealthy :: string where "ConditionNodeHealthy = ''NodeHealthy''"
definition ConditionReady :: string where "ConditionReady = ''Ready''"

definition setCondition :: "int \<Rightarrow> string \<Rightarrow> cond_status \<Rightarrow> string \<Rightarrow> string \<Rightarrow> ImpVM \<Rightarrow> ImpVM" where
  "setCondition now condType status reason message = upd_status (\<lambda>s. s\<lparr>vt_Conditions :=
     SetStatusCondition \<lparr>c_Type = condType, c_Status = status, c_Reason = reason,
       c_Message = message, c_ObservedGeneration = 0, c_LastTransitionTime = now\<rparr>
       (vt_Conditions s)\<rparr>)"

definition setScheduled :: "int \<Rightarrow> string \<Rightarrow> ImpVM \<Rightarrow> ImpVM" where
  "setScheduled now nodeName = setCondition now ConditionScheduled ConditionTrue ''NodeAssigned''
     (''VM scheduled to node '' @ nodeName)"

definition setUnscheduled :: "int \<Rightarrow> ImpVM \<Rightarrow> ImpVM" where
  "setUnscheduled now = setCondition now ConditionScheduled ConditionFalse ''NoNodeAvailable''
     ''No eligible node with available capacity''"

definition setNodeHealthy :: "int \<Rightarrow> ImpVM \<Rightarrow> ImpVM" where
  "setNodeHealthy now = setCondition now ConditionNodeHealthy ConditionTrue ''NodeReady''
     ''Assigned node is Ready''"

definition setNodeUnhealthy :: "int \<Rightarrow> string \<Rightarrow> ImpVM \<Rightarrow> ImpVM" where
  "setNodeUnhealthy now reason =
     setCondition now ConditionNodeHealthy ConditionFalse ''NodeNotReady'' reason"

definition setReadyFromPhase :: "int \<Rightarrow> ImpVM \<Rightarrow> ImpVM" where
  "setReadyFromPhase now vm =
     (case vm_phase vm of
        VMPhaseRunning \<Rightarrow> setCondition now ConditionReady ConditionTrue ''Running'' ''VM is running'' vm
      | VMPhaseSucceeded \<Rightarrow>
          setCondition now ConditionReady ConditionFalse ''Completed'' ''VM completed successfully'' vm
      | VMPhaseFailed \<Rightarrow> setCondition now ConditionReady ConditionFalse ''Failed'' ''VM failed'' vm
      | _ \<Rightarrow> setCondition now ConditionReady ConditionUnknown ''Waiting'' ''Waiting for VM to start'' vm)"

text \<open>The conditions are the only part of the object these operations touch.\<close>

definition same_but_conditions :: "ImpVM \<Rightarrow> ImpVM \<Rightarrow> bool" where
  "same_but_conditions vm vm' \<longleftrightarrow> vm_Meta vm' = vm_Meta vm \<and> vm_Spec vm' = vm_Spec vm \<and>
     (\<exists>cs. vm_Status vm' = (vm_Status vm)\<lparr>vt_Conditions := cs\<rparr>)"

named_theorems cond_frame \<open>what the condition setters leave alone\<close>

lemma setCondition_sel [simp, cond_frame]:
  "vm_Meta (setCondition now t st r m vm) = vm_Meta vm"
  "vm_Spec (setCondition now t st r m vm) = vm_Spec vm"
  "vt_Phase (vm_Status (setCondition now t st r m vm)) = vm_phase vm"
  "vt_NodeName (vm_Status (setCondition now t st r m vm)) = vt_NodeName (vm_Status vm)"
  "vt_RestartCount (vm_Status (setCondition now t st r m vm)) = vt_RestartCount (vm_Status vm)"
  "vt_IP (vm_Status (setCondition now t st r m vm)) = vt_IP (vm_Status vm)"
  "vt_RunningAt (vm_Status (setCondition now t st r m vm)) = vt_RunningAt (vm_Status vm)"
  "vt_ScheduledAt (vm_Status (setCondition now t st r m vm)) = vt_ScheduledAt (vm_Status vm)"
  "vt_SuspendSnapshotPath (vm_Status (setCondition now t st r m vm)) = vt_SuspendSnapshotPath (vm_Status vm)"
  "vt_SuspendedAt (vm_Status (setCondition now t st r m vm)) = vt_SuspendedAt (vm_Status vm)"
  by (simp_all add: setCondition_def)

lemma same_but_conditions_refl [simp, intro]: "same_but_conditions vm vm"
  unfolding same_but_conditions_def by (metis ImpVMStatus.surjective ImpVMStatus.update_convs(19))

lemma setCondition_same [intro]:
  "same_but_conditions vm vm' \<Longrightarrow> same_but_conditions vm (setCondition now t st r m vm')"
  by (auto simp: same_but_conditions_def setCondition_def)

lemmas condition_setters = setScheduled_def setUnscheduled_def setNodeHealthy_def
  setNodeUnhealthy_def

lemma setReadyFromPhase_cases:
  obtains st r m where "setReadyFromPhase now vm = setCondition now ConditionReady st r m vm"
  by (cases "vm_phase vm") (auto simp: setReadyFromPhase_def)

lemma setReadyFromPhase_same [intro]:
  "same_but_conditions vm vm' \<Longrightarrow> same_but_conditions vm (setReadyFromPhase now vm')"
  by (rule setReadyFromPhase_cases [of now vm']) auto

section \<open>Reference check of the spec (impvm\_spec\_validation.go)\<close>

definition validateImpVMSpecRefs :: "ImpVM \<Rightarrow> string option" where
  "validateImpVMSpecRefs vm =
     (let hasTemplate = vs_TemplateRef (vm_Spec vm) \<noteq> None;
          hasClass = vs_ClassRef (vm_Spec vm) \<noteq> None in
      if \<not> hasTemplate \<and> \<not> hasClass \<and> vs_Image (vm_Spec vm) = '''' then None
      else if hasTemplate \<and> hasClass
      then Some ''invalid spec: classRef and templateRef are mutually exclusive''
      else if \<not> hasTemplate \<and> \<not> hasClass
      then Some ''invalid spec: exactly one of classRef or templateRef must be set''
      else None)"

definition EventReasonSpecInvalid :: string where
  "EventReasonSpecInvalid = ''SpecInvalid''"

definition hasSpecInvalidCondition :: "ImpVM \<Rightarrow> string \<Rightarrow> bool" where
  "hasSpecInvalidCondition vm msg =
     (case FindStatusCondition (vt_Conditions (vm_Status vm)) ConditionReady of
        None \<Rightarrow> False
      | Some ready \<Rightarrow> c_Status ready = ConditionFalse \<and> c_Reason ready = EventReasonSpecInvalid \<and>
          c_Message ready = msg)"

lemma hasSpecInvalid_set [simp]:
  "hasSpecInvalidCondition
     (setCondition now ConditionReady ConditionFalse EventReasonSpecInvalid msg vm) msg"
  using Find_Set_same [of "\<lparr>c_Type = ConditionReady, c_Status = ConditionFalse,
      c_Reason = EventReasonSpecInvalid, c_Message = msg, c_ObservedGeneration = 0,
      c_LastTransitionTime = now\<rparr>" "vt_Conditions (vm_Status vm)"]
  by (auto simp: hasSpecInvalidCondition_def setCondition_def)

section \<open>HTTP health check (impvm\_health.go)\<close>

definition resolveHTTPCheck :: "ImpVM \<Rightarrow> HTTPCheckSpec option \<Rightarrow> HTTPCheckSpec option" where
  "resolveHTTPCheck vm globalDefault =
     (case Option.bind (vs_Probes (vm_Spec vm)) ps_HTTPCheck of
        Some hc \<Rightarrow> if hc_Enabled hc then Some hc else None
      | None \<Rightarrow> (case globalDefault of
                  Some g \<Rightarrow> if hc_Enabled g then Some g else None
                | None \<Rightarrow> None))"

text \<open>The HTTP client is a parameter: for a URL the text of an error or the status code.\<close>

type_synonym http_client = "string \<Rightarrow> string + int"

definition doHTTPCheck :: "http_client \<Rightarrow> string \<Rightarrow> HTTPCheckSpec \<Rightarrow> bool \<times> string" where
  "doHTTPCheck http ip spec =
     (let path = (if hc_Path spec = '''' then ''/healthz'' else hc_Path spec);
          url = ''http://'' @ ip @ '':'' @ itoa_int (hc_Port spec) @ path in
      case http url of
        Inl err \<Rightarrow> (False, err)
      | Inr code \<Rightarrow> if 200 \<le> code \<and> code < 300 then (True, ''OK'')
                    else (False, ''HTTP '' @ itoa_int code))"

definition annotationHTTPFailures :: string where
  "annotationHTTPFailures = ''imp/httpcheck-failures''"

definition set_annotation :: "string \<Rightarrow> string \<Rightarrow> ImpVM \<Rightarrow> ImpVM" where
  "set_annotation k v = upd_meta (\<lambda>m. m\<lparr>om_Annotations := AList.update k v (om_Annotations m)\<rparr>)"

definition get_annotation :: "ImpVM \<Rightarrow> string \<Rightarrow> string" where
  "get_annotation vm k = str_get (om_Annotations (vm_Meta vm)) k"

lemma set_annotation_sel [simp]:
  "vm_Spec (set_annotation k v vm) = vm_Spec vm" "vm_Status (set_annotation k v vm) = vm_Status vm"
  "get_annotation (set_annotation k v vm) k' = (if k' = k then v else get_annotation vm k')"
  by (simp_all add: set_annotation_def get_annotation_def)

lemma get_annotation_setCondition [simp]:
  "get_annotation (setCondition now t st r m vm) k = get_annotation vm k"
  by (simp add: get_annotation_def)

lemma get_annotation_setReady [simp]:
  "get_annotation (setReadyFromPhase now vm) k = get_annotation vm k"
  by (rule setReadyFromPhase_cases [of now vm]) simp

text \<open>The result tells whether the annotations were changed. A scan error leaves the counter
  at zero.\<close>

definition applyHTTPCheck :: "http_client \<Rightarrow> int \<Rightarrow> ImpVM \<Rightarrow> HTTPCheckSpec \<Rightarrow> (bool \<times> ImpVM) vm_io" where
  "applyHTTPCheck http now vm spec =
     (if vt_IP (vm_Status vm) = '''' then ret (False, setReadyFromPhase now vm)
      else case doHTTPCheck http (vt_IP (vm_Status vm)) spec of (healthy, msg) \<Rightarrow>
        let threshold = (if hc_FailureThreshold spec = 0 then 3 else hc_FailureThreshold spec);
            prev = get_annotation vm annotationHTTPFailures in
        if healthy then
          and_then (when_io (prev \<noteq> '''' \<and> prev \<noteq> ''0'')
              (emit (VMEvent EventNormal ''HealthCheckRecovered'' ''HTTP probe passing again'')))
            (\<lambda>_. ret (prev \<noteq> ''0'',
               setCondition now ConditionReady ConditionTrue ''Running''
                 ''VM is running and HTTP probe passing''
                 (set_annotation annotationHTTPFailures ''0'' vm)))
        else
          let failures = wrap32 ((case sscan_int32 prev of None \<Rightarrow> 0 | Some n \<Rightarrow> n) + 1);
              vm1 = set_annotation annotationHTTPFailures (itoa_int failures) vm in
          if threshold \<le> failures then
            and_then (emit (VMEvent EventWarning ''HealthCheckFailed''
                (''HTTP probe failed '' @ itoa_int failures @ '' consecutive times: '' @ msg)))
              (\<lambda>_. ret (True, setCondition now ConditionReady ConditionFalse ''HealthCheckFailed'' msg vm1))
          else ret (True, setReadyFromPhase now vm1))"

end
