(* ===== verification/Restart.thy ===== *)
theory Restart
  imports ImpVM_Base
begin

text \<open>
  The restart policy of a failed VM (restart.go): backoff, exhaustion, cool-down and the manual
  reset. \<open>retry_step\<close> is the abstract retry automaton; every status write of \<open>handleFailed\<close> is
  one of its steps, so its invariants carry over to the code. One reading of the clock serves a
  whole run.
\<close>

section \<open>Budget and backoff\<close>

definition effectiveMaxRetries :: "RestartPolicy option \<Rightarrow> int" where
  "effectiveMaxRetries policy =
     (case policy of
        None \<Rightarrow> 0
      | Some p \<Rightarrow> if rb_MaxRetries (rp_Backoff p) = 0 then 5 else rb_MaxRetries (rp_Backoff p))"

definition shouldRestart :: "RestartPolicy option \<Rightarrow> int \<Rightarrow> bool" where
  "shouldRestart policy restartCount =
     (case policy of None \<Rightarrow> False | Some p \<Rightarrow> restartCount < effectiveMaxRetries policy)"

definition parseDurationOrDefault :: "string \<Rightarrow> int \<Rightarrow> int" where
  "parseDurationOrDefault s def =
     (if s = '''' then def else case ParseDuration s of None \<Rightarrow> def | Some d \<Rightarrow> d)"

text \<open>The loop of computeBackoffDelay, by the number of iterations left; int64 doubling wraps.\<close>

primrec backoff_loop :: "int \<Rightarrow> nat \<Rightarrow> int \<Rightarrow> int" where
  "backoff_loop max_delay 0 delay = delay"
| "backoff_loop max_delay (Suc n) delay =
     (let delay' = wrap64 (delay * 2) in
      if max_delay < delay' then max_delay else backoff_loop max_delay n delay')"

definition initialDelay :: "RestartBackoff \<Rightarrow> int" where
  "initialDelay backoff = parseDurationOrDefault (rb_InitialDelay backoff) (seconds 10)"

definition maxDelay :: "RestartBackoff \<Rightarrow> int" where
  "maxDelay backoff = parseDurationOrDefault (rb_MaxDelay backoff) (seconds 300)"

definition computeBackoffDelay :: "RestartBackoff \<Rightarrow> int \<Rightarrow> int" where
  "computeBackoffDelay backoff restartCount =
     backoff_loop (maxDelay backoff) (nat restartCount) (initialDelay backoff)"

definition shouldCoolDownReset :: "int \<Rightarrow> string \<Rightarrow> int option \<Rightarrow> bool" where
  "shouldCoolDownReset now coolDownPeriod exhaustedAt =
     (case exhaustedAt of
        None \<Rightarrow> False
      | Some t \<Rightarrow> parseDurationOrDefault coolDownPeriod (seconds 3600) \<le> time_sub now t)"

section \<open>handleFailed and handleResetRetries\<close>

definition clear_retries :: "ImpVM \<Rightarrow> ImpVM" where
  "clear_retries = upd_status (\<lambda>s. s\<lparr>vt_RestartCount := 0, vt_NextRetryAfter := None,
     vt_ExhaustedAt := None, vt_Phase := VMPhasePending\<rparr>)"

definition handleExhausted :: "vm_server \<Rightarrow> int \<Rightarrow> ImpVM \<Rightarrow> RestartPolicy \<Rightarrow> ctrl_result vm_io" where
  "handleExhausted srv now vm policy =
     (if rp_OnExhaustion policy = ''manual-reset'' \<and> vm_phase vm \<noteq> VMPhaseRetryExhausted then
        and_then (send srv (PatchVMStatus vm
            (upd_status (\<lambda>s. s\<lparr>vt_Phase := VMPhaseRetryExhausted, vt_ExhaustedAt := Some now\<rparr>) vm)))
          (\<lambda>_. ret no_requeue)
      else if rp_OnExhaustion policy = ''cool-down'' then
        if shouldCoolDownReset now (rp_CoolDownPeriod policy) (vt_ExhaustedAt (vm_Status vm)) then
          and_then (send srv (PatchVMStatus vm (clear_retries vm))) (\<lambda>_. ret no_requeue)
        else
          and_then
            (if vt_ExhaustedAt (vm_Status vm) = None
             then send srv (PatchVMStatus vm (upd_status (\<lambda>s. s\<lparr>vt_ExhaustedAt := Some now\<rparr>) vm))
             else ret vm)
            (\<lambda>vm. case vt_ExhaustedAt (vm_Status vm) of
               None \<Rightarrow> fail (Panic ''nil pointer dereference'')
             | Some t \<Rightarrow>
                 let period = parseDurationOrDefault (rp_CoolDownPeriod policy) (seconds 3600);
                     remaining = wrap64 (period - time_sub now t) in
                 ret (requeue_after (if remaining < 0 then 0 else remaining)))
      else ret no_requeue)"

definition handleFailed :: "vm_server \<Rightarrow> int \<Rightarrow> ImpVM \<Rightarrow> ctrl_result vm_io" where
  "handleFailed srv now vm =
     (let policy = vs_RestartPolicy (vm_Spec vm); st = vm_Status vm in
      case policy of
        None \<Rightarrow> ret no_requeue
      | Some p \<Rightarrow>
          if \<not> shouldRestart policy (vt_RestartCount st) then handleExhausted srv now vm p
          else
            let delay = computeBackoffDelay (rp_Backoff p) (vt_RestartCount st);
                nextRetry = now + delay;
                wait = (case vt_NextRetryAfter st of None \<Rightarrow> False | Some t \<Rightarrow> now < t) in
            if wait then
              ret (requeue_after (case vt_NextRetryAfter st of None \<Rightarrow> 0 | Some t \<Rightarrow> time_sub t now))
            else
              let phase = (if rp_Mode p = ''in-place'' \<or> rp_Mode p = '''' then VMPhaseScheduled
                           else VMPhasePending);
                  vm1 = upd_status (\<lambda>s. s\<lparr>vt_Phase := phase,
                          vt_RestartCount := wrap32 (vt_RestartCount s + 1),
                          vt_NextRetryAfter := Some nextRetry\<rparr>) vm in
              and_then (send srv (PatchVMStatus vm vm1)) (\<lambda>vm2.
              and_then (if rp_Mode p = ''reschedule'' then send srv (PatchVM vm2 (set_node '''' vm2))
                        else ret vm2) (\<lambda>vm3.
              and_then (emit (RestartingEvent (vt_RestartCount (vm_Status vm3))
                         (effectiveMaxRetries policy) delay)) (\<lambda>_.
              ret (requeue_after delay)))))"

definition AnnotationResetRetries :: string where
  "AnnotationResetRetries = ''imp/reset-retries''"

definition del_annotation :: "string \<Rightarrow> ImpVM \<Rightarrow> ImpVM" where
  "del_annotation k = upd_meta (\<lambda>m. m\<lparr>om_Annotations := AList.delete k (om_Annotations m)\<rparr>)"

definition handleResetRetries :: "vm_server \<Rightarrow> ImpVM \<Rightarrow> ctrl_result vm_io" where
  "handleResetRetries srv vm =
     (let vm1 = del_annotation AnnotationResetRetries vm in
      if vm_phase vm = VMPhaseFailed \<or> vm_phase vm = VMPhaseRetryExhausted then
        and_then (send srv (PatchVM vm vm1)) (\<lambda>vm2.
        and_then (send srv (PatchVMStatus vm2 (clear_retries vm2))) (\<lambda>_. ret no_requeue))
      else and_then (send srv (PatchVM vm vm1)) (\<lambda>_. ret no_requeue))"

section \<open>Backoff\<close>

lemma backoff_loop_min:
  assumes "0 \<le> d" and "d < 2 ^ 62" and "m < 2 ^ 62"
  shows "backoff_loop m (Suc n) d = min (d * 2 ^ Suc n) m"
  using assms
proof (induction n arbitrary: d)
  case 0
  then have "wrap64 (d * 2) = d * 2" by (intro wrap64_id) auto
  then show ?case by (simp add: Let_def)
next
  case (Suc n)
  then have wrap: "wrap64 (d * 2) = d * 2" by (intro wrap64_id) auto
  show ?case
  proof (cases "m < d * 2")
    case True
    have "d * 2 * 1 \<le> d * 2 * 2 ^ Suc n"
      using Suc.prems by (intro mult_left_mono) (auto simp del: power_Suc)
    then show ?thesis
      using True by (simp add: wrap Let_def min_absorb2 mult.commute mult.left_commute)
  next
    case False
    then have "backoff_loop m (Suc (Suc n)) d = backoff_loop m (Suc n) (d * 2)"
      by (simp add: wrap Let_def)
    also have "\<dots> = min (d * 2 * 2 ^ Suc n) m"
      using Suc.IH [of "d * 2"] Suc.prems False by simp
    finally show ?thesis by (simp add: mult.assoc)
  qed
qed

text \<open>C1. The delay before a restart doubles with every restart already made and is capped: for
  a configured pair of delays below 2^62 ns (146 years) it is
  min (initialDelay * 2^restartCount) maxDelay after at least one restart, and the initial delay
  itself, uncapped, before the first.\<close>

theorem backoff_delay:
  assumes "0 \<le> initialDelay b" and "initialDelay b < 2 ^ 62" and "maxDelay b < 2 ^ 62"
  shows "computeBackoffDelay b n =
    (if n \<le> 0 then initialDelay b else min (initialDelay b * 2 ^ nat n) (maxDelay b))"
proof (cases "nat n")
  case 0
  then show ?thesis by (simp add: computeBackoffDelay_def)
next
  case (Suc k)
  then show ?thesis
    using backoff_loop_min [OF assms, of k] by (auto simp: computeBackoffDelay_def)
qed

theorem backoff_delay_witness:
  "computeBackoffDelay \<lparr>rb_MaxRetries = 5, rb_InitialDelay = '''', rb_MaxDelay = ''''\<rparr> 3 = seconds 80 \<and>
   computeBackoffDelay \<lparr>rb_MaxRetries = 5, rb_InitialDelay = '''', rb_MaxDelay = ''''\<rparr> 6 = seconds 300"
proof -
  let ?b = "\<lparr>rb_MaxRetries = 5, rb_InitialDelay = '''', rb_MaxDelay = ''''\<rparr>"
  have "initialDelay ?b = seconds 10" "maxDelay ?b = seconds 300"
    by (simp_all add: initialDelay_def maxDelay_def parseDurationOrDefault_def)
  then show ?thesis
    using backoff_delay [of ?b 3] backoff_delay [of ?b 6] by (simp add: seconds_def)
qed

section \<open>The retry automaton\<close>

text \<open>What the retry logic keeps in a VM's status: the phase, the number of restarts made, the
  time before which no restart may happen, and the time the budget ran out.\<close>

record retry_state =
  rs_phase :: VMPhase
  rs_count :: int
  rs_next :: "int option"
  rs_exhausted :: "int option"

definition retry_view :: "ImpVM \<Rightarrow> retry_state" where
  "retry_view vm = \<lparr>rs_phase = vm_phase vm, rs_count = vt_RestartCount (vm_Status vm),
     rs_next = vt_NextRetryAfter (vm_Status vm), rs_exhausted = vt_ExhaustedAt (vm_Status vm)\<rparr>"

inductive retry_step :: "RestartPolicy \<Rightarrow> int \<Rightarrow> retry_state \<Rightarrow> retry_state \<Rightarrow> bool"
  for p :: RestartPolicy and now :: int where
  restart: "rs_count s < effectiveMaxRetries (Some p) \<Longrightarrow>
     (\<forall>t. rs_next s = Some t \<longrightarrow> t \<le> now) \<Longrightarrow> ph \<in> {VMPhaseScheduled, VMPhasePending} \<Longrightarrow>
     retry_step p now s (s\<lparr>rs_phase := ph, rs_count := rs_count s + 1,
       rs_next := Some (now + computeBackoffDelay (rp_Backoff p) (rs_count s))\<rparr>)"
| exhaust: "effectiveMaxRetries (Some p) \<le> rs_count s \<Longrightarrow> rp_OnExhaustion p = ''manual-reset'' \<Longrightarrow>
     retry_step p now s (s\<lparr>rs_phase := VMPhaseRetryExhausted, rs_exhausted := Some now\<rparr>)"
| cool: "effectiveMaxRetries (Some p) \<le> rs_count s \<Longrightarrow> rp_OnExhaustion p = ''cool-down'' \<Longrightarrow>
     rs_exhausted s = None \<Longrightarrow> retry_step p now s (s\<lparr>rs_exhausted := Some now\<rparr>)"
| cooled: "effectiveMaxRetries (Some p) \<le> rs_count s \<Longrightarrow> rp_OnExhaustion p = ''cool-down'' \<Longrightarrow>
     shouldCoolDownReset now (rp_CoolDownPeriod p) (rs_exhausted s) \<Longrightarrow>
     retry_step p now s \<lparr>rs_phase = VMPhasePending, rs_count = 0, rs_next = None, rs_exhausted = None\<rparr>"

inductive_cases retry_stepE: "retry_step p now s s'"

definition int32_policy :: "RestartPolicy \<Rightarrow> bool" where
  "int32_policy p \<longleftrightarrow> - (2 ^ 31) \<le> rb_MaxRetries (rp_Backoff p) \<and> rb_MaxRetries (rp_Backoff p) < 2 ^ 31"

text \<open>What a write of the retry logic may be.\<close>

fun retry_write :: "RestartPolicy \<Rightarrow> int \<Rightarrow> ImpVM \<Rightarrow> vm_effect \<Rightarrow> bool" where
  "retry_write p now vm (PatchVMStatus b obj) =
     (b = vm \<and> vm_Meta obj = vm_Meta b \<and> vm_Spec obj = vm_Spec b \<and>
      retry_step p now (retry_view b) (retry_view obj))"
| "retry_write p now vm (PatchVM b obj) = (rp_Mode p = ''reschedule'' \<and> obj = set_node '''' b)"
| "retry_write p now vm (RestartingEvent n mx delay) =
     (mx = effectiveMaxRetries (Some p) \<and>
      delay = computeBackoffDelay (rp_Backoff p) (vt_RestartCount (vm_Status vm)))"
| "retry_write p now vm (DeleteVM _) = False"
| "retry_write p now vm (VMEvent _ _ _) = False"

lemma exhausted_writes:
  assumes "\<not> shouldRestart (Some p) (vt_RestartCount (vm_Status vm))"
  shows "io_ok (retry_write p now vm) (\<lambda>_. True) (handleExhausted srv now vm p)"
proof -
  have budget: "effectiveMaxRetries (Some p) \<le> rs_count (retry_view vm)"
    using assms by (simp add: shouldRestart_def retry_view_def)
  show ?thesis
    unfolding handleExhausted_def
    using budget retry_step.exhaust [OF budget, of now] retry_step.cool [OF budget, of now]
      retry_step.cooled [OF budget, of now]
    by (auto simp: retry_view_def clear_retries_def Let_def
        intro!: io_rules split: option.splits)
qed

lemma restart_writes:
  assumes p: "vs_RestartPolicy (vm_Spec vm) = Some p" "int32_policy p"
    and lo: "- (2 ^ 31) \<le> vt_RestartCount (vm_Status vm)"
  shows "io_ok (retry_write p now vm) (\<lambda>_. True) (handleFailed srv now vm)"
proof (cases "shouldRestart (Some p) (vt_RestartCount (vm_Status vm))")
  case False
  then show ?thesis using exhausted_writes p(1) by (simp add: handleFailed_def Let_def)
next
  case True
  then have budget: "rs_count (retry_view vm) < effectiveMaxRetries (Some p)"
    by (simp add: shouldRestart_def retry_view_def)
  then have "vt_RestartCount (vm_Status vm) + 1 < 2 ^ 31"
    using p(2) by (auto simp: int32_policy_def effectiveMaxRetries_def retry_view_def split: if_splits)
  then have wrap: "wrap32 (vt_RestartCount (vm_Status vm) + 1) = vt_RestartCount (vm_Status vm) + 1"
    using lo by (intro wrap32_id) auto
  show ?thesis
    unfolding handleFailed_def Let_def p(1)
    using True retry_step.restart [OF budget, of now VMPhaseScheduled]
      retry_step.restart [OF budget, of now VMPhasePending]
    by (auto simp: retry_view_def wrap intro!: io_rules split: option.splits)
qed

section \<open>Refinement and invariants\<close>

definition example_policy :: RestartPolicy where
  "example_policy = \<lparr>rp_Mode = ''reschedule'',
     rp_Backoff = \<lparr>rb_MaxRetries = 3, rb_InitialDelay = '''', rb_MaxDelay = ''''\<rparr>,
     rp_OnExhaustion = ''manual-reset'', rp_CoolDownPeriod = ''''\<rparr>"

definition example_failed_vm :: ImpVM where
  "example_failed_vm = upd_status (\<lambda>s. s\<lparr>vt_Phase := VMPhaseFailed, vt_NodeName := ''n1''\<rparr>)
     (upd_spec (\<lambda>s. s\<lparr>vs_RestartPolicy := Some example_policy, vs_NodeName := ''n1''\<rparr>) zero_vm)"

lemma example_failed_vm_sel [simp]:
  "vs_RestartPolicy (vm_Spec example_failed_vm) = Some example_policy"
  "vm_phase example_failed_vm = VMPhaseFailed"
  "vt_RestartCount (vm_Status example_failed_vm) = 0"
  "vt_NextRetryAfter (vm_Status example_failed_vm) = None"
  "int32_policy example_policy" "effectiveMaxRetries (Some example_policy) = 3"
  "rp_Mode example_policy = ''reschedule''"
  "computeBackoffDelay (rp_Backoff example_policy) 0 = seconds 10"
  by (simp_all add: example_failed_vm_def example_policy_def zero_vm_def zero_vm_status_def
      int32_policy_def effectiveMaxRetries_def computeBackoffDelay_def initialDelay_def
      parseDurationOrDefault_def)

text \<open>C2. The code of handleFailed implements the retry automaton: whatever the API server
  accepts or refuses, every status patch is one step of \<open>retry_step\<close> from the object it was
  computed from and touches neither metadata nor spec, the spec is patched only in reschedule
  mode and only to clear the node, and nothing is deleted.\<close>

theorem handleFailed_refines:
  assumes "vs_RestartPolicy (vm_Spec vm) = Some p" and "int32_policy p"
    and "- (2 ^ 31) \<le> vt_RestartCount (vm_Status vm)"
    and "e \<in> set (snd (handleFailed srv now vm []))"
  shows "retry_write p now vm e"
  using io_okD [OF restart_writes] assms by blast

lemma handleFailed_restarts:
  assumes "vs_RestartPolicy (vm_Spec vm) = Some p"
    and "vt_RestartCount (vm_Status vm) < effectiveMaxRetries (Some p)"
    and "\<forall>t. vt_NextRetryAfter (vm_Status vm) = Some t \<longrightarrow> t \<le> now"
  shows "handleFailed quiet_server now vm [] =
    (let delay = computeBackoffDelay (rp_Backoff p) (vt_RestartCount (vm_Status vm));
         count' = wrap32 (vt_RestartCount (vm_Status vm) + 1);
         vm1 = upd_status (\<lambda>s. s\<lparr>vt_Phase := (if rp_Mode p \<in> {''in-place'', ''''}
                                               then VMPhaseScheduled else VMPhasePending),
                 vt_RestartCount := count', vt_NextRetryAfter := Some (now + delay)\<rparr>) vm in
     (Inr (requeue_after delay),
      PatchVMStatus vm vm1 # (if rp_Mode p = ''reschedule'' then [PatchVM vm1 (set_node '''' vm1)] else [])
        @ [RestartingEvent count' (effectiveMaxRetries (Some p)) delay]))"
  using assms
  by (auto simp: handleFailed_def shouldRestart_def Let_def io_run split: option.splits)

theorem handleFailed_refines_witness:
  "\<exists>b obj. PatchVMStatus b obj \<in> set (snd (handleFailed quiet_server 5 example_failed_vm [])) \<and>
     retry_step example_policy 5 (retry_view b) (retry_view obj)"
proof -
  obtain obj where obj: "PatchVMStatus example_failed_vm obj
      \<in> set (snd (handleFailed quiet_server 5 example_failed_vm []))"
    by (simp add: handleFailed_restarts [where p = example_policy] Let_def)
  then show ?thesis
    using handleFailed_refines [OF _ _ _ obj, of example_policy] by auto
qed

text \<open>A failed VM with budget left whose retry window has opened is restarted: with a server
  that accepts the writes, one run bumps the counter, opens the next window one backoff delay
  later, leaves the Failed phase (to Scheduled in place, to Pending otherwise), clears the node
  assignment exactly in reschedule mode, and asks to be run again after the delay.\<close>

theorem restart_happens:
  assumes "vs_RestartPolicy (vm_Spec vm) = Some p"
    and "vt_RestartCount (vm_Status vm) < effectiveMaxRetries (Some p)"
    and "\<forall>t. vt_NextRetryAfter (vm_Status vm) = Some t \<longrightarrow> t \<le> now"
  shows "\<exists>vm1. handleFailed quiet_server now vm [] =
      (Inr (requeue_after (computeBackoffDelay (rp_Backoff p) (vt_RestartCount (vm_Status vm)))),
       PatchVMStatus vm vm1 # (if rp_Mode p = ''reschedule'' then [PatchVM vm1 (set_node '''' vm1)] else [])
         @ [RestartingEvent (vt_RestartCount (vm_Status vm1)) (effectiveMaxRetries (Some p))
              (computeBackoffDelay (rp_Backoff p) (vt_RestartCount (vm_Status vm)))]) \<and>
      vm_phase vm1 = (if rp_Mode p \<in> {''in-place'', ''''} then VMPhaseScheduled else VMPhasePending) \<and>
      vt_RestartCount (vm_Status vm1) = wrap32 (vt_RestartCount (vm_Status vm) + 1) \<and>
      vt_NextRetryAfter (vm_Status vm1) =
        Some (now + computeBackoffDelay (rp_Backoff p) (vt_RestartCount (vm_Status vm)))"
  by (simp add: handleFailed_restarts [OF assms] Let_def)

theorem restart_happens_witness:
  "\<exists>vm1. PatchVM vm1 (set_node '''' vm1) \<in> set (snd (handleFailed quiet_server 5 example_failed_vm [])) \<and>
     vm_phase vm1 = VMPhasePending"
  using restart_happens [of example_failed_vm example_policy 5] by auto

text \<open>The history of a VM under policy \<open>p\<close>: it starts with no restarts; the controller's status
  writes, the manual reset and any change by others that leaves policy and counter alone follow
  in any order, at any times and with any answers of the server.\<close>

inductive retry_history :: "RestartPolicy \<Rightarrow> ImpVM \<Rightarrow> bool" for p :: RestartPolicy where
  start: "vs_RestartPolicy (vm_Spec vm) = Some p \<Longrightarrow> vt_RestartCount (vm_Status vm) = 0 \<Longrightarrow>
    retry_history p vm"
| failed: "retry_history p vm \<Longrightarrow> PatchVMStatus b obj \<in> set (snd (handleFailed srv now vm [])) \<Longrightarrow>
    retry_history p obj"
| reset: "retry_history p vm \<Longrightarrow> quiet_api srv \<Longrightarrow>
    PatchVMStatus b obj \<in> set (snd (handleResetRetries srv vm [])) \<Longrightarrow> retry_history p obj"
| others: "retry_history p vm \<Longrightarrow> vs_RestartPolicy (vm_Spec vm') = Some p \<Longrightarrow>
    vt_RestartCount (vm_Status vm') = vt_RestartCount (vm_Status vm) \<Longrightarrow> retry_history p vm'"

lemma retry_step_budget:
  assumes "retry_step p now s s'" and "0 \<le> rs_count s"
    and "rs_count s \<le> max 0 (effectiveMaxRetries (Some p))"
  shows "0 \<le> rs_count s' \<and> rs_count s' \<le> max 0 (effectiveMaxRetries (Some p))"
  using assms by (cases rule: retry_step.cases) auto

fun reset_write :: "ImpVM \<Rightarrow> vm_effect \<Rightarrow> bool" where
  "reset_write vm (PatchVM b obj) = (b = vm \<and> obj = del_annotation AnnotationResetRetries vm)"
| "reset_write vm (PatchVMStatus b obj) =
     (vm_phase vm \<in> {VMPhaseFailed, VMPhaseRetryExhausted} \<and>
      b = del_annotation AnnotationResetRetries vm \<and> obj = clear_retries b)"
| "reset_write vm _ = False"

lemma reset_writes:
  assumes "quiet_api srv"
  shows "io_ok (reset_write vm) (\<lambda>_. True) (handleResetRetries srv vm)"
proof -
  let ?vm1 = "del_annotation AnnotationResetRetries vm"
  have patch: "io_ok (reset_write vm) (\<lambda>r. r = ?vm1) (send srv (PatchVM vm ?vm1))"
    by (rule quiet_api.io_ok_patch [OF assms]) simp_all
  show ?thesis
    unfolding handleResetRetries_def Let_def
    by (auto intro!: io_rules io_ok_then [OF patch])
qed

lemma retry_history_budget:
  assumes "retry_history p vm" and "int32_policy p"
  shows "vs_RestartPolicy (vm_Spec vm) = Some p \<and> 0 \<le> vt_RestartCount (vm_Status vm) \<and>
    vt_RestartCount (vm_Status vm) \<le> max 0 (effectiveMaxRetries (Some p))"
  using assms(1)
proof induction
  case (failed vm b obj srv now)
  then have "retry_write p now vm (PatchVMStatus b obj)"
    using io_okD [OF restart_writes] assms(2) by fastforce
  then show ?case
    using retry_step_budget [of p now "retry_view b" "retry_view obj"] failed.IH
    by (auto simp: retry_view_def)
next
  case (reset vm srv b obj)
  then have "reset_write vm (PatchVMStatus b obj)" using io_okD [OF reset_writes] by blast
  then show ?case
    using reset.IH by (simp add: clear_retries_def del_annotation_def)
qed auto

text \<open>C3. The restart budget is never exceeded: in every history of a VM, over any sequence of
  failures, refused writes, cool-downs, manual resets and changes by others, the number of
  restarts recorded since the last reset lies between 0 and the effective maximum (5 when the
  policy leaves it at 0).\<close>

theorem restart_budget:
  assumes "int32_policy p" and "retry_history p vm"
  shows "0 \<le> vt_RestartCount (vm_Status vm) \<and>
    vt_RestartCount (vm_Status vm) \<le> max 0 (effectiveMaxRetries (Some p))"
  using retry_history_budget [OF assms(2,1)] by blast

theorem restart_budget_witness:
  "\<exists>obj. retry_history example_policy obj \<and> vt_RestartCount (vm_Status obj) = 1 \<and>
     vt_RestartCount (vm_Status obj) \<le> max 0 (effectiveMaxRetries (Some example_policy))"
proof -
  obtain vm1 where vm1: "PatchVMStatus example_failed_vm vm1
      \<in> set (snd (handleFailed quiet_server 5 example_failed_vm []))"
    "vt_RestartCount (vm_Status vm1) = 1"
    by (simp add: handleFailed_restarts [where p = example_policy] Let_def wrap_simps)
  have "retry_history example_policy example_failed_vm" by (rule retry_history.start) simp_all
  then have "retry_history example_policy vm1" using vm1(1) by (rule retry_history.failed)
  then show ?thesis using vm1(2) restart_budget [of example_policy vm1] by auto
qed

text \<open>Restarts keep their distance: when one run restarts a VM at time \<open>t1\<close> and a later run,
  on an object that still carries the retry window of the first write, restarts it at \<open>t2\<close>, then
  at least the backoff delay of the first restart lies between them.\<close>

theorem restart_spacing:
  assumes "vs_RestartPolicy (vm_Spec vm1) = Some p" and "int32_policy p"
    and "0 \<le> vt_RestartCount (vm_Status vm1)"
    and "PatchVMStatus b1 o1 \<in> set (snd (handleFailed srv1 t1 vm1 []))"
    and "vt_RestartCount (vm_Status o1) = vt_RestartCount (vm_Status b1) + 1"
    and "vs_RestartPolicy (vm_Spec vm2) = Some p"
    and "0 \<le> vt_RestartCount (vm_Status vm2)"
    and "vt_NextRetryAfter (vm_Status vm2) = vt_NextRetryAfter (vm_Status o1)"
    and "PatchVMStatus b2 o2 \<in> set (snd (handleFailed srv2 t2 vm2 []))"
    and "vt_RestartCount (vm_Status o2) = vt_RestartCount (vm_Status b2) + 1"
  shows "t1 + computeBackoffDelay (rp_Backoff p) (vt_RestartCount (vm_Status vm1)) \<le> t2"
proof -
  have "- (2 ^ 31) \<le> vt_RestartCount (vm_Status vm1)" "- (2 ^ 31) \<le> vt_RestartCount (vm_Status vm2)"
    using assms(3,7) by auto
  then have "retry_write p t1 vm1 (PatchVMStatus b1 o1)" "retry_write p t2 vm2 (PatchVMStatus b2 o2)"
    using io_okD [OF restart_writes, OF assms(1,2) _ assms(4)]
      io_okD [OF restart_writes, OF assms(6,2) _ assms(9)] by blast+
  then have steps: "b1 = vm1" "retry_step p t1 (retry_view vm1) (retry_view o1)"
    "b2 = vm2" "retry_step p t2 (retry_view vm2) (retry_view o2)" by auto
  from steps(2) have "vt_NextRetryAfter (vm_Status o1) =
      Some (t1 + computeBackoffDelay (rp_Backoff p) (vt_RestartCount (vm_Status vm1)))"
    using assms(3,5) steps(1) by (cases rule: retry_step.cases) (auto simp: retry_view_def)
  then have next2: "rs_next (retry_view vm2) =
      Some (t1 + computeBackoffDelay (rp_Backoff p) (vt_RestartCount (vm_Status vm1)))"
    using assms(8) by (simp add: retry_view_def)
  from steps(4) show ?thesis
    using assms(7,10) steps(3) next2 by (cases rule: retry_step.cases) (auto simp: retry_view_def)
qed

theorem restart_spacing_witness:
  "\<exists>o1 o2. PatchVMStatus example_failed_vm o1
       \<in> set (snd (handleFailed quiet_server 5 example_failed_vm [])) \<and>
     PatchVMStatus o1 o2 \<in> set (snd (handleFailed quiet_server (seconds 20) o1 [])) \<and>
     5 + computeBackoffDelay (rp_Backoff example_policy) 0 \<le> seconds 20"
proof -
  obtain o1 where o1: "PatchVMStatus example_failed_vm o1
      \<in> set (snd (handleFailed quiet_server 5 example_failed_vm []))"
    "vs_RestartPolicy (vm_Spec o1) = Some example_policy"
    "vt_RestartCount (vm_Status o1) = 1" "vt_NextRetryAfter (vm_Status o1) = Some (5 + seconds 10)"
    by (simp add: handleFailed_restarts [where p = example_policy] Let_def wrap_simps)
  obtain o2 where o2: "PatchVMStatus o1 o2
      \<in> set (snd (handleFailed quiet_server (seconds 20) o1 []))"
    "vt_RestartCount (vm_Status o2) = 2"
    using o1(2-4)
    by (simp add: handleFailed_restarts [where p = example_policy] Let_def wrap_simps seconds_def)
  show ?thesis
    using restart_spacing [OF _ _ _ o1(1) _ o1(2) _ _ o2(1)] o1 o2 by auto
qed

text \<open>The manual reset is safe for a live VM: the request annotation is removed in every case,
  but the status is written only for a Failed or RetryExhausted VM, after the annotation is gone,
  and that write clears the counter, the window and the exhaustion mark and makes the VM
  Pending.\<close>

theorem reset_retries_safe:
  assumes "quiet_api srv" and "e \<in> set (snd (handleResetRetries srv vm []))"
  shows "case e of
      PatchVM b obj \<Rightarrow> b = vm \<and> obj = del_annotation AnnotationResetRetries vm
    | PatchVMStatus b obj \<Rightarrow> vm_phase vm \<in> {VMPhaseFailed, VMPhaseRetryExhausted} \<and>
        b = del_annotation AnnotationResetRetries vm \<and> vm_Meta obj = vm_Meta b \<and>
        vm_Spec obj = vm_Spec b \<and>
        retry_view obj = \<lparr>rs_phase = VMPhasePending, rs_count = 0, rs_next = None, rs_exhausted = None\<rparr>
    | _ \<Rightarrow> False"
proof -
  have "reset_write vm e" using io_okD [OF reset_writes [OF assms(1)] assms(2)] .
  then show ?thesis by (cases e) (auto simp: clear_retries_def retry_view_def)
qed

theorem reset_retries_safe_witness:
  "\<exists>b obj. PatchVMStatus b obj \<in> set (snd (handleResetRetries quiet_server example_failed_vm [])) \<and>
     vm_phase obj = VMPhasePending"
proof -
  let ?b = "del_annotation AnnotationResetRetries example_failed_vm"
  have mem: "PatchVMStatus ?b (clear_retries ?b)
      \<in> set (snd (handleResetRetries quiet_server example_failed_vm []))"
    by (simp add: handleResetRetries_def Let_def io_run)
  then show ?thesis
    using reset_retries_safe [OF quiet.quiet_api_axioms mem] by (auto simp: retry_view_def)
qed

end
