(* ===== verification/Scheduler.thy ===== *)
theory Scheduler
  imports ImpVM_Base
begin

text \<open>
  Placement of a VM on a node: capacity arithmetic and class resolution (capacity.go), the
  explicit-capacity pick (scheduler.go), and the reconciler's scheduling pipeline
  (impvm\_scheduler.go) with its filters. The reads of the API server are the record
  \<open>vm_client\<close>, a parameter; sort.Slice is the parameter \<open>srt\<close>.
\<close>

section \<open>Reads of the ImpVM controller\<close>

record vm_client =
  cl_vm :: "string \<Rightarrow> string \<Rightarrow> api_error + ImpVM"
  cl_node :: "string \<Rightarrow> api_error + node"
  cl_nodes :: "strmap \<Rightarrow> api_error + node list"
  cl_vms :: "api_error + ImpVM list"
  cl_class :: "string \<Rightarrow> api_error + ImpVMClassSpec"
  cl_template :: "string \<Rightarrow> string \<Rightarrow> api_error + ImpVMTemplateSpec"
  cl_profile :: "string \<Rightarrow> api_error + ClusterImpNodeProfileSpec"
  cl_config :: "api_error + ClusterImpConfigSpec"
  cl_pvc_owners :: "string \<Rightarrow> api_error + string list list"

section \<open>Capacity (capacity.go)\<close>

text \<open>The literal 0.9: the float64 nearest to nine tenths.\<close>

definition nine_tenths :: float64 where
  "nine_tenths = f64_quot 9 10 0"

definition parseFraction :: "string \<Rightarrow> float64" where
  "parseFraction s =
     (if s = '''' then nine_tenths
      else case ParseFloat s of
             None \<Rightarrow> nine_tenths
           | Some v \<Rightarrow> if f64_less_int v 0 \<or> f64_greater_int v 1 then nine_tenths else v)"

text \<open>Dividing by zero panics; \<open>oob\<close> is what the platform's conversion of a float64 outside int64
  gives.\<close>

definition effectiveMaxVMs ::
  "(float64 \<Rightarrow> int) \<Rightarrow> int \<Rightarrow> int \<Rightarrow> int \<Rightarrow> int \<Rightarrow> float64 \<Rightarrow> error + int" where
  "effectiveMaxVMs oob allocCPUMillis allocMemBytes vcpu memMiB fraction =
     (let vmCPUMillis = wrap64 (vcpu * 1000);
          vmMemBytes = wrap64 (memMiB * 1024 * 1024) in
      if vmCPUMillis = 0 \<or> vmMemBytes = 0 then Inl (Panic ''integer divide by zero'')
      else
        let cpuMax = quot (f64_to_int64 oob (f64_mul (f64_of_int allocCPUMillis) fraction)) vmCPUMillis;
            memMax = quot (f64_to_int64 oob (f64_mul (f64_of_int allocMemBytes) fraction)) vmMemBytes;
            result = (if memMax < cpuMax then memMax else cpuMax) in
        Inr (if result < 0 then 0 else wrap32 result))"

definition resolveClassSpec :: "vm_client \<Rightarrow> ImpVM \<Rightarrow> error + ImpVMClassSpec" where
  "resolveClassSpec cl vm =
     (case vs_ClassRef (vm_Spec vm) of
        Some c \<Rightarrow> (case cl_class cl c of Inl e \<Rightarrow> Inl (Api e) | Inr spec \<Rightarrow> Inr spec)
      | None \<Rightarrow>
          (case vs_TemplateRef (vm_Spec vm) of
             Some t \<Rightarrow>
               (case cl_template cl (vm_namespace vm) t of
                  Inl e \<Rightarrow> Inl (Api e)
                | Inr tmpl \<Rightarrow>
                    (case cl_class cl (ts_ClassRef tmpl) of Inl e \<Rightarrow> Inl (Api e) | Inr spec \<Rightarrow> Inr spec))
           | None \<Rightarrow> Inl (Err ''vm has neither classRef nor templateRef'')))"

section \<open>Pick by explicit capacity (scheduler.go)\<close>

record NodeInfo =
  ni_NodeName :: string
  ni_VCPUCapacity :: int
  ni_MemoryMiB :: int
  ni_ResidentVCPU :: int
  ni_ResidentMemoryMiB :: int
  ni_ReservedVCPU :: int
  ni_ReservedMemoryMiB :: int

definition free_vcpu :: "NodeInfo \<Rightarrow> int" where
  "free_vcpu n = wrap32 (ni_VCPUCapacity n - ni_ResidentVCPU n)"

definition free_mem :: "NodeInfo \<Rightarrow> int" where
  "free_mem n = wrap64 (ni_MemoryMiB n - ni_ResidentMemoryMiB n)"

definition node_fits :: "int \<Rightarrow> int \<Rightarrow> NodeInfo \<Rightarrow> bool" where
  "node_fits vcpu memMiB n \<longleftrightarrow> vcpu \<le> free_vcpu n \<and> memMiB \<le> free_mem n"

text \<open>The result None is ErrUnschedulable. A candidate is a name with the free capacities.\<close>

definition Schedule :: "sorter \<Rightarrow> int \<Rightarrow> int \<Rightarrow> NodeInfo list \<Rightarrow> string option" where
  "Schedule srt vcpu memMiB nodes =
     (let candidates = map (\<lambda>n. (ni_NodeName n, free_vcpu n, free_mem n))
                         (filter (node_fits vcpu memMiB) nodes) in
      if candidates = [] then None
      else Some (fst (hd (sort_slice srt (\<lambda>a b. snd (snd a) > snd (snd b)) candidates))))"

section \<open>Usage (impvm\_scheduler.go)\<close>

definition defaultMemoryReserveMiB :: int where
  "defaultMemoryReserveMiB = 512"

definition max64 :: "int \<Rightarrow> int \<Rightarrow> int" where
  "max64 a b = (if a > b then a else b)"

definition applyMemoryReserve :: "int \<Rightarrow> int \<Rightarrow> int" where
  "applyMemoryReserve baseMiB reserveMiB = max64 0 (wrap64 (baseMiB - reserveMiB))"

record nodeResourceUsage =
  residentVCPU :: int
  residentMem :: int
  reservedVCPU :: int
  reservedMem :: int

definition no_usage :: nodeResourceUsage where
  "no_usage = \<lparr>residentVCPU = 0, residentMem = 0, reservedVCPU = 0, reservedMem = 0\<rparr>"

definition add_usage :: "ImpVMClassSpec \<Rightarrow> bool \<Rightarrow> nodeResourceUsage \<Rightarrow> nodeResourceUsage" where
  "add_usage spec resident cur =
     (let cur = cur\<lparr>reservedVCPU := wrap32 (reservedVCPU cur + cs_VCPU spec),
                    reservedMem := wrap64 (reservedMem cur + cs_MemoryMiB spec)\<rparr> in
      if resident
      then cur\<lparr>residentVCPU := wrap32 (residentVCPU cur + cs_VCPU spec),
               residentMem := wrap64 (residentMem cur + cs_MemoryMiB spec)\<rparr>
      else cur)"

definition usage_of :: "(string \<rightharpoonup> nodeResourceUsage) \<Rightarrow> string \<Rightarrow> nodeResourceUsage" where
  "usage_of m n = (case m n of None \<Rightarrow> no_usage | Some u \<Rightarrow> u)"

fun sum_used :: "vm_client \<Rightarrow> ImpVM list \<Rightarrow> (string \<rightharpoonup> nodeResourceUsage) \<Rightarrow> (string \<rightharpoonup> nodeResourceUsage)" where
  "sum_used cl [] result = result"
| "sum_used cl (vm # vms) result =
     sum_used cl vms
       (if vm_phase vm \<in> {VMPhaseFailed, VMPhaseSucceeded, VMPhaseTerminating} \<or> vm_node vm = ''''
        then result
        else case resolveClassSpec cl vm of
               Inl _ \<Rightarrow> result
             | Inr spec \<Rightarrow>
                 result(vm_node vm \<mapsto> add_usage spec (vm_phase vm \<noteq> VMPhaseSuspended)
                                        (usage_of result (vm_node vm))))"

definition sumUsedResources :: "vm_client \<Rightarrow> ImpVM list \<Rightarrow> (string \<rightharpoonup> nodeResourceUsage)" where
  "sumUsedResources cl vms = sum_used cl vms Map.empty"

fun count_running :: "ImpVM list \<Rightarrow> (string \<rightharpoonup> int) \<Rightarrow> (string \<rightharpoonup> int)" where
  "count_running [] counts = counts"
| "count_running (vm # vms) counts =
     count_running vms
       (if vm_phase vm \<in> {VMPhaseFailed, VMPhaseSucceeded, VMPhaseTerminating, VMPhaseSuspended} \<or>
           vm_node vm = ''''
        then counts
        else counts(vm_node vm \<mapsto> (case counts (vm_node vm) of None \<Rightarrow> 1 | Some c \<Rightarrow> c + 1)))"

definition countRunningVMs :: "ImpVM list \<Rightarrow> (string \<rightharpoonup> int)" where
  "countRunningVMs vms = count_running vms Map.empty"

definition count_of :: "(string \<rightharpoonup> int) \<Rightarrow> string \<Rightarrow> int" where
  "count_of m n = (case m n of None \<Rightarrow> 0 | Some c \<Rightarrow> c)"

section \<open>Filters\<close>

definition tolerationMatchesTaint :: "toleration \<Rightarrow> taint \<Rightarrow> bool" where
  "tolerationMatchesTaint t taint =
     (if to_Effect t \<noteq> EffectUnset \<and> to_Effect t \<noteq> ta_Effect taint then False
      else if to_Operator t = OpExists then to_Key t = '''' \<or> to_Key t = ta_Key taint
      else to_Key t = ta_Key taint \<and> to_Value t = ta_Value taint)"

definition toleratesTaint :: "taint \<Rightarrow> toleration list \<Rightarrow> bool" where
  "toleratesTaint taint tolerations = list_ex (\<lambda>t. tolerationMatchesTaint t taint) tolerations"

definition nodeToleratedBy :: "node \<Rightarrow> toleration list \<Rightarrow> bool" where
  "nodeToleratedBy node tolerations =
     list_all (\<lambda>taint. ta_Effect taint = PreferNoSchedule \<or>
        has_prefix (ta_Key taint) ''node.kubernetes.io/'' \<or> toleratesTaint taint tolerations)
       (nd_Taints node)"

definition filterByTolerations :: "node list \<Rightarrow> toleration list \<Rightarrow> node list" where
  "filterByTolerations nodes tolerations = filter (\<lambda>n. nodeToleratedBy n tolerations) nodes"

definition resolveTolerations :: "ImpVM \<Rightarrow> ImpVMClassSpec option \<Rightarrow> toleration list" where
  "resolveTolerations vm classSpec =
     (case classSpec of None \<Rightarrow> [] | Some c \<Rightarrow> cs_Tolerations c) @ vs_Tolerations (vm_Spec vm)"

definition matches_selector :: "node \<Rightarrow> strmap \<Rightarrow> bool" where
  "matches_selector node selector = list_all (\<lambda>(k, v). str_get (nd_Labels node) k = v) selector"

definition filterByNodeSelector :: "node list \<Rightarrow> strmap \<Rightarrow> node list" where
  "filterByNodeSelector nodes selector =
     (if selector = [] then nodes else filter (\<lambda>n. matches_selector n selector) nodes)"

fun ready_condition :: "(node_cond_type \<times> cond_status) list \<Rightarrow> bool" where
  "ready_condition [] = False"
| "ready_condition ((t, s) # cs) = (if t = NodeReady then s = ConditionTrue else ready_condition cs)"

definition isNodeReady :: "node \<Rightarrow> bool" where
  "isNodeReady node = ready_condition (nd_Conditions node)"

definition nodeIsSchedulable :: "node \<Rightarrow> bool" where
  "nodeIsSchedulable node =
     (if nd_Unschedulable node then False
      else if \<not> isNodeReady node then False
      else \<not> list_ex (\<lambda>(t, s). t \<in> {NodeMemoryPressure, NodeDiskPressure, NodePIDPressure} \<and>
                        s = ConditionTrue) (nd_Conditions node))"

definition filterSchedulable :: "node list \<Rightarrow> node list" where
  "filterSchedulable nodes = filter nodeIsSchedulable nodes"

section \<open>The pipeline\<close>

definition labelImpEnabled :: string where
  "labelImpEnabled = ''imp/enabled''"

text \<open>The cluster-wide fraction and memory reserve, with their defaults.\<close>

definition capacity_settings :: "vm_client \<Rightarrow> float64 \<times> int" where
  "capacity_settings cl =
     (case cl_config cl of
        Inl _ \<Rightarrow> (nine_tenths, defaultMemoryReserveMiB)
      | Inr cfg \<Rightarrow>
          (parseFraction (cc_DefaultFraction (cf_Capacity cfg)),
           (case cc_MemoryReserveMiB (cf_Capacity cfg) of
              Some r \<Rightarrow> if 0 \<le> r then r else defaultMemoryReserveMiB
            | None \<Rightarrow> defaultMemoryReserveMiB)))"

text \<open>Step 8a: the eligible nodes whose profile states a capacity.\<close>

fun explicit_nodes ::
  "vm_client \<Rightarrow> int \<Rightarrow> (string \<rightharpoonup> nodeResourceUsage) \<Rightarrow> node list \<Rightarrow> NodeInfo list" where
  "explicit_nodes cl reserve used [] = []"
| "explicit_nodes cl reserve used (node # nodes) =
     (case cl_profile cl (nd_Name node) of
        Inl _ \<Rightarrow> explicit_nodes cl reserve used nodes
      | Inr profile \<Rightarrow>
          if np_VCPUCapacity profile = 0 then explicit_nodes cl reserve used nodes
          else let u = usage_of used (nd_Name node) in
            \<lparr>ni_NodeName = nd_Name node, ni_VCPUCapacity = np_VCPUCapacity profile,
             ni_MemoryMiB = applyMemoryReserve (np_MemoryMiB profile) reserve,
             ni_ResidentVCPU = residentVCPU u, ni_ResidentMemoryMiB = residentMem u,
             ni_ReservedVCPU = reservedVCPU u, ni_ReservedMemoryMiB = reservedMem u\<rparr>
            # explicit_nodes cl reserve used nodes)"

text \<open>Step 9, one node: whether it stays below its cap. The maximum number of VMs comes from the
  node's allocatable resources and the fraction of the profile or the cluster.\<close>

definition below_caps ::
  "(float64 \<Rightarrow> int) \<Rightarrow> float64 \<Rightarrow> int \<Rightarrow> int \<Rightarrow> int \<Rightarrow> ClusterImpNodeProfileSpec option \<Rightarrow> node \<Rightarrow> int \<Rightarrow>
     error + bool" where
  "below_caps oob globalFraction reserve vmVCPU vmMemMiB profile node running =
     (if (case profile of None \<Rightarrow> False
          | Some p \<Rightarrow> 0 < np_MaxImpVMs p \<and> np_MaxImpVMs p \<le> wrap32 running) then Inr False
      else if 0 < vmVCPU then
        let fraction = (case profile of
                          None \<Rightarrow> globalFraction
                        | Some p \<Rightarrow> if np_CapacityFraction p \<noteq> '''' then parseFraction (np_CapacityFraction p)
                                    else globalFraction);
            allocMem = applyMemoryReserve (nd_AllocMemBytes node) (wrap64 (reserve * 1024 * 1024)) in
        (case effectiveMaxVMs oob (nd_AllocCPUMillis node) allocMem vmVCPU vmMemMiB fraction of
           Inl e \<Rightarrow> Inl e
         | Inr maxVMs \<Rightarrow> Inr (\<not> maxVMs \<le> wrap32 running))
      else Inr True)"

fun capacity_candidates ::
  "(float64 \<Rightarrow> int) \<Rightarrow> vm_client \<Rightarrow> float64 \<Rightarrow> int \<Rightarrow> int \<Rightarrow> int \<Rightarrow> (string \<rightharpoonup> int) \<Rightarrow> node list \<Rightarrow>
     error + (string \<times> int) list" where
  "capacity_candidates oob cl fraction reserve vmVCPU vmMemMiB counts [] = Inr []"
| "capacity_candidates oob cl fraction reserve vmVCPU vmMemMiB counts (node # nodes) =
     (let running = count_of counts (nd_Name node);
          rest = capacity_candidates oob cl fraction reserve vmVCPU vmMemMiB counts nodes;
          check = (\<lambda>profile.
            (case below_caps oob fraction reserve vmVCPU vmMemMiB profile node running of
               Inl e \<Rightarrow> Inl e
             | Inr False \<Rightarrow> rest
             | Inr True \<Rightarrow> (case rest of Inl e \<Rightarrow> Inl e | Inr cs \<Rightarrow> Inr ((nd_Name node, running) # cs)))) in
      case cl_profile cl (nd_Name node) of
        Inl e \<Rightarrow> if e = NotFound then check None else Inl (Api e)
      | Inr profile \<Rightarrow> check (Some profile))"

definition candidate_before :: "string \<times> int \<Rightarrow> string \<times> int \<Rightarrow> bool" where
  "candidate_before a b = (if snd a \<noteq> snd b then snd a < snd b else fst a < fst b)"

definition place :: "sorter \<Rightarrow> (float64 \<Rightarrow> int) \<Rightarrow> vm_client \<Rightarrow> ImpVMClassSpec option \<Rightarrow> ImpVM list \<Rightarrow>
    node list \<Rightarrow> error + string" where
  "place srt oob cl classSpec allVMs eligible =
     (let vmVCPU = (case classSpec of None \<Rightarrow> 0 | Some c \<Rightarrow> cs_VCPU c);
          vmMemMiB = (case classSpec of None \<Rightarrow> 0 | Some c \<Rightarrow> cs_MemoryMiB c) in
      case capacity_settings cl of (globalFraction, reserve) \<Rightarrow>
      let explicitNodes = explicit_nodes cl reserve (sumUsedResources cl allVMs) eligible in
      case (if explicitNodes \<noteq> [] \<and> 0 < vmVCPU then Schedule srt vmVCPU vmMemMiB explicitNodes else None) of
        Some chosen \<Rightarrow> Inr chosen
      | None \<Rightarrow>
          (case capacity_candidates oob cl globalFraction reserve vmVCPU vmMemMiB
                  (countRunningVMs allVMs) eligible of
             Inl e \<Rightarrow> Inl e
           | Inr candidates \<Rightarrow>
               if candidates = [] then Inr ''''
               else Inr (fst (hd (sort_slice srt candidate_before candidates)))))"

text \<open>The reconciler's schedule; the empty name means that no node is available.\<close>

definition schedule :: "sorter \<Rightarrow> (float64 \<Rightarrow> int) \<Rightarrow> vm_client \<Rightarrow> ImpVM \<Rightarrow> error + string" where
  "schedule srt oob cl vm =
     (case cl_nodes cl [(labelImpEnabled, ''true'')] of
        Inl e \<Rightarrow> Inl (Api e)
      | Inr nodes \<Rightarrow>
          let eligible = filterByNodeSelector nodes (vs_NodeSelector (vm_Spec vm)) in
          if eligible = [] then Inr ''''
          else let eligible = filterSchedulable eligible in
          if eligible = [] then Inr ''''
          else
            let classSpec = (case resolveClassSpec cl vm of Inl _ \<Rightarrow> None | Inr cs \<Rightarrow> Some cs);
                eligible = filterByTolerations eligible (resolveTolerations vm classSpec) in
            if eligible = [] then Inr ''''
            else (case cl_vms cl of
                    Inl e \<Rightarrow> Inl (Api e)
                  | Inr allVMs \<Rightarrow> place srt oob cl classSpec allVMs eligible))"

section \<open>Capacity bounds\<close>

lemma bit_length_eqI:
  assumes "2 ^ k \<le> n" and "n < 2 ^ Suc k"
  shows "bit_length n = Suc k"
proof -
  have "0 < n" using assms(1) by (metis gr0I less_le_trans not_less zero_less_numeral zero_less_power)
  then have "(2::nat) ^ (bit_length n - 1) < 2 ^ Suc k" using bit_length_le [of n] assms(2) by linarith
  then have "bit_length n - 1 < Suc k" by (rule power_less_imp_less_exp [rotated]) simp
  moreover have "(2::nat) ^ k < 2 ^ bit_length n" using less_bit_length [of n] assms(1) by linarith
  then have "k < bit_length n" by (rule power_less_imp_less_exp [rotated]) simp
  ultimately show ?thesis by linarith
qed

lemma nine_tenths_eq [code]: "nine_tenths = Fin 8106479329266893 (-53)"
proof -
  have len: "bit_length 10 = 4" "bit_length 1037629354146162279 = 60" "bit_length 8106479329266893 = 53"
    using bit_length_eqI [of 3 10] bit_length_eqI [of 59 1037629354146162279]
      bit_length_eqI [of 52 8106479329266893] by simp_all
  have "nine_tenths = f64_round 1037629354146162279 (-60)"
    unfolding nine_tenths_def f64_quot_def len Let_def by simp
  moreover have "shift_right_even 1037629354146162279 7 = 8106479329266893"
    unfolding shift_right_even_def Let_def by simp
  ultimately show ?thesis
    unfolding f64_round_def Let_def by (simp add: len)
qed

lemma parseFraction_range:
  "parseFraction s = NaN \<or> (\<exists>m e. parseFraction s = Fin m e \<and>
     \<not> f64_less_int (Fin m e) 0 \<and> \<not> f64_greater_int (Fin m e) 1)"
proof -
  have default: "\<exists>m e. nine_tenths = Fin m e \<and> \<not> f64_less_int (Fin m e) 0 \<and> \<not> f64_greater_int (Fin m e) 1"
    by (simp add: nine_tenths_eq)
  show ?thesis
  proof (cases "ParseFloat s")
    case None
    then show ?thesis using default by (simp add: parseFraction_def)
  next
    case (Some v)
    then show ?thesis using default by (cases v) (auto simp: parseFraction_def)
  qed
qed

lemma scaled_quota:
  assumes a: "0 \<le> a" "a < 2 ^ 53" and frac: "fraction = parseFraction s" "fraction \<noteq> NaN"
    and d: "0 < d"
  shows "0 \<le> quot (f64_to_int64 oob (f64_mul (f64_of_int a) fraction)) d"
    and "quot (f64_to_int64 oob (f64_mul (f64_of_int a) fraction)) d * d \<le> a"
proof -
  obtain m e where fe: "fraction = Fin m e" "\<not> f64_less_int (Fin m e) 0" "\<not> f64_greater_int (Fin m e) 1"
    using parseFraction_range [of s] frac by auto
  then obtain i where i: "f64_trunc (f64_mul (f64_of_int a) fraction) = Some i" "0 \<le> i" "i \<le> a"
    using f64_scale_le [OF a fe(2,3)] by auto
  then have eq: "quot (f64_to_int64 oob (f64_mul (f64_of_int a) fraction)) d = i div d"
    using a d by (simp add: f64_to_int64_def quot_nonneg)
  show "0 \<le> quot (f64_to_int64 oob (f64_mul (f64_of_int a) fraction)) d"
    using eq i d by (simp add: pos_imp_zdiv_nonneg_iff)
  have "i div d * d \<le> i" using d by (simp add: div_times_less_eq_dividend minus_mod_eq_div_mult [symmetric])
  then show "quot (f64_to_int64 oob (f64_mul (f64_of_int a) fraction)) d * d \<le> a"
    using i by (simp only: eq)
qed

text \<open>The per-node limit never promises more than the node has: for a capacity fraction read
  from the configuration (any string whose value is a number) and allocatable resources below
  2^53 millicores and 2^51 bytes, the limit exists, is not negative, and that many VMs of the
  class need at most the allocatable CPU and memory.\<close>

theorem effectiveMaxVMs_within_node:
  assumes "0 \<le> cpu" "cpu < 2 ^ 53" and "0 \<le> mem" "mem < 2 ^ 51"
    and "0 < vcpu" "vcpu < 2 ^ 31" and "0 < memMiB" "memMiB < 2 ^ 31"
    and "parseFraction s \<noteq> NaN"
  shows "\<exists>k. effectiveMaxVMs oob cpu mem vcpu memMiB (parseFraction s) = Inr k \<and> 0 \<le> k \<and>
    k * (vcpu * 1000) \<le> cpu \<and> k * (memMiB * 1024 * 1024) \<le> mem"
proof -
  define dc where "dc = vcpu * 1000"
  define dm where "dm = memMiB * 1024 * 1024"
  have wraps: "wrap64 (vcpu * 1000) = dc" "wrap64 (memMiB * 1024 * 1024) = dm"
    using assms(5-8) unfolding dc_def dm_def by (auto intro!: wrap64_id)
  have pos: "0 < dc" "0 < dm" using assms by (auto simp: dc_def dm_def)
  define qc where "qc = quot (f64_to_int64 oob (f64_mul (f64_of_int cpu) (parseFraction s))) dc"
  define qm where "qm = quot (f64_to_int64 oob (f64_mul (f64_of_int mem) (parseFraction s))) dm"
  have c: "0 \<le> qc" "qc * dc \<le> cpu"
    unfolding qc_def using scaled_quota [OF assms(1,2) refl assms(9) pos(1)] by auto
  have m: "0 \<le> qm" "qm * dm \<le> mem"
    unfolding qm_def using scaled_quota [OF assms(3) _ refl assms(9) pos(2)] assms(4) by auto
  have "qm * 1048576 \<le> qm * dm" using m pos assms(7) by (intro mult_left_mono) (auto simp: dm_def)
  then have small: "qm < 2 ^ 31" using m assms(4) by simp
  have "min qc qm * dc \<le> qc * dc" "min qc qm * dm \<le> qm * dm"
    using pos by (auto intro: mult_right_mono)
  moreover have "effectiveMaxVMs oob cpu mem vcpu memMiB (parseFraction s) = Inr (min qc qm)"
    using c m pos small wrap32_id [of "min qc qm"]
    unfolding effectiveMaxVMs_def wraps Let_def qc_def [symmetric] qm_def [symmetric] by auto
  ultimately show ?thesis using c m unfolding dc_def [symmetric] dm_def [symmetric] by auto
qed

theorem effectiveMaxVMs_within_node_witness:
  "\<exists>k. effectiveMaxVMs (\<lambda>_. 0) 4000 8589934592 2 2048 (parseFraction '''') = Inr k \<and>
     k * (2 * 1000) \<le> 4000 \<and> k * (2048 * 1024 * 1024) \<le> 8589934592"
  using effectiveMaxVMs_within_node [of 4000 8589934592 2 2048 "''''" "\<lambda>_. 0"]
  by (auto simp: parseFraction_def nine_tenths_eq)

section \<open>Correctness of the picks\<close>

lemma Schedule_pick:
  assumes "slice_sort srt"
  shows "case Schedule srt vcpu memMiB nodes of
      None \<Rightarrow> \<forall>n\<in>set nodes. \<not> node_fits vcpu memMiB n
    | Some name \<Rightarrow> \<exists>n\<in>set nodes. ni_NodeName n = name \<and> node_fits vcpu memMiB n \<and>
        (\<forall>n'\<in>set nodes. node_fits vcpu memMiB n' \<longrightarrow> free_mem n' \<le> free_mem n)"
proof -
  define cs where "cs = map (\<lambda>n. (ni_NodeName n, free_vcpu n, free_mem n))
    (filter (node_fits vcpu memMiB) nodes)"
  define c where "c = hd (sort_slice srt (\<lambda>a b. snd (snd a) > snd (snd b)) cs)"
  have run: "Schedule srt vcpu memMiB nodes = (if cs = [] then None else Some (fst c))"
    unfolding Schedule_def Let_def cs_def c_def by blast
  show ?thesis
  proof (cases "cs = []")
    case True
    then show ?thesis using run by (auto simp: cs_def filter_empty_conv)
  next
    case False
    have order: "weak_order_on (set cs) (\<lambda>a b. snd (snd a) > snd (snd b))"
      by (rule weak_order_on_key_desc)
    note first = slice_sort.sort_slice_hd [OF assms order False, folded c_def]
    from first(1) obtain n where n: "n \<in> set nodes" "node_fits vcpu memMiB n"
      "c = (ni_NodeName n, free_vcpu n, free_mem n)" by (auto simp: cs_def)
    have "free_mem n' \<le> free_mem n" if "n' \<in> set nodes" "node_fits vcpu memMiB n'" for n'
      using first(2) [of "(ni_NodeName n', free_vcpu n', free_mem n')"] that n(3)
      by (auto simp: cs_def)
    then show ?thesis using run False n by auto
  qed
qed

text \<open>C4. Schedule picks, among the nodes with room for the VM, one with the most free memory, and
  reports that the VM is unschedulable exactly when no node has room. This holds for every
  sorting algorithm that keeps the contract of sort.Slice.\<close>

theorem Schedule_best_fit:
  assumes "slice_sort srt"
  shows "case Schedule srt vcpu memMiB nodes of
      None \<Rightarrow> \<forall>n\<in>set nodes. \<not> node_fits vcpu memMiB n
    | Some name \<Rightarrow> \<exists>n\<in>set nodes. ni_NodeName n = name \<and> node_fits vcpu memMiB n \<and>
        (\<forall>n'\<in>set nodes. node_fits vcpu memMiB n' \<longrightarrow> free_mem n' \<le> free_mem n)"
  using assms by (rule Schedule_pick)

definition example_info :: "string \<Rightarrow> int \<Rightarrow> NodeInfo" where
  "example_info name used = \<lparr>ni_NodeName = name, ni_VCPUCapacity = 8, ni_MemoryMiB = 8192,
     ni_ResidentVCPU = 2, ni_ResidentMemoryMiB = used, ni_ReservedVCPU = 2, ni_ReservedMemoryMiB = used\<rparr>"

theorem Schedule_best_fit_witness:
  "Schedule insertion_sort 2 1024 [example_info ''a'' 4096, example_info ''b'' 1024] = Some ''b'' \<and>
   (\<exists>n\<in>set [example_info ''a'' 4096, example_info ''b'' 1024]. ni_NodeName n = ''b'' \<and> node_fits 2 1024 n)"
proof -
  have run: "Schedule insertion_sort 2 1024 [example_info ''a'' 4096, example_info ''b'' 1024] = Some ''b''"
    by code_simp
  then show ?thesis
    using Schedule_best_fit [OF go_sort.slice_sort_axioms,
        of "[example_info ''a'' 4096, example_info ''b'' 1024]" 2 1024] by auto
qed

section \<open>Soundness of the pipeline\<close>

definition explicit_info :: "vm_client \<Rightarrow> int \<Rightarrow> (string \<rightharpoonup> nodeResourceUsage) \<Rightarrow> ClusterImpNodeProfileSpec \<Rightarrow>
    string \<Rightarrow> NodeInfo" where
  "explicit_info cl reserve used p name = (let u = usage_of used name in
     \<lparr>ni_NodeName = name, ni_VCPUCapacity = np_VCPUCapacity p,
      ni_MemoryMiB = applyMemoryReserve (np_MemoryMiB p) reserve,
      ni_ResidentVCPU = residentVCPU u, ni_ResidentMemoryMiB = residentMem u,
      ni_ReservedVCPU = reservedVCPU u, ni_ReservedMemoryMiB = reservedMem u\<rparr>)"

lemma explicit_nodes_elem:
  "info \<in> set (explicit_nodes cl reserve used nodes) \<Longrightarrow>
     \<exists>node\<in>set nodes. \<exists>p. cl_profile cl (nd_Name node) = Inr p \<and> np_VCPUCapacity p \<noteq> 0 \<and>
       info = explicit_info cl reserve used p (nd_Name node)"
  by (induction nodes) (auto simp: explicit_info_def Let_def split: sum.splits if_splits)

lemma capacity_candidates_elem:
  assumes "capacity_candidates oob cl fraction reserve v m counts nodes = Inr cs" and "c \<in> set cs"
  shows "\<exists>node\<in>set nodes. c = (nd_Name node, count_of counts (nd_Name node)) \<and>
    below_caps oob fraction reserve v m
      (case cl_profile cl (nd_Name node) of Inl _ \<Rightarrow> None | Inr p \<Rightarrow> Some p) node
      (count_of counts (nd_Name node)) = Inr True"
  using assms
  by (induction nodes arbitrary: cs)
    (auto simp: Let_def split: sum.splits if_splits bool.splits)

lemma candidate_order: "weak_order_on A candidate_before"
  unfolding weak_order_on_def candidate_before_def by (auto split: if_splits)

lemma candidate_order_total: "\<not> candidate_before a b \<Longrightarrow> \<not> candidate_before b a \<Longrightarrow> a = b"
  by (cases a; cases b) (auto simp: candidate_before_def split: if_splits)

text \<open>What a placement on a node rests on: room next to the resident VMs in its explicit
  capacity, or a VM count below its caps that no other candidate undercuts.\<close>

definition has_explicit_room ::
  "vm_client \<Rightarrow> ImpVMClassSpec option \<Rightarrow> ImpVM list \<Rightarrow> string \<Rightarrow> bool" where
  "has_explicit_room cl classSpec allVMs name \<longleftrightarrow>
     (\<exists>c p. classSpec = Some c \<and> 0 < cs_VCPU c \<and> cl_profile cl name = Inr p \<and> np_VCPUCapacity p \<noteq> 0 \<and>
        node_fits (cs_VCPU c) (cs_MemoryMiB c)
          (explicit_info cl (snd (capacity_settings cl)) (sumUsedResources cl allVMs) p name))"

definition is_below_caps ::
  "(float64 \<Rightarrow> int) \<Rightarrow> vm_client \<Rightarrow> ImpVMClassSpec option \<Rightarrow> ImpVM list \<Rightarrow> node \<Rightarrow> bool" where
  "is_below_caps oob cl classSpec allVMs node \<longleftrightarrow>
     below_caps oob (fst (capacity_settings cl)) (snd (capacity_settings cl))
       (case classSpec of None \<Rightarrow> 0 | Some c \<Rightarrow> cs_VCPU c)
       (case classSpec of None \<Rightarrow> 0 | Some c \<Rightarrow> cs_MemoryMiB c)
       (case cl_profile cl (nd_Name node) of Inl _ \<Rightarrow> None | Inr p \<Rightarrow> Some p) node
       (count_of (countRunningVMs allVMs) (nd_Name node)) = Inr True"

lemma place_explicit:
  assumes "slice_sort srt"
    and "Schedule srt vcpu memMiB (explicit_nodes cl reserve used eligible) = Some name"
  shows "\<exists>node\<in>set eligible. nd_Name node = name \<and> (\<exists>p. cl_profile cl name = Inr p \<and>
    np_VCPUCapacity p \<noteq> 0 \<and> node_fits vcpu memMiB (explicit_info cl reserve used p name))"
proof -
  obtain info where info: "info \<in> set (explicit_nodes cl reserve used eligible)"
    "ni_NodeName info = name" "node_fits vcpu memMiB info"
    using Schedule_pick [OF assms(1), of "explicit_nodes cl reserve used eligible" vcpu memMiB] assms(2)
    by auto
  then show ?thesis
    using explicit_nodes_elem [OF info(1)] by (auto simp: explicit_info_def Let_def)
qed

lemma place_room:
  assumes sort: "slice_sort srt" and run: "place srt oob cl classSpec allVMs eligible = Inr name"
    and name: "name \<noteq> ''''"
  shows "\<exists>node\<in>set eligible. nd_Name node = name \<and>
    (has_explicit_room cl classSpec allVMs name \<or> is_below_caps oob cl classSpec allVMs node)"
proof -
  obtain fraction reserve where settings: "capacity_settings cl = (fraction, reserve)" by fastforce
  let ?v = "case classSpec of None \<Rightarrow> 0 | Some c \<Rightarrow> cs_VCPU c"
  let ?m = "case classSpec of None \<Rightarrow> 0 | Some c \<Rightarrow> cs_MemoryMiB c"
  let ?ex = "explicit_nodes cl reserve (sumUsedResources cl allVMs) eligible"
  show ?thesis
  proof (cases "if ?ex \<noteq> [] \<and> 0 < ?v then Schedule srt ?v ?m ?ex else None")
    case (Some chosen)
    then have "chosen = name" using run settings by (simp add: place_def Let_def)
    then have v: "0 < ?v" "Schedule srt ?v ?m ?ex = Some name" using Some by (simp_all split: if_splits)
    obtain c where "classSpec = Some c" using v(1) by (cases classSpec) auto
    then show ?thesis
      using place_explicit [OF sort v(2)] v(1) settings by (fastforce simp: has_explicit_room_def)
  next
    case None
    let ?cs = "capacity_candidates oob cl fraction reserve ?v ?m (countRunningVMs allVMs) eligible"
    obtain cs where cs: "?cs = Inr cs" "cs \<noteq> []"
      "name = fst (hd (sort_slice srt candidate_before cs))"
      using run settings None name by (auto simp: place_def Let_def split: sum.splits if_splits)
    have "hd (sort_slice srt candidate_before cs) \<in> set cs"
      using slice_sort.sort_slice_hd(1) [OF sort candidate_order cs(2)] .
    then show ?thesis
      using capacity_candidates_elem [OF cs(1)] cs(3) settings by (fastforce simp: is_below_caps_def)
  qed
qed

definition eligible_nodes :: "ImpVM \<Rightarrow> ImpVMClassSpec option \<Rightarrow> node list \<Rightarrow> node list" where
  "eligible_nodes vm classSpec nodes =
     filterByTolerations (filterSchedulable (filterByNodeSelector nodes (vs_NodeSelector (vm_Spec vm))))
       (resolveTolerations vm classSpec)"

lemma set_eligible_nodes:
  "set (eligible_nodes vm classSpec nodes) = {n \<in> set nodes.
     matches_selector n (vs_NodeSelector (vm_Spec vm)) \<and> nodeIsSchedulable n \<and>
     nodeToleratedBy n (resolveTolerations vm classSpec)}"
  by (auto simp: eligible_nodes_def filterByNodeSelector_def filterSchedulable_def
      filterByTolerations_def matches_selector_def)

abbreviation class_of :: "vm_client \<Rightarrow> ImpVM \<Rightarrow> ImpVMClassSpec option" where
  "class_of cl vm \<equiv> (case resolveClassSpec cl vm of Inl _ \<Rightarrow> None | Inr cs \<Rightarrow> Some cs)"

lemma schedule_place:
  assumes "schedule srt oob cl vm = Inr name" and "name \<noteq> ''''"
  shows "\<exists>nodes allVMs. cl_nodes cl [(labelImpEnabled, ''true'')] = Inr nodes \<and> cl_vms cl = Inr allVMs \<and>
    place srt oob cl (class_of cl vm) allVMs (eligible_nodes vm (class_of cl vm) nodes) = Inr name"
proof (cases "cl_nodes cl [(labelImpEnabled, ''true'')]")
  case (Inr nodes)
  then show ?thesis
    using assms by (cases "cl_vms cl") (simp_all add: schedule_def Let_def eligible_nodes_def split: if_splits)
qed (use assms in \<open>simp add: schedule_def\<close>)

lemma schedulable_node:
  "nodeIsSchedulable n \<longleftrightarrow> \<not> nd_Unschedulable n \<and> isNodeReady n \<and>
     (\<forall>t\<in>{NodeMemoryPressure, NodeDiskPressure, NodePIDPressure}. (t, ConditionTrue) \<notin> set (nd_Conditions n))"
  by (auto simp: nodeIsSchedulable_def list_ex_iff)

definition example_node :: "string \<Rightarrow> node" where
  "example_node name = \<lparr>nd_Name = name, nd_Labels = [(labelImpEnabled, ''true''), (''zone'', ''a'')],
     nd_Taints = [\<lparr>ta_Key = ''gpu'', ta_Value = '''', ta_Effect = NoSchedule\<rparr>],
     nd_Unschedulable = False, nd_Conditions = [(NodeReady, ConditionTrue)],
     nd_AllocCPUMillis = 4000, nd_AllocMemBytes = 8589934592, nd_PodCIDRs = []\<rparr>"

definition example_vm :: ImpVM where
  "example_vm = upd_spec (\<lambda>s. s\<lparr>vs_NodeSelector := [(''zone'', ''a'')],
     vs_Tolerations := [\<lparr>to_Key = ''gpu'', to_Operator = OpExists, to_Value = '''', to_Effect = EffectUnset\<rparr>]\<rparr>)
     (upd_meta (\<lambda>m. m\<lparr>om_Finalizers := [''imp/finalizer'']\<rparr>) zero_vm)"

definition example_client :: vm_client where
  "example_client = \<lparr>cl_vm = \<lambda>_ _. Inr example_vm, cl_node = \<lambda>n. Inr (example_node n),
     cl_nodes = \<lambda>_. Inr [example_node ''n2'', example_node ''n1''], cl_vms = Inr [example_vm],
     cl_class = \<lambda>_. Inl NotFound, cl_template = \<lambda>_ _. Inl NotFound, cl_profile = \<lambda>_. Inl NotFound,
     cl_config = Inl NotFound, cl_pvc_owners = \<lambda>_. Inr []\<rparr>"

lemma example_schedule: "schedule insertion_sort (\<lambda>_. 0) example_client example_vm = Inr ''n1''"
  by code_simp

text \<open>C5. A VM is placed only where it may run: the node schedule returns is one of the enabled
  nodes, carries every label of the VM's node selector, is ready, not cordoned and under no
  memory, disk or PID pressure, and each of its NoSchedule and NoExecute taints, apart from the
  node.kubernetes.io ones, is tolerated by the VM or its class.\<close>

theorem schedule_sound:
  assumes "slice_sort srt" and "schedule srt oob cl vm = Inr name" and "name \<noteq> ''''"
  shows "\<exists>nodes node. cl_nodes cl [(labelImpEnabled, ''true'')] = Inr nodes \<and> node \<in> set nodes \<and>
    nd_Name node = name \<and>
    (\<forall>(k, v)\<in>set (vs_NodeSelector (vm_Spec vm)). str_get (nd_Labels node) k = v) \<and>
    isNodeReady node \<and> \<not> nd_Unschedulable node \<and>
    (\<forall>t\<in>{NodeMemoryPressure, NodeDiskPressure, NodePIDPressure}. (t, ConditionTrue) \<notin> set (nd_Conditions node)) \<and>
    (\<forall>taint\<in>set (nd_Taints node). ta_Effect taint \<noteq> PreferNoSchedule \<longrightarrow>
       has_prefix (ta_Key taint) ''node.kubernetes.io/'' \<or>
       (\<exists>t\<in>set (resolveTolerations vm (class_of cl vm)). tolerationMatchesTaint t taint))"
proof -
  obtain nodes allVMs where run: "cl_nodes cl [(labelImpEnabled, ''true'')] = Inr nodes"
    "place srt oob cl (class_of cl vm) allVMs (eligible_nodes vm (class_of cl vm) nodes) = Inr name"
    using schedule_place [OF assms(2,3)] by blast
  obtain node where node: "node \<in> set (eligible_nodes vm (class_of cl vm) nodes)" "nd_Name node = name"
    using place_room [OF assms(1) run(2) assms(3)] by blast
  then have "node \<in> set nodes" "matches_selector node (vs_NodeSelector (vm_Spec vm))"
    "nodeIsSchedulable node" "nodeToleratedBy node (resolveTolerations vm (class_of cl vm))"
    unfolding set_eligible_nodes by auto
  then show ?thesis
    using node(2) run(1) unfolding schedulable_node matches_selector_def nodeToleratedBy_def
      toleratesTaint_def list_all_iff list_ex_iff by blast
qed

theorem schedule_sound_witness:
  "schedule insertion_sort (\<lambda>_. 0) example_client example_vm = Inr ''n1'' \<and>
   (\<exists>nodes node. cl_nodes example_client [(labelImpEnabled, ''true'')] = Inr nodes \<and>
      node \<in> set nodes \<and> nd_Name node = ''n1'' \<and> isNodeReady node)"
  using schedule_sound [OF go_sort.slice_sort_axioms example_schedule] example_schedule by auto



section \<open>The least-loaded pick\<close>

lemma capacity_candidates_set:
  assumes "capacity_candidates oob cl fraction reserve v m counts nodes = Inr cs" and "node \<in> set nodes"
    and "below_caps oob fraction reserve v m
      (case cl_profile cl (nd_Name node) of Inl _ \<Rightarrow> None | Inr p \<Rightarrow> Some p) node
      (count_of counts (nd_Name node)) = Inr True"
  shows "(nd_Name node, count_of counts (nd_Name node)) \<in> set cs"
  using assms
  by (induction nodes arbitrary: cs)
    (auto simp: Let_def split: sum.splits if_splits bool.splits)

lemma no_explicit_nodes:
  "\<forall>n p. cl_profile cl n = Inr p \<longrightarrow> np_VCPUCapacity p = 0 \<Longrightarrow> explicit_nodes cl reserve used nodes = []"
  by (induction nodes) (auto split: sum.splits)

text \<open>Where no node states an explicit capacity, the pick is the least-loaded one and leaves
  nothing to chance: the chosen node is below its caps, and every other eligible node below its
  caps runs more VMs, or as many and has a later name. The result is therefore the same for
  every lawful sorting algorithm.\<close>

theorem schedule_least_loaded:
  assumes "slice_sort srt" and "schedule srt oob cl vm = Inr name" and "name \<noteq> ''''"
    and "\<forall>n p. cl_profile cl n = Inr p \<longrightarrow> np_VCPUCapacity p = 0"
    and "cl_nodes cl [(labelImpEnabled, ''true'')] = Inr nodes" and "cl_vms cl = Inr allVMs"
    and "node \<in> set (eligible_nodes vm (class_of cl vm) nodes)" and "nd_Name node \<noteq> name"
    and "is_below_caps oob cl (class_of cl vm) allVMs node"
  shows "count_of (countRunningVMs allVMs) name < count_of (countRunningVMs allVMs) (nd_Name node) \<or>
    count_of (countRunningVMs allVMs) name = count_of (countRunningVMs allVMs) (nd_Name node) \<and>
      name < nd_Name node"
proof -
  let ?el = "eligible_nodes vm (class_of cl vm) nodes"
  let ?count = "count_of (countRunningVMs allVMs)"
  obtain fraction reserve where settings: "capacity_settings cl = (fraction, reserve)" by fastforce
  have "place srt oob cl (class_of cl vm) allVMs ?el = Inr name"
    using schedule_place [OF assms(2,3)] assms(5,6) by auto
  then obtain cs where cs: "capacity_candidates oob cl fraction reserve
      (case class_of cl vm of None \<Rightarrow> 0 | Some c \<Rightarrow> cs_VCPU c)
      (case class_of cl vm of None \<Rightarrow> 0 | Some c \<Rightarrow> cs_MemoryMiB c) (countRunningVMs allVMs) ?el = Inr cs"
      "cs \<noteq> []" "name = fst (hd (sort_slice srt candidate_before cs))"
    using settings assms(3) no_explicit_nodes [OF assms(4)]
    by (auto simp: place_def Let_def split: sum.splits if_splits)
  note first = slice_sort.sort_slice_hd [OF assms(1) candidate_order cs(2)]
  have hd: "hd (sort_slice srt candidate_before cs) = (name, ?count name)"
    using capacity_candidates_elem [OF cs(1) first(1)] cs(3) by auto
  have "(nd_Name node, ?count (nd_Name node)) \<in> set cs"
    using capacity_candidates_set [OF cs(1) assms(7)] assms(9) settings by (simp add: is_below_caps_def)
  then have "\<not> candidate_before (nd_Name node, ?count (nd_Name node)) (name, ?count name)"
    using first(2) hd by metis
  then show ?thesis using assms(8) by (auto simp: candidate_before_def split: if_splits)
qed

lemma example_least_loaded:
  "cl_nodes example_client [(labelImpEnabled, ''true'')] = Inr [example_node ''n2'', example_node ''n1'']"
  "cl_vms example_client = Inr [example_vm]"
  "list_ex (\<lambda>n. nd_Name n = ''n2'') (eligible_nodes example_vm (class_of example_client example_vm)
     [example_node ''n2'', example_node ''n1''])"
  "is_below_caps (\<lambda>_. 0) example_client (class_of example_client example_vm) [example_vm] (example_node ''n2'')"
  by code_simp+

theorem schedule_least_loaded_witness:
  "count_of (countRunningVMs [example_vm]) ''n1'' < count_of (countRunningVMs [example_vm]) ''n2'' \<or>
   count_of (countRunningVMs [example_vm]) ''n1'' = count_of (countRunningVMs [example_vm]) ''n2'' \<and>
     ''n1'' < ''n2''"
proof -
  have "example_node ''n2'' \<in> set (eligible_nodes example_vm (class_of example_client example_vm)
      [example_node ''n2'', example_node ''n1''])"
    using example_least_loaded(3) by (auto simp: list_ex_iff set_eligible_nodes example_node_def)
  then show ?thesis
    using schedule_least_loaded [OF go_sort.slice_sort_axioms example_schedule _ _
        example_least_loaded(1,2) _ _ example_least_loaded(4)]
    by (simp add: example_client_def example_node_def)
qed

section \<open>Usage accounting\<close>

lemma wrap32_add [simp]: "wrap32 (wrap32 a + b) = wrap32 (a + b)"
  by (metis signed_take_bit_add signed_take_bit_signed_take_bit min.idem wrap32_def)

lemma wrap64_add [simp]: "wrap64 (wrap64 a + b) = wrap64 (a + b)"
  by (metis signed_take_bit_add signed_take_bit_signed_take_bit min.idem wrap64_def)

lemma wrap_0 [simp]: "wrap32 0 = 0" "wrap64 0 = 0"
  by (simp_all add: wrap32_def wrap64_def)

text \<open>The VMs that hold a claim on a node, and their classes.\<close>

definition claims :: "vm_client \<Rightarrow> string \<Rightarrow> ImpVM \<Rightarrow> ImpVMClassSpec option" where
  "claims cl n vm =
     (if vm_phase vm \<in> {VMPhaseFailed, VMPhaseSucceeded, VMPhaseTerminating} \<or> vm_node vm \<noteq> n then None
      else case resolveClassSpec cl vm of Inl _ \<Rightarrow> None | Inr spec \<Rightarrow> Some spec)"

definition claimed :: "vm_client \<Rightarrow> string \<Rightarrow> (ImpVM \<Rightarrow> bool) \<Rightarrow> (ImpVMClassSpec \<Rightarrow> int) \<Rightarrow> ImpVM list \<Rightarrow> int" where
  "claimed cl n P f vms =
     sum_list (map (\<lambda>vm. case claims cl n vm of None \<Rightarrow> 0 | Some spec \<Rightarrow> f spec) (filter P vms))"

definition usage_ok :: "nodeResourceUsage \<Rightarrow> bool" where
  "usage_ok u \<longleftrightarrow> wrap32 (residentVCPU u) = residentVCPU u \<and> wrap64 (residentMem u) = residentMem u \<and>
     wrap32 (reservedVCPU u) = reservedVCPU u \<and> wrap64 (reservedMem u) = reservedMem u"

lemma wrap_wrap [simp]: "wrap32 (wrap32 a) = wrap32 a" "wrap64 (wrap64 a) = wrap64 a"
  by (simp_all add: wrap32_def wrap64_def)

lemma sum_used_claims:
  assumes "n \<noteq> ''''" and "usage_ok (usage_of result n)"
  shows "usage_of (sum_used cl vms result) n =
    \<lparr>residentVCPU = wrap32 (residentVCPU (usage_of result n) +
       claimed cl n (\<lambda>vm. vm_phase vm \<noteq> VMPhaseSuspended) cs_VCPU vms),
     residentMem = wrap64 (residentMem (usage_of result n) +
       claimed cl n (\<lambda>vm. vm_phase vm \<noteq> VMPhaseSuspended) cs_MemoryMiB vms),
     reservedVCPU = wrap32 (reservedVCPU (usage_of result n) + claimed cl n (\<lambda>_. True) cs_VCPU vms),
     reservedMem = wrap64 (reservedMem (usage_of result n) + claimed cl n (\<lambda>_. True) cs_MemoryMiB vms)\<rparr>"
  using assms(2)
proof (induction vms arbitrary: result)
  case Nil
  then show ?case by (cases "usage_of result n") (simp add: usage_ok_def claimed_def)
next
  case (Cons vm vms)
  define r where "r = (if vm_phase vm \<in> {VMPhaseFailed, VMPhaseSucceeded, VMPhaseTerminating} \<or> vm_node vm = ''''
     then result
     else case resolveClassSpec cl vm of Inl _ \<Rightarrow> result | Inr spec \<Rightarrow>
       result(vm_node vm \<mapsto> add_usage spec (vm_phase vm \<noteq> VMPhaseSuspended) (usage_of result (vm_node vm))))"
  have step: "usage_of r n = (case claims cl n vm of None \<Rightarrow> usage_of result n
      | Some spec \<Rightarrow> add_usage spec (vm_phase vm \<noteq> VMPhaseSuspended) (usage_of result n))"
    using assms(1) by (auto simp: r_def claims_def usage_of_def split: sum.splits)
  have ok: "usage_ok (usage_of r n)"
    using Cons.prems by (simp add: step usage_ok_def add_usage_def Let_def split: option.splits)
  have run: "usage_of (sum_used cl (vm # vms) result) n = usage_of (sum_used cl vms r) n"
    by (simp add: r_def)
  show ?case
    unfolding run Cons.IH [OF ok] step
    by (cases "claims cl n vm") (simp_all add: claimed_def add_usage_def Let_def ac_simps)
qed

text \<open>C7. The usage table accounts for the VMs on a node: reserved usage is the sum over the VMs
  that are placed there and neither Failed, Succeeded nor Terminating; resident usage leaves out
  the Suspended ones as well, so that suspending a VM frees schedulable capacity. Sums are int32
  for CPUs and int64 for memory.\<close>

theorem sumUsedResources_accounts:
  assumes "n \<noteq> ''''"
  shows "usage_of (sumUsedResources cl vms) n =
    \<lparr>residentVCPU = wrap32 (claimed cl n (\<lambda>vm. vm_phase vm \<noteq> VMPhaseSuspended) cs_VCPU vms),
     residentMem = wrap64 (claimed cl n (\<lambda>vm. vm_phase vm \<noteq> VMPhaseSuspended) cs_MemoryMiB vms),
     reservedVCPU = wrap32 (claimed cl n (\<lambda>_. True) cs_VCPU vms),
     reservedMem = wrap64 (claimed cl n (\<lambda>_. True) cs_MemoryMiB vms)\<rparr>"
proof -
  have empty: "usage_of Map.empty n = no_usage" by (simp add: usage_of_def)
  have "usage_ok (usage_of Map.empty n)" by (simp add: empty usage_ok_def no_usage_def)
  from sum_used_claims [OF assms this, of cl vms] show ?thesis
    by (simp add: sumUsedResources_def empty no_usage_def)
qed

definition example_class_client :: vm_client where
  "example_class_client = example_client\<lparr>cl_class := \<lambda>_. Inr \<lparr>cs_VCPU = 2, cs_MemoryMiB = 1024,
     cs_DiskGiB = 10, cs_Arch = ArchUnset, cs_Probes = None, cs_GuestAgent = None,
     cs_RestartPolicy = None, cs_Tolerations = []\<rparr>\<rparr>"

definition example_placed :: "VMPhase \<Rightarrow> ImpVM" where
  "example_placed ph = set_phase ph (upd_spec (\<lambda>s. s\<lparr>vs_ClassRef := Some ''small'', vs_NodeName := ''n1''\<rparr>) zero_vm)"

theorem sumUsedResources_accounts_witness:
  "usage_of (sumUsedResources example_class_client
      [example_placed VMPhaseRunning, example_placed VMPhaseSuspended, example_placed VMPhaseFailed]) ''n1'' =
   \<lparr>residentVCPU = 2, residentMem = 1024, reservedVCPU = 4, reservedMem = 2048\<rparr>"
  using sumUsedResources_accounts [of "''n1''" example_class_client
      "[example_placed VMPhaseRunning, example_placed VMPhaseSuspended, example_placed VMPhaseFailed]"]
  by (simp add: claimed_def claims_def example_placed_def zero_vm_def resolveClassSpec_def
      example_class_client_def wrap_simps)

end
