(* ===== verification/ImpVM_Controller.thy ===== *)
theory ImpVM_Controller
  imports Restart Scheduler
begin

text \<open>
  The reconciler of ImpVM objects (impvm\_controller.go): deletion and the finalizer handshake
  with the node agent, the reference check, scheduling, expiry, restarts and the status
  synchronisation with its reaction to a lost node.

  \<open>vm_env\<close> holds what the reconciler is given: the API server for reads and writes, the sorting
  algorithm, the float conversion, the HTTP client, the trace context of the running span and
  the clock. A reconcile reads the clock once.
\<close>

record vm_env =
  env_srv :: vm_server
  env_client :: vm_client
  env_sort :: sorter
  env_oob :: "float64 \<Rightarrow> int"
  env_http :: http_client
  env_trace :: "string \<times> string"
  env_now :: int

section \<open>Finalizers and tracing\<close>

definition finalizerImp :: string where
  "finalizerImp = ''imp/finalizer''"

definition ContainsFinalizer :: "ImpVM \<Rightarrow> string \<Rightarrow> bool" where
  "ContainsFinalizer vm f = (f \<in> set (om_Finalizers (vm_Meta vm)))"

definition AddFinalizer :: "string \<Rightarrow> ImpVM \<Rightarrow> ImpVM" where
  "AddFinalizer f vm =
     (if ContainsFinalizer vm f then vm
      else upd_meta (\<lambda>m. m\<lparr>om_Finalizers := om_Finalizers m @ [f]\<rparr>) vm)"

definition RemoveFinalizer :: "string \<Rightarrow> ImpVM \<Rightarrow> ImpVM" where
  "RemoveFinalizer f = upd_meta (\<lambda>m. m\<lparr>om_Finalizers := removeAll f (om_Finalizers m)\<rparr>)"

text \<open>tracing.InjectToVM with the carrier the propagator filled: a parent and a state.\<close>

definition InjectToVM :: "string \<times> string \<Rightarrow> ImpVM \<Rightarrow> ImpVM" where
  "InjectToVM carrier vm =
     (if fst carrier = '''' then vm
      else let vm = set_annotation ''imp.dev/trace-context'' (fst carrier) vm in
        if snd carrier \<noteq> '''' then set_annotation ''imp.dev/trace-state'' (snd carrier) vm else vm)"

section \<open>Deletion\<close>

definition terminationTimeout :: int where
  "terminationTimeout = seconds 120"

definition handleDeletion :: "vm_env \<Rightarrow> ImpVM \<Rightarrow> int \<Rightarrow> ctrl_result vm_io" where
  "handleDeletion env vm deletedAt =
     (let srv = env_srv env;
          release = and_then (send srv (PatchVM vm (RemoveFinalizer finalizerImp vm))) (\<lambda>_. ret no_requeue);
          statusNode = vt_NodeName (vm_Status vm) in
      if \<not> ContainsFinalizer vm finalizerImp then ret no_requeue
      else if statusNode = '''' \<and> vm_node vm = '''' then release
      else if deletedAt + terminationTimeout < env_now env then
        and_then (emit (VMEvent EventWarning ''TerminationTimeout''
            ''Finalizer force-removed after 2min termination timeout'')) (\<lambda>_. release)
      else if statusNode = '''' \<and> vm_phase vm = VMPhaseTerminating then release
      else
        and_then
          (when_io (statusNode = '''' \<or> vm_phase vm \<noteq> VMPhaseTerminating)
            (let vm1 = (if statusNode = '''' then set_status_node (vm_node vm) vm else vm) in
             and_then (send srv (PatchVMStatus vm (set_phase VMPhaseTerminating vm1))) (\<lambda>_.
             emit (VMEvent EventNormal ''Terminating'' ''Waiting for agent to stop VM''))))
          (\<lambda>_. ret (requeue_after (seconds 5))))"

section \<open>Expiry\<close>

text \<open>The result is the time left, whether the VM was deleted, and the object to go on with.\<close>

definition expired :: "ImpVM \<Rightarrow> (int \<times> bool \<times> ImpVM) vm_io" where
  "expired vm = and_then (emit (VMEvent EventNormal ''Expired'' ''VM expired and was deleted''))
     (\<lambda>_. ret (0, True, vm))"

definition check_expired :: "vm_env \<Rightarrow> ImpVM \<Rightarrow> (int \<times> bool \<times> ImpVM) vm_io" where
  "check_expired env vm =
     (case vt_ExpiresAt (vm_Status vm) of
        None \<Rightarrow> fail (Panic ''nil pointer dereference'')
      | Some expiresAt \<Rightarrow>
          let remaining = time_sub expiresAt (env_now env) in
          if remaining \<le> 0 then
            and_then (try_send (env_srv env) (DeleteVM vm)) (\<lambda>err.
              case err of
                Some e \<Rightarrow> if e = NotFound then expired vm else fail (Api e)
              | None \<Rightarrow> expired vm)
          else ret (remaining, False, vm))"

definition reconcileExpiry :: "vm_env \<Rightarrow> ImpVM \<Rightarrow> (int \<times> bool \<times> ImpVM) vm_io" where
  "reconcileExpiry env vm =
     (let srv = env_srv env in
      case (case vs_ExpireAfter (vm_Spec vm) of None \<Rightarrow> None | Some d \<Rightarrow> if d \<le> 0 then None else Some d) of
        None \<Rightarrow>
          if vt_ExpiresAt (vm_Status vm) = None then ret (0, False, vm)
          else and_then (send srv (PatchVMStatus vm (upd_status (\<lambda>s. s\<lparr>vt_ExpiresAt := None\<rparr>) vm)))
                 (\<lambda>vm. ret (0, False, vm))
      | Some d \<Rightarrow>
          (case vt_RunningAt (vm_Status vm) of
             None \<Rightarrow> ret (0, False, vm)
           | Some runningAt \<Rightarrow>
               and_then
                 (if vt_ExpiresAt (vm_Status vm) = None
                  then send srv (PatchVMStatus vm (upd_status (\<lambda>s. s\<lparr>vt_ExpiresAt := Some (runningAt + d)\<rparr>) vm))
                  else ret vm)
                 (check_expired env)))"

section \<open>Status synchronisation\<close>

definition clearSuspendState :: "ImpVM \<Rightarrow> ImpVM" where
  "clearSuspendState = upd_status (\<lambda>s. s\<lparr>vt_SuspendSnapshotPath := '''', vt_SuspendedAt := None\<rparr>)"

definition hasPVCAttached :: "vm_client \<Rightarrow> ImpVM \<Rightarrow> api_error + bool" where
  "hasPVCAttached cl vm =
     (case cl_pvc_owners cl (vm_namespace vm) of
        Inl e \<Rightarrow> Inl e
      | Inr pvcs \<Rightarrow> Inr (list_ex (\<lambda>refs. list_ex (\<lambda>uid. uid = om_UID (vm_Meta vm)) refs) pvcs))"

definition globalHTTPCheck :: "vm_client \<Rightarrow> HTTPCheckSpec option" where
  "globalHTTPCheck cl = (case cl_config cl of Inl _ \<Rightarrow> None | Inr cfg \<Rightarrow> cf_DefaultHttpCheck cfg)"

text \<open>The assignment is cleared in the spec first, then in the status.\<close>

definition lost_status :: "int \<Rightarrow> string \<Rightarrow> ImpVM \<Rightarrow> ImpVM" where
  "lost_status now reason vm =
     clearSuspendState (setUnscheduled now (set_phase VMPhasePending
       (set_status_node '''' (setNodeUnhealthy now reason vm))))"

definition reschedule_lost :: "vm_env \<Rightarrow> ImpVM \<Rightarrow> string \<Rightarrow> string \<Rightarrow> ctrl_result vm_io" where
  "reschedule_lost env vm reason msg =
     and_then (send (env_srv env) (PatchVM vm (set_node '''' vm))) (\<lambda>vm.
     and_then (send (env_srv env) (PatchVMStatus vm (lost_status (env_now env) reason vm))) (\<lambda>_.
     and_then (emit (VMEvent EventNormal ''Rescheduling'' msg)) (\<lambda>_.
     ret no_requeue)))"

definition node_lost :: "vm_env \<Rightarrow> ImpVM \<Rightarrow> string \<Rightarrow> ctrl_result vm_io" where
  "node_lost env vm reason =
     (if vs_Lifecycle (vm_Spec vm) = VMLifecycleEphemeral
      then reschedule_lost env vm reason ''Ephemeral VM rescheduled after node loss''
      else
        and_then (if vs_RescheduleOnNodeLoss (vm_Spec vm) then lift (hasPVCAttached (env_client env) vm)
                  else ret True) (\<lambda>keep.
        if \<not> keep
        then reschedule_lost env vm reason ''Persistent VM rescheduled after node loss (no PVC attached)''
        else
          and_then (send (env_srv env) (PatchVMStatus vm
              (set_phase VMPhaseFailed (setNodeUnhealthy (env_now env) reason vm)))) (\<lambda>_.
          and_then (emit (VMEvent EventWarning ''NodeLost''
              ''Assigned node lost; persistent VM marked Failed'')) (\<lambda>_.
          ret no_requeue))))"

text \<open>The part of the healthy branch before the patches: conditions, the Running timestamp and the
  health check. The result tells whether annotations changed.\<close>

definition healthy_update :: "vm_env \<Rightarrow> ImpVM \<Rightarrow> (bool \<times> ImpVM) vm_io" where
  "healthy_update env vm =
     (let now = env_now env;
          vm = setScheduled now (vm_node vm) (setNodeHealthy now vm) in
      if vm_phase vm = VMPhaseRunning then
        let vm = (if vt_RunningAt (vm_Status vm) = None
                  then upd_status (\<lambda>s. s\<lparr>vt_RunningAt := Some now\<rparr>) vm else vm) in
        (case resolveHTTPCheck vm (globalHTTPCheck (env_client env)) of
           Some httpSpec \<Rightarrow> applyHTTPCheck (env_http env) now vm httpSpec
         | None \<Rightarrow> ret (False, setReadyFromPhase now vm))
      else ret (False, setReadyFromPhase now vm))"

definition node_healthy :: "vm_env \<Rightarrow> ImpVM \<Rightarrow> ctrl_result vm_io" where
  "node_healthy env base =
     and_then (healthy_update env base) (\<lambda>(annotationChanged, vm).
     and_then (send (env_srv env) (PatchVMStatus base vm)) (\<lambda>vm.
     and_then (if annotationChanged then send (env_srv env) (PatchVM base vm) else ret vm) (\<lambda>vm.
     ret (if vm_phase vm = VMPhaseRunning then no_requeue else requeue_after (seconds 10)))))"

definition syncStatus :: "vm_env \<Rightarrow> ImpVM \<Rightarrow> ctrl_result vm_io" where
  "syncStatus env vm =
     (case cl_node (env_client env) (vm_node vm) of
        Inl e \<Rightarrow> if e = NotFound then node_lost env vm ''node not found'' else fail (Api e)
      | Inr node \<Rightarrow> if isNodeReady node then node_healthy env vm
                    else node_lost env vm ''node is not Ready'')"

section \<open>Reconcile\<close>

definition reconcile_invalid :: "vm_env \<Rightarrow> ImpVM \<Rightarrow> string \<Rightarrow> ctrl_result vm_io" where
  "reconcile_invalid env vm msg =
     (let alreadyMarked = (vm_phase vm = VMPhaseFailed \<and> hasSpecInvalidCondition vm msg) in
      and_then
        (when_io (\<not> alreadyMarked)
          (and_then (send (env_srv env) (PatchVMStatus vm
              (setCondition (env_now env) ConditionReady ConditionFalse EventReasonSpecInvalid msg
                (setCondition (env_now env) ConditionScheduled ConditionFalse EventReasonSpecInvalid msg
                  (set_phase VMPhaseFailed vm))))) (\<lambda>_.
           emit (VMEvent EventWarning EventReasonSpecInvalid msg))))
        (\<lambda>_. ret no_requeue))"

definition assign_node :: "vm_env \<Rightarrow> ImpVM \<Rightarrow> string \<Rightarrow> ctrl_result vm_io" where
  "assign_node env vm nodeName =
     and_then (send (env_srv env) (PatchVM vm (InjectToVM (env_trace env) (set_node nodeName vm)))) (\<lambda>vm.
     and_then (send (env_srv env) (PatchVMStatus vm
         (let vm1 = setScheduled (env_now env) nodeName (set_phase VMPhaseScheduled (set_status_node nodeName vm)) in
          if vt_ScheduledAt (vm_Status vm1) = None
          then upd_status (\<lambda>s. s\<lparr>vt_ScheduledAt := Some (env_now env)\<rparr>) vm1 else vm1))) (\<lambda>_.
     and_then (emit (VMEvent EventNormal ''Scheduled'' (''VM scheduled to node '' @ nodeName))) (\<lambda>_.
     ret no_requeue)))"

definition reconcile_unassigned :: "vm_env \<Rightarrow> ImpVM \<Rightarrow> ctrl_result vm_io" where
  "reconcile_unassigned env vm =
     (case schedule (env_sort env) (env_oob env) (env_client env) vm of
        Inl e \<Rightarrow> fail e
      | Inr nodeName \<Rightarrow>
          if nodeName = '''' then
            and_then (send (env_srv env) (PatchVMStatus vm
                (setUnscheduled (env_now env) (set_phase VMPhasePending vm)))) (\<lambda>_.
            and_then (emit (VMEvent EventWarning ''Unschedulable''
                ''No eligible node with available capacity'')) (\<lambda>_.
            ret (requeue_after (seconds 30))))
          else assign_node env vm nodeName)"

definition earliest_requeue :: "int \<Rightarrow> ctrl_result \<Rightarrow> ctrl_result" where
  "earliest_requeue expiry result =
     (if 0 < expiry \<and> (RequeueAfter result = 0 \<or> expiry < RequeueAfter result)
      then result\<lparr>RequeueAfter := expiry\<rparr> else result)"

definition reconcile_assigned :: "vm_env \<Rightarrow> ImpVM \<Rightarrow> ctrl_result vm_io" where
  "reconcile_assigned env vm =
     and_then (reconcileExpiry env vm) (\<lambda>(expiryRequeueAfter, done, vm).
     if done then ret no_requeue
     else
       and_then (if vm_phase vm = VMPhaseFailed then handleFailed (env_srv env) (env_now env) vm
                 else syncStatus env vm) (\<lambda>result.
       ret (earliest_requeue expiryRequeueAfter result)))"

definition reconcile_vm :: "vm_env \<Rightarrow> ImpVM \<Rightarrow> ctrl_result vm_io" where
  "reconcile_vm env vm =
     (case om_DeletionTimestamp (vm_Meta vm) of
        Some deletedAt \<Rightarrow> handleDeletion env vm deletedAt
      | None \<Rightarrow>
          if \<not> ContainsFinalizer vm finalizerImp then
            and_then (send (env_srv env) (PatchVM vm (AddFinalizer finalizerImp vm))) (\<lambda>_. ret no_requeue)
          else if get_annotation vm AnnotationResetRetries = ''true'' then handleResetRetries (env_srv env) vm
          else case validateImpVMSpecRefs vm of
                 Some msg \<Rightarrow> reconcile_invalid env vm msg
               | None \<Rightarrow> if vm_node vm = '''' then reconcile_unassigned env vm
                         else reconcile_assigned env vm)"

definition Reconcile :: "vm_env \<Rightarrow> string \<Rightarrow> string \<Rightarrow> ctrl_result vm_io" where
  "Reconcile env namespace name =
     (case cl_vm (env_client env) namespace name of
        Inl e \<Rightarrow> if e = NotFound then ret no_requeue else fail (Api e)
      | Inr vm \<Rightarrow> reconcile_vm env vm)"

text \<open>A node event wakes the VMs assigned to that node.\<close>

definition nodeToImpVMs :: "vm_client \<Rightarrow> string \<Rightarrow> (string \<times> string) list" where
  "nodeToImpVMs cl nodeName =
     (case cl_vms cl of
        Inl _ \<Rightarrow> []
      | Inr vms \<Rightarrow> map (\<lambda>vm. (vm_namespace vm, vm_name vm)) (filter (\<lambda>vm. vm_node vm = nodeName) vms))"

section \<open>What a reconcile may write\<close>

text \<open>The phases the operator enters; the others are the node agent's.\<close>

definition operator_transition :: "VMPhase \<Rightarrow> VMPhase \<Rightarrow> bool" where
  "operator_transition p q \<longleftrightarrow> q = p \<or>
     q \<in> {VMPhasePending, VMPhaseScheduled, VMPhaseFailed, VMPhaseTerminating} \<or>
     p = VMPhaseFailed \<and> q = VMPhaseRetryExhausted"

text \<open>The three ways out of the finalizer handshake.\<close>

definition may_release :: "vm_env \<Rightarrow> ImpVM \<Rightarrow> bool" where
  "may_release env vm \<longleftrightarrow> (\<exists>t. om_DeletionTimestamp (vm_Meta vm) = Some t \<and>
     (vt_NodeName (vm_Status vm) = '''' \<and> vm_node vm = '''' \<or>
      vt_NodeName (vm_Status vm) = '''' \<and> vm_phase vm = VMPhaseTerminating \<or>
      t + terminationTimeout < env_now env))"

definition expiry_reached :: "vm_env \<Rightarrow> ImpVM \<Rightarrow> bool" where
  "expiry_reached env vm \<longleftrightarrow> (\<exists>d t. vs_ExpireAfter (vm_Spec vm) = Some d \<and> 0 < d \<and>
     vt_RunningAt (vm_Status vm) = Some t \<and>
     (case vt_ExpiresAt (vm_Status vm) of None \<Rightarrow> t + d | Some x \<Rightarrow> x) \<le> env_now env)"

definition keeps_finalizer :: "ImpVM \<Rightarrow> ImpVM \<Rightarrow> bool" where
  "keeps_finalizer b obj \<longleftrightarrow> (ContainsFinalizer b finalizerImp \<longrightarrow> ContainsFinalizer obj finalizerImp)"

fun op_write :: "vm_env \<Rightarrow> ImpVM \<Rightarrow> vm_effect \<Rightarrow> bool" where
  "op_write env vm (PatchVM b obj) =
     (vm_Spec obj = (vm_Spec b)\<lparr>vs_NodeName := vm_node obj\<rparr> \<and>
      (vm_node obj \<noteq> vm_node b \<longrightarrow> vm_node obj = '''' \<or> vm_node b = '''' \<and>
         schedule (env_sort env) (env_oob env) (env_client env) vm = Inr (vm_node obj)) \<and>
      (keeps_finalizer b obj \<or> b = vm \<and> may_release env vm))"
| "op_write env vm (PatchVMStatus b obj) =
     (vm_Spec obj = vm_Spec b \<and> operator_transition (vm_phase b) (vm_phase obj))"
| "op_write env vm (DeleteVM obj) = (vm_Spec obj = vm_Spec vm \<and> expiry_reached env vm)"
| "op_write env vm (VMEvent _ _ _) = True"
| "op_write env vm (RestartingEvent _ _ _) = True"

lemma spec_same_node [simp]: "s\<lparr>vs_NodeName := vs_NodeName s\<rparr> = s"
  by simp

lemma finalizer_simps [simp]:
  "vm_Spec (RemoveFinalizer f vm) = vm_Spec vm" "vm_Spec (AddFinalizer f vm) = vm_Spec vm"
  "ContainsFinalizer (AddFinalizer f vm) f" "\<not> ContainsFinalizer (RemoveFinalizer f vm) f"
  "ContainsFinalizer (set_node n vm) f = ContainsFinalizer vm f"
  "ContainsFinalizer (set_annotation k v vm) f = ContainsFinalizer vm f"
  "ContainsFinalizer (del_annotation k vm) f = ContainsFinalizer vm f"
  "ContainsFinalizer (setCondition now t st r m vm) f = ContainsFinalizer vm f"
  "ContainsFinalizer (status_answer b vm) f = ContainsFinalizer vm f"
  "ContainsFinalizer (upd_status g vm) f = ContainsFinalizer vm f"
  by (simp_all add: RemoveFinalizer_def AddFinalizer_def ContainsFinalizer_def set_annotation_def
      del_annotation_def status_answer_def)

lemma inject_simps [simp]:
  "vm_Spec (InjectToVM c vm) = vm_Spec vm" "vm_Status (InjectToVM c vm) = vm_Status vm"
  "ContainsFinalizer (InjectToVM c vm) f = ContainsFinalizer vm f"
  by (simp_all add: InjectToVM_def Let_def)

lemma deletion_writes:
  assumes "om_DeletionTimestamp (vm_Meta vm) = Some t"
  shows "io_ok (op_write env vm) (\<lambda>_. True) (handleDeletion env vm t)"
  using assms unfolding handleDeletion_def Let_def
  by (auto intro!: io_rules simp: may_release_def operator_transition_def)

text \<open>The health check and the condition updates leave everything else alone.\<close>

definition sync_frame :: "ImpVM \<Rightarrow> ImpVM \<Rightarrow> bool" where
  "sync_frame vm vm' \<longleftrightarrow> vm_Spec vm' = vm_Spec vm \<and> vm_phase vm' = vm_phase vm \<and>
     vt_NodeName (vm_Status vm') = vt_NodeName (vm_Status vm) \<and>
     vt_RestartCount (vm_Status vm') = vt_RestartCount (vm_Status vm) \<and>
     (ContainsFinalizer vm' finalizerImp \<longleftrightarrow> ContainsFinalizer vm finalizerImp)"

fun is_event :: "vm_effect \<Rightarrow> bool" where
  "is_event (VMEvent _ _ _) = True"
| "is_event _ = False"

lemma sync_frame_intros [simp, intro]:
  "sync_frame vm vm"
  "sync_frame vm vm' \<Longrightarrow> sync_frame vm (setCondition now t st r m vm')"
  "sync_frame vm vm' \<Longrightarrow> sync_frame vm (set_annotation k v vm')"
  "sync_frame vm vm' \<Longrightarrow> sync_frame vm (upd_status (\<lambda>s. s\<lparr>vt_RunningAt := x\<rparr>) vm')"
  by (simp_all add: sync_frame_def)

lemma sync_frame_ready [simp, intro]: "sync_frame vm vm' \<Longrightarrow> sync_frame vm (setReadyFromPhase now vm')"
  by (rule setReadyFromPhase_cases [of now vm']) simp

lemma applyHTTPCheck_frame:
  "sync_frame vm vm' \<Longrightarrow> io_ok is_event (\<lambda>(_, vm''). sync_frame vm vm'') (applyHTTPCheck http now vm' spec)"
  unfolding applyHTTPCheck_def
  by (auto simp: Let_def split: prod.split intro!: io_rules)

lemma healthy_update_frame: "io_ok is_event (\<lambda>(_, vm'). sync_frame vm vm') (healthy_update env vm)"
  unfolding healthy_update_def Let_def condition_setters
  by (auto split: option.split intro!: io_ok_ret applyHTTPCheck_frame)

lemma event_op_write: "is_event e \<Longrightarrow> op_write env vm e"
  by (cases e) simp_all

lemma node_healthy_writes:
  assumes "quiet_api (env_srv env)"
  shows "io_ok (op_write env vm0) (\<lambda>_. True) (node_healthy env vm)"
  unfolding node_healthy_def
proof (rule io_ok_then [OF io_ok_weaken [OF healthy_update_frame event_op_write]], assumption, assumption)
  fix x :: "bool \<times> ImpVM"
  assume x: "case x of (_, vm') \<Rightarrow> sync_frame vm vm'"
  obtain changed vm' where split: "x = (changed, vm')" by (cases x)
  then have frame: "sync_frame vm vm'" using x by simp
  have status: "io_ok (op_write env vm0) (\<lambda>r. r = status_answer vm vm') (send (env_srv env) (PatchVMStatus vm vm'))"
    using frame by (intro quiet_api.io_ok_patch_status [OF assms])
      (simp_all add: sync_frame_def operator_transition_def)
  show "io_ok (op_write env vm0) (\<lambda>_. True) (case x of (annotationChanged, vm') \<Rightarrow>
      and_then (send (env_srv env) (PatchVMStatus vm vm')) (\<lambda>vm'.
      and_then (if annotationChanged then send (env_srv env) (PatchVM vm vm') else ret vm') (\<lambda>vm.
      ret (if vm_phase vm = VMPhaseRunning then no_requeue else requeue_after (seconds 10)))))"
    unfolding split prod.case
    using frame
    by (auto intro!: io_ok_then [OF status] io_rules
        simp: sync_frame_def keeps_finalizer_def)
qed

lemma node_lost_writes: "io_ok (op_write env vm0) (\<lambda>_. True) (node_lost env vm reason)"
  unfolding node_lost_def reschedule_lost_def
  by (auto intro!: io_rules simp: keeps_finalizer_def operator_transition_def lost_status_def
      clearSuspendState_def condition_setters)

lemma handleFailed_op_writes:
  assumes "vm_phase vm = VMPhaseFailed"
  shows "io_ok (op_write env vm0) (\<lambda>_. True) (handleFailed srv now vm)"
proof (cases "vs_RestartPolicy (vm_Spec vm)")
  case None
  then show ?thesis by (simp add: handleFailed_def io_rules)
next
  case (Some p)
  have exhausted: "io_ok (op_write env vm0) (\<lambda>_. True) (handleExhausted srv now vm p)"
    unfolding handleExhausted_def Let_def
    using assms by (auto intro!: io_rules simp: operator_transition_def clear_retries_def
        split: option.split)
  show ?thesis
    unfolding handleFailed_def Let_def Some option.case
    by (auto intro!: exhausted io_rules simp: keeps_finalizer_def operator_transition_def)
qed

lemma syncStatus_writes:
  assumes "quiet_api (env_srv env)"
  shows "io_ok (op_write env vm0) (\<lambda>_. True) (syncStatus env vm)"
  unfolding syncStatus_def
  by (auto intro!: io_rules node_lost_writes node_healthy_writes [OF assms] split: sum.split)

text \<open>Expiry hands on the object with at most its expiry time changed.\<close>

definition expiry_frame :: "ImpVM \<Rightarrow> ImpVM \<Rightarrow> bool" where
  "expiry_frame vm vm' \<longleftrightarrow> vm_Meta vm' = vm_Meta vm \<and> vm_Spec vm' = vm_Spec vm \<and>
     vm_Status vm' = (vm_Status vm)\<lparr>vt_ExpiresAt := vt_ExpiresAt (vm_Status vm')\<rparr>"

lemma expiry_frame_refl [simp]: "expiry_frame vm vm"
  by (simp add: expiry_frame_def)

lemma expiry_frame_upd [simp]: "expiry_frame vm (upd_status (\<lambda>s. s\<lparr>vt_ExpiresAt := x\<rparr>) vm)"
  by (simp add: expiry_frame_def)

lemma reconcileExpiry_writes:
  assumes "quiet_api (env_srv env)"
  shows "io_ok (op_write env vm) (\<lambda>(_, _, vm'). expiry_frame vm vm') (reconcileExpiry env vm)"
proof -
  have patch: "io_ok (op_write env vm) (\<lambda>r. r = upd_status (\<lambda>s. s\<lparr>vt_ExpiresAt := x\<rparr>) vm)
      (send (env_srv env) (PatchVMStatus vm (upd_status (\<lambda>s. s\<lparr>vt_ExpiresAt := x\<rparr>) vm)))" for x
    by (rule quiet_api.io_ok_patch_status [OF assms]) (simp_all add: operator_transition_def)
  have check: "io_ok (op_write env vm) (\<lambda>(_, _, vm'). expiry_frame vm vm') (check_expired env vm')"
    if "expiry_frame vm vm'" "\<And>x. vt_ExpiresAt (vm_Status vm') = Some x \<Longrightarrow> x \<le> env_now env \<Longrightarrow>
      expiry_reached env vm" for vm'
    using that by (auto intro!: io_rules simp: check_expired_def Let_def expired_def expiry_frame_def
        split: option.split)
  show ?thesis
  proof (cases "\<exists>d. vs_ExpireAfter (vm_Spec vm) = Some d \<and> 0 < d")
    case False
    then have "(case vs_ExpireAfter (vm_Spec vm) of None \<Rightarrow> None | Some d \<Rightarrow> if d \<le> 0 then None else Some d) = None"
      by (auto split: option.split)
    then show ?thesis
      unfolding reconcileExpiry_def Let_def by (auto intro!: io_ok_then [OF patch] io_ok_ret)
  next
    case True
    then obtain d where d: "vs_ExpireAfter (vm_Spec vm) = Some d" "0 < d" by blast
    show ?thesis
    proof (cases "vt_RunningAt (vm_Status vm)")
      case None
      then show ?thesis using d by (auto simp: reconcileExpiry_def Let_def intro!: io_ok_ret)
    next
      case (Some t)
      have start: "io_ok (op_write env vm) (\<lambda>r. expiry_frame vm r \<and> vt_ExpiresAt (vm_Status r) =
            Some (case vt_ExpiresAt (vm_Status vm) of None \<Rightarrow> t + d | Some x \<Rightarrow> x))
          (if vt_ExpiresAt (vm_Status vm) = None
           then send (env_srv env) (PatchVMStatus vm (upd_status (\<lambda>s. s\<lparr>vt_ExpiresAt := Some (t + d)\<rparr>) vm))
           else ret vm)"
        by (auto intro!: io_ok_weaken [OF patch] io_ok_ret)
      have "io_ok (op_write env vm) (\<lambda>(_, _, vm'). expiry_frame vm vm')
          (and_then (if vt_ExpiresAt (vm_Status vm) = None
             then send (env_srv env) (PatchVMStatus vm (upd_status (\<lambda>s. s\<lparr>vt_ExpiresAt := Some (t + d)\<rparr>) vm))
             else ret vm) (check_expired env))"
        using d Some by (intro io_ok_then [OF start] check) (auto simp: expiry_reached_def)
      then show ?thesis
        using d Some by (simp add: reconcileExpiry_def Let_def)
    qed
  qed
qed

lemma unassigned_writes:
  assumes "vm_node vm = ''''" and "quiet_api (env_srv env)"
  shows "io_ok (op_write env vm) (\<lambda>_. True) (reconcile_unassigned env vm)"
proof -
  have assign: "io_ok (op_write env vm) (\<lambda>_. True) (assign_node env vm nodeName)"
    if "schedule (env_sort env) (env_oob env) (env_client env) vm = Inr nodeName" for nodeName
    unfolding assign_node_def Let_def
    using that assms(1)
    by (auto intro!: io_rules simp: keeps_finalizer_def operator_transition_def condition_setters)
  show ?thesis
    unfolding reconcile_unassigned_def
    by (auto intro!: io_rules assign simp: operator_transition_def condition_setters split: sum.split)
qed

lemma assigned_writes:
  assumes "quiet_api (env_srv env)"
  shows "io_ok (op_write env vm) (\<lambda>_. True) (reconcile_assigned env vm)"
  unfolding reconcile_assigned_def
  by (rule io_ok_then [OF reconcileExpiry_writes [OF assms]])
    (auto intro!: io_rules handleFailed_op_writes syncStatus_writes [OF assms] split: prod.split)

lemma reset_op_write: "reset_write vm e \<Longrightarrow> op_write env vm e"
  by (cases e) (auto simp: keeps_finalizer_def operator_transition_def clear_retries_def
      del_annotation_def ContainsFinalizer_def)

lemma reconcile_writes:
  assumes "quiet_api (env_srv env)"
  shows "io_ok (op_write env vm) (\<lambda>_. True) (reconcile_vm env vm)"
proof -
  have reset: "io_ok (op_write env vm) (\<lambda>_. True) (handleResetRetries (env_srv env) vm)"
    by (rule io_ok_weaken [OF reset_writes [OF assms] reset_op_write])
  have invalid: "io_ok (op_write env vm) (\<lambda>_. True) (reconcile_invalid env vm msg)" for msg
    unfolding reconcile_invalid_def Let_def
    by (auto intro!: io_rules simp: operator_transition_def)
  have finalizer: "io_ok (op_write env vm) (\<lambda>_. True)
      (and_then (send (env_srv env) (PatchVM vm (AddFinalizer finalizerImp vm))) (\<lambda>_. ret no_requeue))"
    by (auto intro!: io_rules simp: keeps_finalizer_def)
  show ?thesis
    unfolding reconcile_vm_def
    by (auto intro!: reset invalid finalizer deletion_writes unassigned_writes assigned_writes assms
        split: option.split)
qed

lemma Reconcile_writes:
  assumes "quiet_api (env_srv env)" and "cl_vm (env_client env) ns name = Inr vm"
    and "e \<in> set (snd (Reconcile env ns name []))"
  shows "op_write env vm e"
  using io_okD [OF reconcile_writes [OF assms(1), of vm]] assms(2,3) by (simp add: Reconcile_def)

section \<open>Deletion and the finalizer\<close>

definition example_env :: "vm_client \<Rightarrow> int \<Rightarrow> vm_env" where
  "example_env cl now = \<lparr>env_srv = quiet_server, env_client = cl, env_sort = insertion_sort,
     env_oob = \<lambda>_. 0, env_http = \<lambda>_. Inr 500, env_trace = ('''', ''''), env_now = now\<rparr>"

lemma example_env_sel [simp]:
  "env_srv (example_env cl now) = quiet_server" "env_client (example_env cl now) = cl"
  "env_now (example_env cl now) = now" "env_http (example_env cl now) = (\<lambda>_. Inr 500)"
  by (simp_all add: example_env_def)

definition client_with :: "ImpVM \<Rightarrow> vm_client" where
  "client_with vm = example_client\<lparr>cl_vm := \<lambda>_ _. Inr vm\<rparr>"

lemma client_with_sel [simp]: "cl_vm (client_with vm) ns name = Inr vm"
  by (simp add: client_with_def)

text \<open>A VM deleted at time 0 on node n1, with its finalizer.\<close>

definition example_deleted :: "VMPhase \<Rightarrow> string \<Rightarrow> ImpVM" where
  "example_deleted ph acknowledging = set_phase ph (set_status_node acknowledging (set_node ''n1''
     (upd_meta (\<lambda>m. m\<lparr>om_DeletionTimestamp := Some 0, om_Finalizers := [finalizerImp]\<rparr>) zero_vm)))"

lemma example_deleted_sel [simp]:
  "om_DeletionTimestamp (vm_Meta (example_deleted ph n)) = Some 0"
  "ContainsFinalizer (example_deleted ph n) finalizerImp"
  "vm_phase (example_deleted ph n) = ph" "vt_NodeName (vm_Status (example_deleted ph n)) = n"
  "vm_node (example_deleted ph n) = ''n1''"
  by (simp_all add: example_deleted_def ContainsFinalizer_def)

lemma released_trace:
  assumes "om_DeletionTimestamp (vm_Meta vm) = Some t" and "ContainsFinalizer vm finalizerImp"
    and "env_srv env = quiet_server" and "may_release env vm"
  shows "PatchVM vm (RemoveFinalizer finalizerImp vm) \<in> set (snd (handleDeletion env vm t []))"
    and "fst (handleDeletion env vm t []) = Inr no_requeue"
  using assms by (auto simp: handleDeletion_def Let_def io_run may_release_def)

lemma waiting_trace:
  assumes "om_DeletionTimestamp (vm_Meta vm) = Some t" and "ContainsFinalizer vm finalizerImp"
    and "env_srv env = quiet_server" and "\<not> may_release env vm"
  shows "handleDeletion env vm t [] = (Inr (requeue_after (seconds 5)),
    if vt_NodeName (vm_Status vm) = '''' \<or> vm_phase vm \<noteq> VMPhaseTerminating
    then [PatchVMStatus vm (set_phase VMPhaseTerminating
            (if vt_NodeName (vm_Status vm) = '''' then set_status_node (vm_node vm) vm else vm)),
          VMEvent EventNormal ''Terminating'' ''Waiting for agent to stop VM'']
    else [])"
proof -
  have "\<not> (vt_NodeName (vm_Status vm) = '''' \<and> vm_node vm = '''')"
    "\<not> t + terminationTimeout < env_now env"
    "\<not> (vt_NodeName (vm_Status vm) = '''' \<and> vm_phase vm = VMPhaseTerminating)"
    using assms(1,4) unfolding may_release_def by blast+
  then show ?thesis
    using assms(2,3) unfolding handleDeletion_def Let_def by (simp only: simp_thms if_False if_True) (simp add: io_run)
qed

text \<open>C8. The finalizer is removed only when no agent can still hold the VM: every accepted patch
  that drops the finalizer is for an object marked for deletion that was never scheduled, or
  whose agent acknowledged the termination by clearing the status node in the Terminating phase,
  or whose deletion was requested more than the termination timeout ago.\<close>

theorem finalizer_release_safe:
  assumes "quiet_api (env_srv env)" and "cl_vm (env_client env) ns name = Inr vm"
    and "PatchVM b obj \<in> set (snd (Reconcile env ns name []))"
    and "ContainsFinalizer b finalizerImp" and "\<not> ContainsFinalizer obj finalizerImp"
  shows "b = vm \<and> (\<exists>t. om_DeletionTimestamp (vm_Meta vm) = Some t \<and>
    (vt_NodeName (vm_Status vm) = '''' \<and> vm_node vm = '''' \<or>
     vt_NodeName (vm_Status vm) = '''' \<and> vm_phase vm = VMPhaseTerminating \<or>
     t + terminationTimeout < env_now env))"
  using Reconcile_writes [OF assms(1-3)] assms(4,5)
  by (auto simp: keeps_finalizer_def may_release_def)

theorem finalizer_release_safe_witness:
  "let vm = example_deleted VMPhaseTerminating '''';
       env = example_env (client_with vm) 1 in
   PatchVM vm (RemoveFinalizer finalizerImp vm) \<in> set (snd (Reconcile env ''ns'' ''vm'' [])) \<and>
   vt_NodeName (vm_Status vm) = '''' \<and> vm_phase vm = VMPhaseTerminating"
proof -
  let ?vm = "example_deleted VMPhaseTerminating ''''"
  let ?env = "example_env (client_with ?vm) 1"
  have "PatchVM ?vm (RemoveFinalizer finalizerImp ?vm) \<in> set (snd (Reconcile ?env ''ns'' ''vm'' []))"
    using released_trace(1) [of ?vm 0 ?env]
    by (simp add: Reconcile_def reconcile_vm_def may_release_def)
  then show ?thesis
    using finalizer_release_safe [of ?env "''ns''" "''vm''" ?vm ?vm "RemoveFinalizer finalizerImp ?vm"]
      quiet.quiet_api_axioms by (simp add: Let_def)
qed

text \<open>C9. The handshake makes progress: for a deleted VM that still has the finalizer, a run whose
  writes are accepted either removes it (exactly in the three cases of the release condition, so
  at the latest after the timeout), or leaves the VM in the Terminating phase with a node that
  has to acknowledge, writing that state when it was not there yet, and comes back in five
  seconds without touching the finalizer.\<close>

theorem deletion_progress:
  assumes "om_DeletionTimestamp (vm_Meta vm) = Some t" and "ContainsFinalizer vm finalizerImp"
    and "env_srv env = quiet_server"
  shows "if may_release env vm
    then PatchVM vm (RemoveFinalizer finalizerImp vm) \<in> set (snd (handleDeletion env vm t []))
    else fst (handleDeletion env vm t []) = Inr (requeue_after (seconds 5)) \<and>
      (\<forall>b obj. PatchVM b obj \<notin> set (snd (handleDeletion env vm t []))) \<and>
      (\<exists>obj. (obj = vm \<or> PatchVMStatus vm obj \<in> set (snd (handleDeletion env vm t []))) \<and>
         vm_phase obj = VMPhaseTerminating \<and> vt_NodeName (vm_Status obj) \<noteq> '''')"
proof (cases "may_release env vm")
  case True
  then show ?thesis using released_trace(1) [OF assms] by simp
next
  case False
  then have node: "vt_NodeName (vm_Status vm) \<noteq> '''' \<or> vm_node vm \<noteq> ''''"
    using assms(1) by (auto simp: may_release_def)
  define obj where "obj = (if vt_NodeName (vm_Status vm) = '''' \<or> vm_phase vm \<noteq> VMPhaseTerminating
    then set_phase VMPhaseTerminating
           (if vt_NodeName (vm_Status vm) = '''' then set_status_node (vm_node vm) vm else vm)
    else vm)"
  have "vm_phase obj = VMPhaseTerminating" "vt_NodeName (vm_Status obj) \<noteq> ''''"
    "obj = vm \<or> PatchVMStatus vm obj \<in> set (snd (handleDeletion env vm t []))"
    using node by (simp_all add: waiting_trace [OF assms False] obj_def)
  moreover have "\<forall>b obj. PatchVM b obj \<notin> set (snd (handleDeletion env vm t []))"
    "fst (handleDeletion env vm t []) = Inr (requeue_after (seconds 5))"
    by (simp_all add: waiting_trace [OF assms False])
  ultimately show ?thesis using False by auto
qed

theorem deletion_progress_witness:
  "fst (handleDeletion (example_env example_client 1) (example_deleted VMPhaseRunning ''n1'') 0 []) =
     Inr (requeue_after (seconds 5)) \<and>
   PatchVM (example_deleted VMPhaseRunning ''n1'') (RemoveFinalizer finalizerImp (example_deleted VMPhaseRunning ''n1''))
     \<in> set (snd (handleDeletion (example_env example_client (seconds 121)) (example_deleted VMPhaseRunning ''n1'') 0 []))"
  using deletion_progress [of "example_deleted VMPhaseRunning ''n1''" 0 "example_env example_client 1"]
    deletion_progress [of "example_deleted VMPhaseRunning ''n1''" 0 "example_env example_client (seconds 121)"]
  by (simp add: may_release_def terminationTimeout_def seconds_def)

section \<open>Phases, expiry, invalid specs\<close>

text \<open>C10. The operator keeps to its own phases and never edits a user's spec: a status patch of
  any reconcile leaves the spec alone and enters only Pending, Scheduled, Failed or Terminating,
  and RetryExhausted only from Failed; Starting, Running, Succeeded, Suspending, Suspended and
  Resuming are entered by the node agent alone. A spec patch changes at most the node name, and
  only to the node the scheduler chose for an unassigned VM or back to empty: a VM is never moved
  in one step.\<close>

theorem operator_writes:
  assumes "quiet_api (env_srv env)" and "cl_vm (env_client env) ns name = Inr vm"
    and "e \<in> set (snd (Reconcile env ns name []))"
  shows "case e of
      PatchVMStatus b obj \<Rightarrow> vm_Spec obj = vm_Spec b \<and>
        (vm_phase obj \<noteq> vm_phase b \<longrightarrow>
          vm_phase obj \<in> {VMPhasePending, VMPhaseScheduled, VMPhaseFailed, VMPhaseTerminating} \<or>
          vm_phase b = VMPhaseFailed \<and> vm_phase obj = VMPhaseRetryExhausted)
    | PatchVM b obj \<Rightarrow> vm_Spec obj = (vm_Spec b)\<lparr>vs_NodeName := vm_node obj\<rparr> \<and>
        (vm_node obj \<noteq> vm_node b \<longrightarrow> vm_node obj = '''' \<or> vm_node b = '''' \<and>
          schedule (env_sort env) (env_oob env) (env_client env) vm = Inr (vm_node obj))
    | _ \<Rightarrow> True"
  using Reconcile_writes [OF assms] by (cases e) (auto simp: operator_transition_def)

lemma example_assign:
  "PatchVM example_vm (set_node ''n1'' example_vm)
     \<in> set (snd (Reconcile (example_env example_client 7) ''ns'' ''vm'' []))"
proof -
  have "om_DeletionTimestamp (vm_Meta example_vm) = None" "ContainsFinalizer example_vm finalizerImp"
    "get_annotation example_vm AnnotationResetRetries \<noteq> ''true''"
    "validateImpVMSpecRefs example_vm = None" "vm_node example_vm = ''''"
    "cl_vm example_client ''ns'' ''vm'' = Inr example_vm"
    by code_simp+
  then show ?thesis
    using example_schedule
    by (simp add: Reconcile_def reconcile_vm_def reconcile_unassigned_def assign_node_def io_run
        example_env_def InjectToVM_def)
qed

theorem operator_writes_witness:
  "schedule insertion_sort (\<lambda>_. 0) example_client example_vm = Inr ''n1''"
  using operator_writes [OF _ _ example_assign] quiet.quiet_api_axioms
  by (simp add: example_env_def example_client_def example_vm_def zero_vm_def zero_vm_spec_def)

text \<open>A VM is deleted for expiry only when it is due: the controller deletes an object only if
  its spec sets a positive lifetime, it has been running, and the recorded expiry time, or the
  first Running time plus the lifetime when none is recorded yet, has passed.\<close>

theorem expiry_delete_due:
  assumes "quiet_api (env_srv env)" and "cl_vm (env_client env) ns name = Inr vm"
    and "DeleteVM obj \<in> set (snd (Reconcile env ns name []))"
  shows "\<exists>d t. vs_ExpireAfter (vm_Spec vm) = Some d \<and> 0 < d \<and> vt_RunningAt (vm_Status vm) = Some t \<and>
    (case vt_ExpiresAt (vm_Status vm) of None \<Rightarrow> t + d | Some x \<Rightarrow> x) \<le> env_now env"
  using Reconcile_writes [OF assms] by (simp add: expiry_reached_def)

definition example_expiring :: ImpVM where
  "example_expiring = upd_status (\<lambda>s. s\<lparr>vt_Phase := VMPhaseRunning, vt_RunningAt := Some 0\<rparr>)
     (upd_spec (\<lambda>s. s\<lparr>vs_ExpireAfter := Some (seconds 60), vs_NodeName := ''n1''\<rparr>)
       (upd_meta (\<lambda>m. m\<lparr>om_Finalizers := [finalizerImp]\<rparr>) zero_vm))"

lemma example_expiring_sel [simp]:
  "om_DeletionTimestamp (vm_Meta example_expiring) = None"
  "ContainsFinalizer example_expiring finalizerImp"
  "get_annotation example_expiring AnnotationResetRetries \<noteq> ''true''"
  "validateImpVMSpecRefs example_expiring = None" "vm_node example_expiring = ''n1''"
  "vs_ExpireAfter (vm_Spec example_expiring) = Some (seconds 60)"
  "vt_RunningAt (vm_Status example_expiring) = Some 0" "vt_ExpiresAt (vm_Status example_expiring) = None"
  by code_simp+

theorem expiry_delete_due_witness:
  "\<exists>obj. DeleteVM obj \<in> set (snd (Reconcile (example_env (client_with example_expiring) (seconds 60)) ''ns'' ''vm'' [])) \<and>
     0 + seconds 60 \<le> seconds 60"
proof -
  let ?env = "example_env (client_with example_expiring) (seconds 60)"
  let ?vm' = "upd_status (\<lambda>s. s\<lparr>vt_ExpiresAt := Some (0 + seconds 60)\<rparr>) example_expiring"
  have del: "DeleteVM ?vm' \<in> set (snd (Reconcile ?env ''ns'' ''vm'' []))"
    by (simp add: Reconcile_def reconcile_vm_def reconcile_assigned_def reconcileExpiry_def
        check_expired_def expired_def io_run Let_def seconds_def)
  show ?thesis
    using expiry_delete_due [OF _ _ del, of example_expiring] del quiet.quiet_api_axioms by auto
qed

text \<open>An invalid spec is reported once: when a reconcile of a VM with contradictory references
  is accepted, the written object is Failed, carries the reason, and reconciling that object
  again, at any later time, writes nothing and asks for nothing.\<close>

theorem invalid_spec_reported_once:
  assumes "om_DeletionTimestamp (vm_Meta vm) = None" and "ContainsFinalizer vm finalizerImp"
    and "get_annotation vm AnnotationResetRetries \<noteq> ''true''" and "validateImpVMSpecRefs vm = Some msg"
    and "PatchVMStatus b obj \<in> set (snd (reconcile_vm env vm []))"
  shows "vm_phase obj = VMPhaseFailed \<and> hasSpecInvalidCondition obj msg \<and>
    reconcile_vm env' obj [] = (Inr no_requeue, [])"
proof -
  have "io_ok (\<lambda>e. case e of PatchVMStatus b obj \<Rightarrow> vm_phase obj = VMPhaseFailed \<and>
      hasSpecInvalidCondition obj msg \<and> vm_Meta obj = vm_Meta vm \<and> vm_Spec obj = vm_Spec vm | _ \<Rightarrow> True)
      (\<lambda>_. True) (reconcile_vm env vm)"
    using assms(1-4) unfolding reconcile_vm_def reconcile_invalid_def Let_def
    by (auto intro!: io_rules)
  from io_okD [OF this assms(5)] have obj: "vm_phase obj = VMPhaseFailed"
    "hasSpecInvalidCondition obj msg" "vm_Meta obj = vm_Meta vm" "vm_Spec obj = vm_Spec vm"
    by simp_all
  then have "ContainsFinalizer obj finalizerImp" "get_annotation obj AnnotationResetRetries \<noteq> ''true''"
    "validateImpVMSpecRefs obj = Some msg"
    using assms(2-4) by (simp_all add: ContainsFinalizer_def get_annotation_def validateImpVMSpecRefs_def)
  then show ?thesis
    using obj assms(1) by (simp add: reconcile_vm_def reconcile_invalid_def io_run)
qed

definition example_invalid :: ImpVM where
  "example_invalid = upd_spec (\<lambda>s. s\<lparr>vs_ClassRef := Some ''c'', vs_TemplateRef := Some ''t''\<rparr>)
     (upd_meta (\<lambda>m. m\<lparr>om_Finalizers := [finalizerImp]\<rparr>) zero_vm)"

theorem invalid_spec_reported_once_witness:
  "\<exists>b obj. PatchVMStatus b obj \<in> set (snd (reconcile_vm (example_env example_client 1) example_invalid [])) \<and>
     reconcile_vm (example_env example_client 2) obj [] = (Inr no_requeue, [])"
proof -
  have pre: "om_DeletionTimestamp (vm_Meta example_invalid) = None"
    "ContainsFinalizer example_invalid finalizerImp"
    "get_annotation example_invalid AnnotationResetRetries \<noteq> ''true''"
    "validateImpVMSpecRefs example_invalid =
       Some ''invalid spec: classRef and templateRef are mutually exclusive''"
    "\<not> vm_phase example_invalid = VMPhaseFailed"
    by code_simp+
  then obtain obj where mem: "PatchVMStatus example_invalid obj
      \<in> set (snd (reconcile_vm (example_env example_client 1) example_invalid []))"
    by (simp add: reconcile_vm_def reconcile_invalid_def io_run Let_def)
  show ?thesis
    using invalid_spec_reported_once [OF pre(1-4) mem, of "example_env example_client 2"] mem by blast
qed

section \<open>Lost nodes\<close>

text \<open>Whether a VM may leave a lost node: ephemeral VMs always, persistent ones when they opted in
  and no persistent volume claim is theirs.\<close>

definition may_leave_node :: "vm_client \<Rightarrow> ImpVM \<Rightarrow> bool" where
  "may_leave_node cl vm \<longleftrightarrow> vs_Lifecycle (vm_Spec vm) = VMLifecycleEphemeral \<or>
     vs_RescheduleOnNodeLoss (vm_Spec vm) \<and> hasPVCAttached cl vm = Inr False"

definition node_is_lost :: "vm_client \<Rightarrow> ImpVM \<Rightarrow> bool" where
  "node_is_lost cl vm \<longleftrightarrow> (case cl_node cl (vm_node vm) of Inl e \<Rightarrow> e = NotFound | Inr n \<Rightarrow> \<not> isNodeReady n)"

lemma node_lost_leaves:
  assumes "env_srv env = quiet_server" and "may_leave_node (env_client env) vm"
  shows "\<exists>msg. node_lost env vm reason [] = (Inr no_requeue,
    [PatchVM vm (set_node '''' vm),
     PatchVMStatus (set_node '''' vm) (lost_status (env_now env) reason (set_node '''' vm)),
     VMEvent EventNormal ''Rescheduling'' msg])"
  using assms by (auto simp: node_lost_def reschedule_lost_def may_leave_node_def io_run)

lemma node_lost_stays:
  assumes "env_srv env = quiet_server" and "\<not> may_leave_node (env_client env) vm"
    and "\<forall>e. hasPVCAttached (env_client env) vm \<noteq> Inl e"
  shows "\<exists>msg. node_lost env vm reason [] = (Inr no_requeue,
    [PatchVMStatus vm (set_phase VMPhaseFailed (setNodeUnhealthy (env_now env) reason vm)),
     VMEvent EventWarning ''NodeLost'' msg])"
proof (cases "hasPVCAttached (env_client env) vm")
  case (Inr b)
  then show ?thesis
    using assms(1,2) by (cases b) (auto simp: node_lost_def may_leave_node_def io_run)
qed (use assms(3) in blast)

lemma lost_status_sel [simp]:
  "vm_phase (lost_status now reason vm) = VMPhasePending"
  "vt_NodeName (vm_Status (lost_status now reason vm)) = ''''"
  "vt_SuspendSnapshotPath (vm_Status (lost_status now reason vm)) = ''''"
  "vm_Spec (lost_status now reason vm) = vm_Spec vm"
  by (simp_all add: lost_status_def clearSuspendState_def condition_setters)


definition example_lost :: ImpVM where
  "example_lost = upd_spec (\<lambda>s. s\<lparr>vs_NodeName := ''n1'', vs_Lifecycle := VMLifecyclePersistent\<rparr>) zero_vm"


section \<open>The health check counter\<close>

text \<open>The failure counter of the HTTP health check is frozen once it is stored: the status
  patch comes first and its answer overwrites the locally incremented annotation with the stored
  one, so the annotation patch that follows sends the value the object already had. A VM whose
  probe keeps failing therefore never counts past the stored value.\<close>

theorem health_counter_frozen:
  assumes "quiet_api (env_srv env)"
    and "has_key (om_Annotations (vm_Meta vm)) annotationHTTPFailures"
    and "PatchVM b obj \<in> set (snd (node_healthy env vm []))"
  shows "get_annotation obj annotationHTTPFailures = get_annotation vm annotationHTTPFailures"
proof -
  let ?P = "\<lambda>e. case e of PatchVM b obj \<Rightarrow>
    get_annotation obj annotationHTTPFailures = get_annotation vm annotationHTTPFailures | _ \<Rightarrow> True"
  have event: "?P e" if "is_event e" for e using that by (cases e) simp_all
  have answer: "get_annotation (status_answer vm vm') annotationHTTPFailures =
      get_annotation vm annotationHTTPFailures" for vm'
    using assms(2) by (simp add: status_answer_def get_annotation_def str_get_decode_into)
  have status: "io_ok ?P (\<lambda>r. r = status_answer vm vm') (send (env_srv env) (PatchVMStatus vm vm'))" for vm'
    by (rule quiet_api.io_ok_patch_status [OF assms(1)]) simp_all
  have "io_ok ?P (\<lambda>_. True) (node_healthy env vm)"
    unfolding node_healthy_def
    by (rule io_ok_then [OF io_ok_weaken [OF healthy_update_frame event]])
      (auto intro!: io_ok_then [OF status] io_rules simp: answer split: prod.split)
  from io_okD [OF this assms(3)] show ?thesis by simp
qed

definition example_probed :: ImpVM where
  "example_probed = upd_status (\<lambda>s. s\<lparr>vt_Phase := VMPhaseRunning, vt_IP := ''10.0.0.2''\<rparr>)
     (upd_spec (\<lambda>s. s\<lparr>vs_NodeName := ''n1'', vs_Probes := Some \<lparr>ps_StartupProbe = None,
        ps_ReadinessProbe = None, ps_LivenessProbe = None, ps_HTTPCheck = Some \<lparr>hc_Enabled = True,
        hc_Path = '''', hc_Port = 80, hc_IntervalSeconds = 10, hc_FailureThreshold = 3\<rparr>\<rparr>\<rparr>)
       (set_annotation annotationHTTPFailures ''1'' zero_vm))"

lemma example_probed_patched:
  "\<exists>obj. PatchVM example_probed obj \<in> set (snd (node_healthy (example_env example_client 1) example_probed []))"
proof -
  have "list_ex (\<lambda>e. case e of PatchVM b obj \<Rightarrow> True | _ \<Rightarrow> False)
      (snd (node_healthy (example_env example_client 1) example_probed []))"
    by code_simp
  then obtain e where e: "e \<in> set (snd (node_healthy (example_env example_client 1) example_probed []))"
    "case e of PatchVM b obj \<Rightarrow> True | _ \<Rightarrow> False" by (auto simp: list_ex_iff)
  then obtain b obj where mem: "PatchVM b obj \<in> set (snd (node_healthy (example_env example_client 1) example_probed []))"
    by - (rule vm_effect.exhaust [of e], auto)
  have "io_ok (\<lambda>e. case e of PatchVM b obj \<Rightarrow> b = example_probed | _ \<Rightarrow> True) (\<lambda>_. True)
      (node_healthy (example_env example_client 1) example_probed)"
    unfolding node_healthy_def
    by (rule io_ok_then [OF io_ok_weaken [OF healthy_update_frame]])
      (auto intro!: io_rules split: vm_effect.splits)
  from io_okD [OF this mem] show ?thesis using mem by auto
qed

theorem health_counter_frozen_witness:
  "\<exists>obj. PatchVM example_probed obj \<in> set (snd (node_healthy (example_env example_client 1) example_probed [])) \<and>
     get_annotation obj annotationHTTPFailures = ''1''"
proof -
  obtain obj where mem: "PatchVM example_probed obj
      \<in> set (snd (node_healthy (example_env example_client 1) example_probed []))"
    using example_probed_patched by blast
  have "has_key (om_Annotations (vm_Meta example_probed)) annotationHTTPFailures"
    "get_annotation example_probed annotationHTTPFailures = ''1''" by code_simp+
  then show ?thesis
    using health_counter_frozen [OF _ _ mem] mem quiet.quiet_api_axioms by auto
qed

end
