(* ===== verification/Network_Types.thy ===== *)
theory Network_Types
  imports Imp_Types
begin

text \<open>
  The ImpNetwork object (impnetwork\_types.go): its spec with NAT, Cilium, IPAM, firewall and
  group settings, and its status with the VTEP table and the group subnets.
\<close>

record FirewallSpec =
  fw_DenyCIDRs :: "string list"

record NATSpec =
  nat_Enabled :: bool
  nat_EgressInterface :: string

record CiliumNetworkSpec =
  cn_ExcludeFromIPAM :: bool
  cn_MasqueradeViaCilium :: bool

record CiliumIPAMSpec =
  ci_PoolRef :: string
  ci_Cidr :: string

record IPAMSpec =
  ip_Provider :: string
  ip_Cilium :: "CiliumIPAMSpec option"

record NetworkGroupSpec =
  ng_Name :: string
  ng_Connectivity :: string
  ng_ExpectedSize :: int

record GroupCIDR =
  gc_Name :: string
  gc_CIDR :: string

record VTEPEntry =
  ve_NodeIP :: string
  ve_VMIP :: string
  ve_VMMAC :: string

record ImpNetworkSpec =
  ns_Subnet :: string
  ns_Gateway :: string
  ns_NAT :: NATSpec
  ns_DNS :: "string list"
  ns_Cilium :: "CiliumNetworkSpec option"
  ns_IPAM :: "IPAMSpec option"
  ns_Firewall :: "FirewallSpec option"
  ns_Groups :: "NetworkGroupSpec list"

record ImpNetworkStatus =
  nt_AllocatedIPs :: "string list"
  nt_Conditions :: "condition list"
  nt_VTEPTable :: "VTEPEntry list"
  nt_GroupCIDRs :: "GroupCIDR list"

record ImpNetwork =
  net_Meta :: object_meta
  net_Spec :: ImpNetworkSpec
  net_Status :: ImpNetworkStatus

definition zero_net_spec :: ImpNetworkSpec where
  "zero_net_spec = \<lparr>ns_Subnet = '''', ns_Gateway = '''',
     ns_NAT = \<lparr>nat_Enabled = False, nat_EgressInterface = ''''\<rparr>, ns_DNS = [], ns_Cilium = None,
     ns_IPAM = None, ns_Firewall = None, ns_Groups = []\<rparr>"

definition zero_net :: ImpNetwork where
  "zero_net = \<lparr>net_Meta = zero_meta, net_Spec = zero_net_spec,
     net_Status = \<lparr>nt_AllocatedIPs = [], nt_Conditions = [], nt_VTEPTable = [], nt_GroupCIDRs = []\<rparr>\<rparr>"

end
