(* ===== verification/Net_Addr.thy ===== *)
theory Net_Addr
  imports Go_Std
begin

text \<open>
  The parts of Go's net and net/netip packages that the operator and the agent use: parsing of
  IPv4 and IPv6 addresses and of CIDR prefixes, rendering of IPv4 addresses, and the network
  operations on them. IPv4 addresses are 32-bit words. Printing and parsing an IPv4 address is
  proved to be a round trip, so the rendering is injective.
\<close>

unbundle bit_operations_syntax

type_synonym ipv4 = "32 word"

section \<open>Splitting strings\<close>

fun split_on :: "char \<Rightarrow> string \<Rightarrow> string list" where
  "split_on c [] = [[]]"
| "split_on c (x # xs) =
     (if x = c then [] # split_on c xs
      else case split_on c xs of [] \<Rightarrow> [[x]] | y # ys \<Rightarrow> (x # y) # ys)"

text \<open>strings.Cut on a single character: the part before the first occurrence and the rest.\<close>

fun cut_at :: "char \<Rightarrow> string \<Rightarrow> (string \<times> string) option" where
  "cut_at c [] = None"
| "cut_at c (x # xs) =
     (if x = c then Some ([], xs)
      else case cut_at c xs of None \<Rightarrow> None | Some (a, b) \<Rightarrow> Some (x # a, b))"

lemma split_on_single: "c \<notin> set s \<Longrightarrow> split_on c s = [s]"
  by (induction s) auto

lemma split_on_append: "c \<notin> set s \<Longrightarrow> split_on c (s @ c # t) = s # split_on c t"
  by (induction s) auto

lemma cut_at_append: "c \<notin> set s \<Longrightarrow> cut_at c (s @ c # t) = Some (s, t)"
  by (induction s) auto

lemma cut_at_None: "c \<notin> set s \<Longrightarrow> cut_at c s = None"
  by (induction s) auto

lemma cut_atD: "cut_at c s = Some (a, b) \<Longrightarrow> s = a @ c # b \<and> c \<notin> set a"
  by (induction s arbitrary: a) (auto split: if_splits option.splits prod.splits)

section \<open>IPv4\<close>

text \<open>An octet: digits, no superfluous leading zero, at most 255.\<close>

definition parse_octet :: "string \<Rightarrow> nat option" where
  "parse_octet s =
     (if s \<noteq> [] \<and> list_all is_digit s \<and> (hd s = CHR ''0'' \<longrightarrow> length s = 1) \<and> dec_val s 0 \<le> 255
      then Some (dec_val s 0) else None)"

definition of_octets :: "nat \<Rightarrow> nat \<Rightarrow> nat \<Rightarrow> nat \<Rightarrow> ipv4" where
  "of_octets a b c d = word_of_nat (((a * 256 + b) * 256 + c) * 256 + d)"

definition parseIPv4 :: "string \<Rightarrow> ipv4 option" where
  "parseIPv4 s =
     (case map parse_octet (split_on (CHR ''.'') s) of
        [Some a, Some b, Some c, Some d] \<Rightarrow> Some (of_octets a b c d)
      | _ \<Rightarrow> None)"

lemma of_octets_code [code]:
  "of_octets a b c d = ((word_of_nat a * 256 + word_of_nat b) * 256 + word_of_nat c) * 256 + word_of_nat d"
  by (simp add: of_octets_def)

text \<open>IP.String of a four-byte address.\<close>

definition octet :: "nat \<Rightarrow> ipv4 \<Rightarrow> nat" where
  "octet i w = unat w div 256 ^ i mod 256"

lemma octet_code [code]: "octet i w = nat (uint w div 256 ^ i mod 256)"
proof -
  have "uint w div 256 ^ i mod 256 = int (unat w div 256 ^ i mod 256)" by (simp add: zdiv_int zmod_int)
  then show ?thesis by (simp add: octet_def)
qed

definition ip_string :: "ipv4 \<Rightarrow> string" where
  "ip_string w = itoa (octet 3 w) @ ''.'' @ itoa (octet 2 w) @ ''.'' @ itoa (octet 1 w) @ ''.'' @ itoa (octet 0 w)"

section \<open>IPv6\<close>

text \<open>One pass of the group loop of parseIPv6: the bytes so far, the byte position of the
  ellipsis and the text left. The counter is the number of groups that still fit; the loop stops
  when it reaches zero. The result is the bytes, the ellipsis and the unread text.\<close>

definition bytes_of_ipv4 :: "ipv4 \<Rightarrow> nat list" where
  "bytes_of_ipv4 w = [octet 3 w, octet 2 w, octet 1 w, octet 0 w]"

primrec v6_groups :: "nat \<Rightarrow> nat list \<Rightarrow> nat option \<Rightarrow> string \<Rightarrow> (nat list \<times> nat option \<times> string) option" where
  "v6_groups 0 bs ell s = Some (bs, ell, s)"
| "v6_groups (Suc n) bs ell s =
     (let digits = takeWhile (\<lambda>c. hex_val c \<noteq> None) s; rest = drop (length digits) s;
          acc = base_val 16 digits 0 in
      if digits = [] \<or> 4 < length digits then None
      else if rest \<noteq> [] \<and> hd rest = CHR ''.'' then
        (if ell = None \<and> length bs \<noteq> 12 \<or> 16 < length bs + 4 then None
         else case parseIPv4 s of None \<Rightarrow> None | Some w \<Rightarrow> Some (bs @ bytes_of_ipv4 w, ell, []))
      else
        let bs' = bs @ [acc div 256, acc mod 256] in
        (case rest of
           [] \<Rightarrow> Some (bs', ell, [])
         | c # t \<Rightarrow>
             if c \<noteq> CHR '':'' \<or> t = [] then None
             else if hd t = CHR '':'' then
               (if ell \<noteq> None then None
                else if tl t = [] then Some (bs', Some (length bs'), [])
                else v6_groups n bs' (Some (length bs')) (tl t))
             else v6_groups n bs' ell t))"

definition expand_v6 :: "nat list \<Rightarrow> nat option \<Rightarrow> nat list option" where
  "expand_v6 bs ell =
     (case ell of
        None \<Rightarrow> if length bs < 16 then None else Some bs
      | Some e \<Rightarrow> if length bs < 16 then Some (take e bs @ replicate (16 - length bs) 0 @ drop e bs) else None)"

definition parseIPv6 :: "string \<Rightarrow> nat list option" where
  "parseIPv6 s =
     (let start = (if 2 \<le> length s \<and> take 2 s = ''::'' then (Some 0, drop 2 s) else (None, s)) in
      case start of (ell, t) \<Rightarrow>
      if ell \<noteq> None \<and> t = [] then Some (replicate 16 0)
      else case v6_groups 8 [] ell t of
             None \<Rightarrow> None
           | Some (bs, ell', rest) \<Rightarrow> if rest \<noteq> [] then None else expand_v6 bs ell')"

section \<open>Addresses and prefixes\<close>

datatype ipaddr = IP4 ipv4 | IP6 "nat list"

text \<open>netip.ParseAddr: the first dot or colon decides. Addresses with a zone are refused by both
  callers, net.ParseIP and net.ParseCIDR; they are None here.\<close>

definition ParseIP :: "string \<Rightarrow> ipaddr option" where
  "ParseIP s =
     (case filter (\<lambda>c. c = CHR ''.'' \<or> c = CHR '':'' \<or> c = CHR ''%'') s of
        [] \<Rightarrow> None
      | c # _ \<Rightarrow>
          if c = CHR ''.'' then map_option IP4 (parseIPv4 s)
          else if c = CHR '':'' \<and> CHR ''%'' \<notin> set s then map_option IP6 (parseIPv6 s)
          else None)"

text \<open>IP.To4: an IPv4 address or one mapped into IPv6.\<close>

definition v4_in_v6 :: "nat list" where
  "v4_in_v6 = replicate 10 0 @ [255, 255]"

fun To4 :: "ipaddr \<Rightarrow> ipv4 option" where
  "To4 (IP4 w) = Some w"
| "To4 (IP6 bs) =
     (if take 12 bs = v4_in_v6
      then Some (of_octets (bs ! 12) (bs ! 13) (bs ! 14) (bs ! 15)) else None)"

text \<open>A parsed prefix: the masked network address and the prefix length.\<close>

datatype ipnet = Net4 ipv4 nat | Net6 "nat list" nat

definition net_mask :: "nat \<Rightarrow> ipv4" where
  "net_mask n = push_bit (32 - n) (mask n)"

text \<open>The bytes of a mask of \<open>n\<close> ones from byte \<open>i\<close> on, and their application.\<close>

definition mask_byte :: "nat \<Rightarrow> nat \<Rightarrow> nat" where
  "mask_byte n i = (if 8 * (i + 1) \<le> n then 255 else if n \<le> 8 * i then 0 else 256 - 2 ^ (8 * (i + 1) - n))"

definition mask_v6 :: "nat list \<Rightarrow> nat \<Rightarrow> nat list" where
  "mask_v6 bs n = map (\<lambda>i. (bs ! i) AND mask_byte n i) [0..<16]"

text \<open>dtoi: a decimal number, refused from 2 to the 24 on.\<close>

definition dtoi :: "string \<Rightarrow> nat option" where
  "dtoi s = (if s \<noteq> [] \<and> list_all is_digit s \<and> dec_val s 0 < 16777215 then Some (dec_val s 0) else None)"

lemma dtoi_code [code]:
  "dtoi s = (if s \<noteq> [] \<and> list_all is_digit s \<and> int (dec_val s 0) < 16777215 then Some (dec_val s 0) else None)"
  by (simp add: dtoi_def)

definition ParseCIDR :: "string \<Rightarrow> ipnet option" where
  "ParseCIDR s =
     (case cut_at (CHR ''/'') s of
        None \<Rightarrow> None
      | Some (addr, m) \<Rightarrow>
          (case (ParseIP addr, dtoi m) of
             (Some (IP4 w), Some n) \<Rightarrow> if n \<le> 32 then Some (Net4 (w AND net_mask n) n) else None
           | (Some (IP6 bs), Some n) \<Rightarrow> if n \<le> 128 then Some (Net6 (mask_v6 bs n) n) else None
           | _ \<Rightarrow> None))"

fun net_ip :: "ipnet \<Rightarrow> ipaddr" where
  "net_ip (Net4 w n) = IP4 w"
| "net_ip (Net6 bs n) = IP6 bs"

fun net_prefix :: "ipnet \<Rightarrow> nat" where
  "net_prefix (Net4 w n) = n"
| "net_prefix (Net6 bs n) = n"

text \<open>IPNet.Contains of an IPv4 address. A prefix whose address is mapped into IPv6 compares
  with the last four bytes of its mask.\<close>

fun contains4 :: "ipnet \<Rightarrow> ipv4 \<Rightarrow> bool" where
  "contains4 (Net4 w n) ip = (ip AND net_mask n = w AND net_mask n)"
| "contains4 (Net6 bs n) ip =
     (case To4 (IP6 bs) of None \<Rightarrow> False | Some w \<Rightarrow> ip AND net_mask (n - 96) = w AND net_mask (n - 96))"

text \<open>IPNet.Contains of any address: one outside IPv4 is compared under the whole mask, and only with a
  prefix outside IPv4.\<close>

definition Contains :: "ipnet \<Rightarrow> ipaddr \<Rightarrow> bool" where
  "Contains nw ip =
     (case To4 ip of
        Some w \<Rightarrow> contains4 nw w
      | None \<Rightarrow>
          (case (nw, ip) of
             (Net6 nb n, IP6 bs) \<Rightarrow> To4 (IP6 nb) = None \<and> mask_v6 bs n = mask_v6 nb n
           | _ \<Rightarrow> False))"

section \<open>Masks\<close>

lemma and_net_mask:
  assumes "n \<le> 32"
  shows "w AND net_mask n = push_bit (32 - n) (drop_bit (32 - n) w)"
  using assms
  by (intro bit_eqI) (auto simp: net_mask_def bit_simps)

lemma unat_and_net_mask:
  assumes "n \<le> 32"
  shows "unat (w AND net_mask n) = unat w div 2 ^ (32 - n) * 2 ^ (32 - n)"
proof -
  have bound: "unat w div 2 ^ (32 - n) * 2 ^ (32 - n) < 2 ^ 32"
    using le_less_trans [OF div_times_less_eq_dividend unsigned_less [of w, where 'a = nat]] by simp
  show ?thesis
    unfolding and_net_mask [OF assms]
    by (simp only: unsigned_push_bit_eq unat_drop_bit_eq)
      (use bound in \<open>simp add: push_bit_eq_mult drop_bit_eq_div take_bit_nat_eq_self\<close>)
qed

text \<open>Membership in an IPv4 prefix is equality of the leading bits.\<close>

lemma contains4_iff:
  assumes "n \<le> 32"
  shows "contains4 (Net4 w n) ip \<longleftrightarrow> unat ip div 2 ^ (32 - n) = unat w div 2 ^ (32 - n)"
proof -
  have "contains4 (Net4 w n) ip \<longleftrightarrow> unat (ip AND net_mask n) = unat (w AND net_mask n)"
    by (simp add: word_unat_eq_iff)
  then show ?thesis by (simp add: unat_and_net_mask [OF assms])
qed

lemma ParseCIDR_Net4:
  assumes "ParseCIDR s = Some (Net4 w n)"
  shows "n \<le> 32" and "w AND net_mask n = w"
  using assms
  by (auto simp: ParseCIDR_def and.assoc split: option.splits ipaddr.splits if_splits)

lemma net_aligned:
  assumes "ParseCIDR s = Some (Net4 w n)"
  shows "unat w mod 2 ^ (32 - n) = 0"
proof -
  have "unat w = unat w div 2 ^ (32 - n) * 2 ^ (32 - n)"
    using unat_and_net_mask [OF ParseCIDR_Net4(1) [OF assms], of w] ParseCIDR_Net4(2) [OF assms] by simp
  then show ?thesis by (metis mod_mult_self2_is_0)
qed

section \<open>Printing and parsing IPv4 addresses\<close>

lemma dec_val_base_val: "list_all is_digit s \<Longrightarrow> dec_val s a = base_val 10 s a"
  by (induction s arbitrary: a) (auto simp: hex_val_def)

lemma itoa_is_digits: "list_all is_digit (itoa n)" "itoa n \<noteq> []"
proof -
  show "list_all is_digit (itoa n)" using itoa_digits [of n] by (auto simp: list_all_iff)
  show "itoa n \<noteq> []" using itoa_hd [of n] by auto
qed

lemma parse_octet_itoa: "n \<le> 255 \<Longrightarrow> parse_octet (itoa n) = Some n"
proof -
  assume n: "n \<le> 255"
  have val: "dec_val (itoa n) 0 = n"
    using dec_val_base_val [OF itoa_is_digits(1)] base_val_itoa by metis
  have "hd (itoa n) = CHR ''0'' \<longrightarrow> length (itoa n) = 1"
  proof
    assume "hd (itoa n) = CHR ''0''"
    then have "n = 0" using itoa_hd [of n] by auto
    then show "length (itoa n) = 1" by (simp add: itoa.simps)
  qed
  then show ?thesis using n val itoa_is_digits by (simp add: parse_octet_def)
qed

lemma dot_not_in_itoa: "CHR ''.'' \<notin> set (itoa n)"
  using itoa_is_digits(1) [of n] by (auto simp: list_all_iff is_digit_def)

lemma octet_le: "octet i w \<le> 255"
  by (simp add: octet_def less_Suc_eq_le [symmetric])

lemma of_octets_octet [simp]: "of_octets (octet 3 w) (octet 2 w) (octet (Suc 0) w) (octet 0 w) = w"
proof -
  define n where "n = unat w"
  define b where "b = (256 :: nat)"
  have less: "n < b * b * b * b" using unsigned_less [of w, where 'a = nat] by (simp add: n_def b_def)
  have top: "n div b div b div b < b" using less by (simp add: less_mult_imp_div_less mult.assoc)
  have oct: "octet 0 w = n mod b" "octet (Suc 0) w = n div b mod b" "octet 2 w = n div b div b mod b"
    "octet 3 w = n div b div b div b"
    using top unfolding octet_def n_def b_def
    by (simp_all add: div_mult2_eq [symmetric])
  have "((octet 3 w * b + octet 2 w) * b + octet (Suc 0) w) * b + octet 0 w = n"
    unfolding oct by (simp only: div_mult_mod_eq)
  then show ?thesis by (simp add: of_octets_def b_def n_def)
qed

lemma parseIPv4_ip_string: "parseIPv4 (ip_string w) = Some w"
proof -
  have "split_on (CHR ''.'') (ip_string w) =
      [itoa (octet 3 w), itoa (octet 2 w), itoa (octet 1 w), itoa (octet 0 w)]"
    unfolding ip_string_def by (simp add: split_on_append split_on_single dot_not_in_itoa)
  then show ?thesis by (simp add: parseIPv4_def parse_octet_itoa octet_le)
qed

lemma ip_string_inject [simp]: "ip_string v = ip_string w \<longleftrightarrow> v = w"
  using parseIPv4_ip_string by (metis option.inject)

text \<open>Printing an IPv4 address and parsing it back gives the address.\<close>

lemma ip_string_roundtrip: "ParseIP (ip_string w) = Some (IP4 w)"
proof -
  have "filter (\<lambda>c. c = CHR ''.'' \<or> c = CHR '':'' \<or> c = CHR ''%'') (itoa n) = []" for n
    using itoa_is_digits(1) [of n] by (auto simp: filter_empty_conv list_all_iff is_digit_def)
  then have "\<exists>t. filter (\<lambda>c. c = CHR ''.'' \<or> c = CHR '':'' \<or> c = CHR ''%'') (ip_string w) = CHR ''.'' # t"
    by (simp add: ip_string_def)
  then show ?thesis by (auto simp: ParseIP_def parseIPv4_ip_string)
qed

end
