(* ===== verification/Group_CIDR.thy ===== *)
theory Group_CIDR
  imports Network_Types Net_Addr
begin

text \<open>
  Subnets for the groups of a network (group\_cidr.go). The groups are taken in the order of
  their names; each gets the smallest power-of-two block for its expected size, placed at the
  next aligned address. Arithmetic is on 32-bit words, as in the code.
\<close>

section \<open>Block sizes\<close>

text \<open>The loop of groupPrefixLen, by the shift count 32 - prefix.\<close>

function shift_for :: "int \<Rightarrow> nat \<Rightarrow> nat" where
  "shift_for needed k = (if 2 ^ k < needed then shift_for needed (Suc k) else k)"
  by auto
termination
  by (relation "measure (\<lambda>(needed, k). nat (needed - 2 ^ k))") auto

declare shift_for.simps [simp del]

definition groupPrefixLen :: "int \<Rightarrow> int" where
  "groupPrefixLen n = (if n \<le> 2 then 30 else 32 - int (shift_for (n + 2) 2))"

text \<open>The block size uint32(1) << (32 - prefix).\<close>

definition block_size :: "int \<Rightarrow> ipv4" where
  "block_size prefix = push_bit (nat (32 - prefix)) 1"

section \<open>Carving\<close>

definition cidr_string :: "ipv4 \<Rightarrow> int \<Rightarrow> string" where
  "cidr_string ip prefix = ip_string ip @ ''/'' @ itoa_int prefix"

definition align_up :: "ipv4 \<Rightarrow> ipv4 \<Rightarrow> ipv4" where
  "align_up cursor blockSize = (cursor + blockSize - 1) AND NOT (blockSize - 1)"

fun carve :: "string \<Rightarrow> ipv4 \<Rightarrow> ipv4 \<Rightarrow> ipv4 \<Rightarrow> NetworkGroupSpec list \<Rightarrow> error + GroupCIDR list" where
  "carve parentCIDR parentStart parentSize cursor [] = Inr []"
| "carve parentCIDR parentStart parentSize cursor (g # gs) =
     (let prefix = groupPrefixLen (ng_ExpectedSize g);
          blockSize = block_size prefix;
          aligned = align_up cursor blockSize in
      if aligned < parentStart \<or> aligned - parentStart + blockSize > parentSize
      then Inl (Err (''group '' @ ng_Name g @ '': no space left in '' @ parentCIDR))
      else case carve parentCIDR parentStart parentSize (aligned + blockSize) gs of
             Inl e \<Rightarrow> Inl e
           | Inr rest \<Rightarrow> Inr (\<lparr>gc_Name = ng_Name g, gc_CIDR = cidr_string aligned prefix\<rparr> # rest))"

text \<open>A parent that is not an IPv4 prefix makes the conversion of its address, or the negative
  shift, panic.\<close>

definition carveGroupCIDRs :: "sorter \<Rightarrow> string \<Rightarrow> NetworkGroupSpec list \<Rightarrow> error + GroupCIDR list" where
  "carveGroupCIDRs srt parentCIDR groups =
     (if groups = [] then Inr []
      else case ParseCIDR parentCIDR of
        None \<Rightarrow> Inl (Err (''parse subnet '' @ parentCIDR))
      | Some parent \<Rightarrow>
          (case To4 (net_ip parent) of
             None \<Rightarrow> Inl (Panic ''index out of range'')
           | Some parentStart \<Rightarrow>
               if 32 < net_prefix parent then Inl (Panic ''negative shift amount'')
               else
                 let parentSize = push_bit (32 - net_prefix parent) 1;
                     sorted = sort_slice srt (\<lambda>a b. ng_Name a < ng_Name b) groups in
                 carve parentCIDR parentStart parentSize parentStart sorted))"

section \<open>Sizes fit\<close>

lemma shift_for_least:
  assumes "needed \<le> 2 ^ m" and "k \<le> m"
  shows "needed \<le> 2 ^ shift_for needed k \<and> k \<le> shift_for needed k \<and> shift_for needed k \<le> m \<and>
    (k < shift_for needed k \<longrightarrow> 2 ^ (shift_for needed k - 1) < needed)"
  using assms
proof (induction needed k rule: shift_for.induct)
  case (1 needed k)
  show ?case
  proof (cases "2 ^ k < needed")
    case True
    then have "k \<noteq> m" using "1.prems" by auto
    then have "Suc k \<le> m" using "1.prems" by simp
    with 1 True have IH: "needed \<le> 2 ^ shift_for needed (Suc k)" "Suc k \<le> shift_for needed (Suc k)"
      "shift_for needed (Suc k) \<le> m"
      "Suc k < shift_for needed (Suc k) \<longrightarrow> 2 ^ (shift_for needed (Suc k) - 1) < needed" by blast+
    have "2 ^ (shift_for needed (Suc k) - 1) < needed"
      using IH(2,4) True by (cases "Suc k < shift_for needed (Suc k)") (auto simp: le_less)
    then show ?thesis using IH(1-3) True by (subst (1 2 3 4 5) shift_for.simps) simp
  next
    case False
    then show ?thesis using "1.prems" by (subst (1 2 3 4 5) shift_for.simps) simp
  qed
qed

text \<open>The number of address bits of a group's block.\<close>

definition group_bits :: "int \<Rightarrow> nat" where
  "group_bits n = nat (32 - groupPrefixLen n)"

lemma group_bits_fit:
  assumes "n + 2 \<le> 2 ^ m" and "2 \<le> m"
  shows "n + 2 \<le> 2 ^ group_bits n" "group_bits n \<le> m" "groupPrefixLen n = 32 - int (group_bits n)"
    "2 \<le> group_bits n"
  using shift_for_least [OF assms] assms by (auto simp: group_bits_def groupPrefixLen_def)

text \<open>The block of a group holds its hosts and is the smallest that does: for every int32 size
  the chosen prefix lies between 0 and 30, a block of that prefix has room for the hosts with the
  network and broadcast addresses, and for a prefix below 30 the next smaller block does not.\<close>

theorem groupPrefixLen_minimal:
  assumes "n < 2 ^ 31"
  shows "0 \<le> groupPrefixLen n \<and> groupPrefixLen n \<le> 30 \<and> n + 2 \<le> 2 ^ nat (32 - groupPrefixLen n) \<and>
    (groupPrefixLen n < 30 \<longrightarrow> 2 ^ nat (31 - groupPrefixLen n) < n + 2)"
proof (cases "n \<le> 2")
  case True
  then show ?thesis by (simp add: groupPrefixLen_def)
next
  case False
  define k where "k = shift_for (n + 2) 2"
  have "n + 2 \<le> 2 ^ k" "2 \<le> k" "k \<le> 32" "2 < k \<longrightarrow> 2 ^ (k - 1) < n + 2"
    using shift_for_least [of "n + 2" 32 2] assms by (auto simp: k_def)
  moreover have "groupPrefixLen n = 32 - int k" using False by (simp add: groupPrefixLen_def k_def)
  moreover have "nat (32 - (32 - int k)) = k" "nat (31 - (32 - int k)) = k - 1" by simp_all
  ultimately show ?thesis by simp
qed

theorem groupPrefixLen_minimal_witness:
  "groupPrefixLen 14 = 28 \<and> 14 + 2 \<le> (2 :: int) ^ nat (32 - groupPrefixLen 14)"
proof -
  have "groupPrefixLen 14 = 28"
    unfolding groupPrefixLen_def by (simp add: shift_for.simps)
  then show ?thesis using groupPrefixLen_minimal [of 14] by simp
qed

section \<open>Placement\<close>

lemma not_block_mask:
  assumes "k \<le> 32"
  shows "NOT (push_bit k 1 - 1 :: ipv4) = net_mask (32 - k)"
proof -
  have "push_bit k 1 - 1 = (mask k :: ipv4)" by (simp add: mask_eq_exp_minus_1 push_bit_eq_mult)
  then show ?thesis
    using assms by (auto intro!: bit_eqI simp: net_mask_def bit_simps)
qed

lemma unat_align_up:
  assumes "k \<le> 31"
  shows "unat (align_up c (push_bit k 1)) = (unat c + 2 ^ k - 1) mod 2 ^ 32 div 2 ^ k * 2 ^ k"
proof -
  have "1 \<le> unat c + 2 ^ k" by (simp add: Suc_leI)
  then have "word_of_nat (unat c + 2 ^ k - 1) = (word_of_nat (unat c + 2 ^ k) - word_of_nat 1 :: ipv4)"
    by (rule of_nat_diff)
  then have "c + push_bit k 1 - 1 = word_of_nat (unat c + 2 ^ k - 1)"
    by (simp add: push_bit_eq_mult)
  then have "unat (c + push_bit k 1 - 1) = (unat c + 2 ^ k - 1) mod 2 ^ 32"
    by (simp add: unat_of_nat)
  moreover have "align_up c (push_bit k 1) = (c + push_bit k 1 - 1) AND net_mask (32 - k)"
    unfolding align_up_def using assms by (subst not_block_mask) simp_all
  ultimately show ?thesis
    using assms unat_and_net_mask [of "32 - k" "c + push_bit k 1 - 1"] by simp
qed

lemma unat_block:
  assumes "k < 32"
  shows "unat (push_bit k 1 :: ipv4) = 2 ^ k"
proof -
  have "(2 :: nat) ^ k < 2 ^ 32" using assms by (intro power_strict_increasing) simp_all
  moreover have "unat (push_bit k 1 :: ipv4) = 2 ^ k mod 2 ^ 32"
    unfolding unsigned_push_bit_eq by (simp add: push_bit_eq_mult take_bit_eq_mod)
  ultimately show ?thesis by simp
qed

lemma block_end_le:
  assumes "unat (w :: ipv4) mod 2 ^ s = 0" "s \<le> 32"
  shows "unat w + 2 ^ s \<le> 2 ^ 32"
proof -
  obtain q where q: "unat w = 2 ^ s * q" using assms(1) by (auto simp: mod_eq_0_iff_dvd dvd_def)
  have eq: "(2 :: nat) ^ 32 = 2 ^ s * 2 ^ (32 - s)" using assms(2) by (simp flip: power_add)
  have "unat w < 2 ^ 32" using unsigned_less [of w, where 'a = nat] by simp
  then have "q < 2 ^ (32 - s)" unfolding q eq by simp
  then have "2 ^ s * (q + 1) \<le> 2 ^ s * 2 ^ (32 - s)" by (intro mult_left_mono) auto
  then show ?thesis unfolding q eq by simp
qed

text \<open>One block: what the checks of the loop guarantee about the aligned address.\<close>

lemma aligned_block:
  assumes parent: "unat w mod 2 ^ s = 0" "s \<le> 31" and cur: "unat w \<le> cur" "cur \<le> unat w + 2 ^ s"
    and k: "k \<le> 30" and a: "a = align_up (word_of_nat cur) (push_bit k 1)"
    and ok: "\<not> a < w" "\<not> a - w + push_bit k 1 > push_bit s 1"
  shows "cur \<le> unat a" "2 ^ k dvd unat a" "unat a + 2 ^ k \<le> unat w + 2 ^ s"
proof -
  have wle: "unat w \<le> unat a" using ok(1) by (simp add: word_le_nat_alt not_less)
  have pow: "(2 :: nat) ^ s \<le> 2 ^ 31" "(2 :: nat) ^ k \<le> 2 ^ 30"
    using parent(2) k by (auto intro: power_increasing simp del: power_numeral)
  have una: "unat a = (unat (word_of_nat cur :: ipv4) + 2 ^ k - 1) mod 2 ^ 32 div 2 ^ k * 2 ^ k"
    using unat_align_up [of k "word_of_nat cur"] k by (simp add: a)
  have wlt: "unat w < 2 ^ 32" using unsigned_less [of w, where 'a = nat] by simp
  have zero: False if "unat a = 0" "2 ^ 31 < cur"
    using that wle cur(2) pow(1) by simp
  have small: "cur + 2 ^ k - 1 < 2 ^ 32"
  proof (rule ccontr)
    assume big: "\<not> cur + 2 ^ k - 1 < 2 ^ 32"
    then have gt: "2 ^ 31 < cur" using pow(2) by simp
    have "(unat (word_of_nat cur :: ipv4) + 2 ^ k - 1) mod 2 ^ 32 < 2 ^ k"
    proof (cases "cur < 2 ^ 32")
      case True
      then have "unat (word_of_nat cur :: ipv4) = cur" by (simp add: unat_of_nat)
      moreover have "(cur + 2 ^ k - 1) mod 2 ^ 32 = cur + 2 ^ k - 1 - 2 ^ 32"
        using big True pow(2) by (simp add: mod_if)
      moreover have "cur + 2 ^ k - 1 - 2 ^ 32 < 2 ^ k" using True zero_less_power [of "2 :: nat" k] by linarith
      ultimately show ?thesis by simp
    next
      case False
      have "cur \<le> 2 ^ 32" using block_end_le [OF parent(1)] parent(2) cur(2) by simp
      then have "cur = 2 ^ 32" using False by simp
      then have "unat (word_of_nat cur :: ipv4) = 0" by (simp add: unat_of_nat)
      then show ?thesis using pow(2) by simp
    qed
    then have "unat a = 0" unfolding una by simp
    then show False using zero gt by blast
  qed
  have curlt: "cur < 2 ^ 32" using small zero_less_power [of "2 :: nat" k] by linarith
  then have una': "unat a = (cur + 2 ^ k - 1) div 2 ^ k * 2 ^ k"
    using small unfolding una by (simp add: unat_of_nat)
  show "2 ^ k dvd unat a" unfolding una' by simp
  have "cur + 2 ^ k - 1 < unat a + 2 ^ k"
    unfolding una' using dividend_less_div_times [of "2 ^ k" "cur + 2 ^ k - 1"] by simp
  then show lower: "cur \<le> unat a" by simp
  have upper: "unat a \<le> cur + 2 ^ k - 1" unfolding una' by simp
  have diff: "unat (a - w) = unat a - unat w" using wle by (simp add: unat_sub word_le_nat_alt)
  have "unat a - unat w + 2 ^ k < 2 ^ 32" using upper cur pow by simp
  moreover have "unat (push_bit k 1 :: ipv4) = 2 ^ k" by (rule unat_block) (use k in simp)
  ultimately have sum: "unat (a - w + push_bit k 1) = unat a - unat w + 2 ^ k"
    using diff by (simp add: unat_word_ariths del: push_bit_of_1)
  have "unat (push_bit s 1 :: ipv4) = 2 ^ s" by (rule unat_block) (use parent(2) in simp)
  then have "unat a - unat w + 2 ^ k \<le> 2 ^ s"
    using ok(2) sum by (simp add: word_less_nat_alt not_less)
  then show "unat a + 2 ^ k \<le> unat w + 2 ^ s" using wle by simp
qed

text \<open>The blocks of the groups, in order, from \<open>cur\<close> on and below \<open>hi\<close>: aligned, without overlap.\<close>

fun placed :: "nat \<Rightarrow> nat \<Rightarrow> NetworkGroupSpec list \<Rightarrow> nat list \<Rightarrow> bool" where
  "placed cur hi [] [] = True"
| "placed cur hi (g # gs) (a # as) =
     (cur \<le> a \<and> 2 ^ group_bits (ng_ExpectedSize g) dvd a \<and> a + 2 ^ group_bits (ng_ExpectedSize g) \<le> hi \<and>
      placed (a + 2 ^ group_bits (ng_ExpectedSize g)) hi gs as)"
| "placed cur hi _ _ = False"

definition group_entry :: "NetworkGroupSpec \<Rightarrow> nat \<Rightarrow> GroupCIDR" where
  "group_entry g a = \<lparr>gc_Name = ng_Name g,
     gc_CIDR = cidr_string (word_of_nat a) (groupPrefixLen (ng_ExpectedSize g))\<rparr>"

lemma carve_placed:
  assumes parent: "unat w mod 2 ^ s = 0" "s \<le> 31"
    and sizes: "\<forall>g\<in>set gs. ng_ExpectedSize g + 2 \<le> 2 ^ 30"
    and cur: "unat w \<le> cur" "cur \<le> unat w + 2 ^ s"
    and run: "carve p w (push_bit s 1) (word_of_nat cur) gs = Inr res"
  shows "\<exists>as. placed cur (unat w + 2 ^ s) gs as \<and> res = map2 group_entry gs as"
  using sizes cur run
proof (induction gs arbitrary: cur res)
  case Nil
  then show ?case by (intro exI [of _ "[]"]) simp
next
  case (Cons g gs)
  define k where "k = group_bits (ng_ExpectedSize g)"
  define a where "a = align_up (word_of_nat cur) (push_bit k 1)"
  have k: "k \<le> 30" using group_bits_fit [of "ng_ExpectedSize g" 30] Cons.prems(1) by (simp add: k_def)
  have size: "block_size (groupPrefixLen (ng_ExpectedSize g)) = push_bit k 1"
    by (simp add: block_size_def k_def group_bits_def)
  obtain rest where rest: "\<not> a < w" "\<not> a - w + push_bit k 1 > push_bit s 1"
    "carve p w (push_bit s 1) (a + push_bit k 1) gs = Inr rest"
    "res = \<lparr>gc_Name = ng_Name g, gc_CIDR = cidr_string a (groupPrefixLen (ng_ExpectedSize g))\<rparr> # rest"
    using Cons.prems(4)
    by (auto simp: Let_def size a_def [symmetric] simp del: push_bit_of_1 split: if_splits sum.splits)
  note block = aligned_block [OF parent Cons.prems(2,3) k a_def rest(1,2)]
  have next_cur: "a + push_bit k 1 = word_of_nat (unat a + 2 ^ k)" by (simp add: push_bit_eq_mult)
  have "unat w \<le> unat a + 2 ^ k" using block(1) Cons.prems(2) by simp
  from Cons.IH [OF _ this block(3) rest(3) [unfolded next_cur]] Cons.prems(1)
  obtain as where "placed (unat a + 2 ^ k) (unat w + 2 ^ s) gs as" "rest = map2 group_entry gs as"
    by auto
  then show ?case
    using block rest(4) by (intro exI [of _ "unat a # as"]) (simp add: k_def group_entry_def)
qed

lemma placed_length: "placed cur hi gs as \<Longrightarrow> length as = length gs"
  by (induction cur hi gs as rule: placed.induct) auto

lemma placed_nth:
  "placed cur hi gs as \<Longrightarrow> i < length gs \<Longrightarrow>
     cur \<le> as ! i \<and> 2 ^ group_bits (ng_ExpectedSize (gs ! i)) dvd as ! i \<and>
     as ! i + 2 ^ group_bits (ng_ExpectedSize (gs ! i)) \<le> hi"
proof (induction cur hi gs as arbitrary: i rule: placed.induct)
  case (2 cur hi g gs a as)
  then show ?case by (cases i) (auto intro: le_trans [OF _ le_trans [OF le_add1]])
qed auto

lemma placed_disjoint:
  "placed cur hi gs as \<Longrightarrow> i < j \<Longrightarrow> j < length gs \<Longrightarrow>
     as ! i + 2 ^ group_bits (ng_ExpectedSize (gs ! i)) \<le> as ! j"
proof (induction cur hi gs as arbitrary: i j rule: placed.induct)
  case (2 cur hi g gs a as)
  then obtain j' where j: "j = Suc j'" by (cases j) auto
  show ?case
  proof (cases i)
    case 0
    then show ?thesis using 2 j placed_nth [of "a + 2 ^ group_bits (ng_ExpectedSize g)" hi gs as j'] by simp
  next
    case (Suc i')
    then show ?thesis using 2 j by simp
  qed
qed auto

text \<open>The printed subnet of an aligned block parses back to that block, which covers exactly its
  addresses.\<close>

lemma dtoi_itoa: "n < 16777215 \<Longrightarrow> dtoi (itoa n) = Some n"
  using dec_val_base_val [OF itoa_is_digits(1)] base_val_itoa [of n] itoa_is_digits [of n]
  by (simp add: dtoi_def)

lemma slash_not_in_ip_string: "CHR ''/'' \<notin> set (ip_string w)"
proof -
  have "CHR ''/'' \<notin> set (itoa n)" for n
    using itoa_is_digits(1) [of n] by (auto simp: list_all_iff is_digit_def)
  then show ?thesis by (simp add: ip_string_def)
qed

lemma ParseCIDR_cidr_string:
  assumes "p \<le> 32"
  shows "ParseCIDR (cidr_string w (int p)) = Some (Net4 (w AND net_mask p) p)"
  using assms
  by (simp add: ParseCIDR_def cidr_string_def cut_at_append slash_not_in_ip_string ip_string_roundtrip
      itoa_int_def dtoi_itoa)

lemma contains4_block:
  assumes "k \<le> 32" "2 ^ k dvd unat a"
  shows "contains4 (Net4 (a AND net_mask (32 - k)) (32 - k)) ip \<longleftrightarrow>
    unat a \<le> unat ip \<and> unat ip < unat a + 2 ^ k"
proof -
  obtain q where q: "unat a = 2 ^ k * q" using assms(2) by (auto simp: dvd_def)
  have "unat (a AND net_mask (32 - k)) div 2 ^ k = q"
    using assms(1) by (simp add: unat_and_net_mask q)
  then have "contains4 (Net4 (a AND net_mask (32 - k)) (32 - k)) ip \<longleftrightarrow> unat ip div 2 ^ k = q"
    using contains4_iff [of "32 - k" "a AND net_mask (32 - k)" ip] assms(1) by simp
  also have "\<dots> \<longleftrightarrow> q \<le> unat ip div 2 ^ k \<and> unat ip div 2 ^ k < q + 1" by auto
  also have "\<dots> \<longleftrightarrow> unat a \<le> unat ip \<and> unat ip < unat a + 2 ^ k"
    by (simp add: q less_eq_div_iff_mult_less_eq div_less_iff_less_mult algebra_simps)
  finally show ?thesis .
qed

lemma contains4_net:
  assumes "ParseCIDR s = Some (Net4 w n)"
  shows "contains4 (Net4 w n) ip \<longleftrightarrow> unat w \<le> unat ip \<and> unat ip < unat w + 2 ^ (32 - n)"
proof -
  have "2 ^ (32 - n) dvd unat w" using net_aligned [OF assms] by (simp add: mod_eq_0_iff_dvd)
  then show ?thesis
    using contains4_block [of "32 - n" w ip] ParseCIDR_Net4 [OF assms] by simp
qed

lemma carveGroupCIDRs_placed:
  assumes parent: "ParseCIDR s = Some (Net4 w n)" "1 \<le> n"
    and sizes: "\<forall>g\<in>set groups. ng_ExpectedSize g + 2 \<le> 2 ^ 30"
    and srt: "slice_sort srt" and run: "carveGroupCIDRs srt s groups = Inr res"
  shows "\<exists>as. placed (unat w) (unat w + 2 ^ (32 - n)) (sort_slice srt (\<lambda>a b. ng_Name a < ng_Name b) groups) as \<and>
    res = map2 group_entry (sort_slice srt (\<lambda>a b. ng_Name a < ng_Name b) groups) as"
proof (cases "groups = []")
  case True
  then show ?thesis
    using run by (intro exI [of _ "[]"]) (simp add: carveGroupCIDRs_def slice_sort.sort_slice_Nil [OF srt, THEN iffD2])
next
  case False
  have n: "n \<le> 32" by (rule ParseCIDR_Net4(1) [OF parent(1)])
  then have "carve s w (push_bit (32 - n) 1) (word_of_nat (unat w))
      (sort_slice srt (\<lambda>a b. ng_Name a < ng_Name b) groups) = Inr res"
    using run False parent(1) by (simp add: carveGroupCIDRs_def Let_def)
  then show ?thesis
    using parent(2) sizes
    by (intro carve_placed [of w "32 - n" _ "unat w" s] net_aligned [OF parent(1)])
      (auto simp: slice_sort.sort_slice_set [OF srt])
qed

text \<open>C12. A carved subnet plan is sound. For an IPv4 parent other than /0 and sizes a /2 can hold,
  a successful run yields one entry per group, in the order of the names; every entry is a
  well-formed CIDR, has room for the hosts of its group with network and broadcast address, lies
  inside the parent, and shares no address with the entry of another group.\<close>

theorem carveGroupCIDRs_sound:
  assumes "slice_sort srt" and "ParseCIDR s = Some (Net4 w n)" and "1 \<le> n"
    and "\<forall>g\<in>set groups. ng_ExpectedSize g + 2 \<le> 2 ^ 30"
    and "carveGroupCIDRs srt s groups = Inr res"
  shows "let order = sort_slice srt (\<lambda>a b. ng_Name a < ng_Name b) groups in
    map gc_Name res = map ng_Name order \<and>
    (\<exists>nets. map (ParseCIDR \<circ> gc_CIDR) res = map Some nets \<and>
      (\<forall>i < length order. ng_ExpectedSize (order ! i) + 2 \<le> 2 ^ (32 - net_prefix (nets ! i)) \<and>
         (\<forall>ip. contains4 (nets ! i) ip \<longrightarrow> contains4 (Net4 w n) ip)) \<and>
      (\<forall>j < length order. \<forall>i < j. \<forall>ip. \<not> (contains4 (nets ! i) ip \<and> contains4 (nets ! j) ip)))"
proof -
  define order where "order = sort_slice srt (\<lambda>a b. ng_Name a < ng_Name b) groups"
  obtain as where as: "placed (unat w) (unat w + 2 ^ (32 - n)) order as" "res = map2 group_entry order as"
    using carveGroupCIDRs_placed [OF assms(2,3,4,1,5)] unfolding order_def by blast
  have len: "length as = length order" by (rule placed_length [OF as(1)])
  define bits where "bits i = group_bits (ng_ExpectedSize (order ! i))" for i
  define nets where "nets = map2 (\<lambda>g a. Net4 (word_of_nat a AND net_mask (32 - group_bits (ng_ExpectedSize g)))
      (32 - group_bits (ng_ExpectedSize g))) order as"
  have fit: "ng_ExpectedSize g + 2 \<le> 2 ^ group_bits (ng_ExpectedSize g)" "group_bits (ng_ExpectedSize g) \<le> 30"
    "groupPrefixLen (ng_ExpectedSize g) = int (32 - group_bits (ng_ExpectedSize g))" if "g \<in> set order" for g
    using group_bits_fit [of "ng_ExpectedSize g" 30] assms(4) that
    by (auto simp: order_def slice_sort.sort_slice_set [OF assms(1)])
  have names: "map gc_Name res = map ng_Name order"
    using len by (simp add: as(2) list_eq_iff_nth_eq group_entry_def)
  have parse: "map (ParseCIDR \<circ> gc_CIDR) res = map Some nets"
    using len fit
    by (auto simp: as(2) nets_def list_eq_iff_nth_eq group_entry_def ParseCIDR_cidr_string)
  have wmax: "unat w + 2 ^ (32 - n) \<le> 2 ^ 32"
    using block_end_le [OF net_aligned [OF assms(2)]] by simp
  have cover: "contains4 (nets ! i) ip \<longleftrightarrow> as ! i \<le> unat ip \<and> unat ip < as ! i + 2 ^ bits i"
    if i: "i < length order" for i ip
  proof -
    have blk: "2 ^ bits i dvd as ! i" "as ! i + 2 ^ bits i \<le> unat w + 2 ^ (32 - n)"
      using placed_nth [OF as(1) i] by (auto simp: bits_def)
    then have "as ! i < 2 ^ 32" using wmax zero_less_power [of "2 :: nat" "bits i"] by linarith
    then have "unat (word_of_nat (as ! i) :: ipv4) = as ! i" by (simp add: unat_of_nat)
    then show ?thesis
      using contains4_block [of "bits i" "word_of_nat (as ! i)" ip] blk(1) fit(2) [OF nth_mem [OF i]] i len
      by (simp add: nets_def bits_def)
  qed
  have room: "ng_ExpectedSize (order ! i) + 2 \<le> 2 ^ (32 - net_prefix (nets ! i))" if "i < length order" for i
    using fit [OF nth_mem [OF that]] that len by (simp add: nets_def)
  have inside: "contains4 (Net4 w n) ip" if "i < length order" "contains4 (nets ! i) ip" for i ip
    using placed_nth [OF as(1) that(1)] that cover [OF that(1)] contains4_net [OF assms(2), of ip]
    by (auto simp: bits_def)
  have apart: "\<not> (contains4 (nets ! i) ip \<and> contains4 (nets ! j) ip)" if "i < j" "j < length order" for i j ip
    using placed_disjoint [OF as(1) that] cover [of i] cover [of j] that by (auto simp: bits_def)
  show ?thesis
    unfolding Let_def order_def [symmetric]
    using names parse room inside apart by blast
qed

definition example_groups :: "NetworkGroupSpec list" where
  "example_groups =
     [\<lparr>ng_Name = ''web'', ng_Connectivity = '''', ng_ExpectedSize = 10\<rparr>,
      \<lparr>ng_Name = ''db'', ng_Connectivity = '''', ng_ExpectedSize = 2\<rparr>]"

theorem carveGroupCIDRs_sound_witness:
  "ParseCIDR ''10.1.0.0/24'' = Some (Net4 167837696 24) \<and>
   carveGroupCIDRs insertion_sort ''10.1.0.0/24'' example_groups =
     Inr [\<lparr>gc_Name = ''db'', gc_CIDR = ''10.1.0.0/30''\<rparr>, \<lparr>gc_Name = ''web'', gc_CIDR = ''10.1.0.16/28''\<rparr>] \<and>
   (\<exists>nets. map ParseCIDR [''10.1.0.0/30'', ''10.1.0.16/28''] = map Some nets \<and>
      \<not> (contains4 (nets ! 0) 167837697 \<and> contains4 (nets ! 1) 167837697))"
proof -
  have parse: "ParseCIDR ''10.1.0.0/24'' = Some (Net4 167837696 24)" by code_simp
  have order: "sort_slice insertion_sort (\<lambda>a b. ng_Name a < ng_Name b) example_groups = rev example_groups"
    by code_simp
  have prefix: "groupPrefixLen 10 = 28" "groupPrefixLen 2 = 30" by code_simp+
  have str: "cidr_string 167837696 30 = ''10.1.0.0/30''" "cidr_string 167837712 28 = ''10.1.0.16/28''" by code_simp+
  have run: "carveGroupCIDRs insertion_sort ''10.1.0.0/24'' example_groups =
     Inr [\<lparr>gc_Name = ''db'', gc_CIDR = ''10.1.0.0/30''\<rparr>, \<lparr>gc_Name = ''web'', gc_CIDR = ''10.1.0.16/28''\<rparr>]"
    unfolding carveGroupCIDRs_def parse order
    by (simp add: example_groups_def prefix align_up_def block_size_def str Let_def)
  have sizes: "\<forall>g\<in>set example_groups. ng_ExpectedSize g + 2 \<le> 2 ^ 30" by (simp add: example_groups_def)
  have two: "length (sort_slice insertion_sort (\<lambda>a b. ng_Name a < ng_Name b) example_groups) = 2"
    by (simp add: example_groups_def)
  have "(1 :: nat) \<le> 24" by simp
  from carveGroupCIDRs_sound [OF go_sort.slice_sort_axioms parse this sizes run, unfolded Let_def two]
  obtain nets where nets: "map ParseCIDR [''10.1.0.0/30'', ''10.1.0.16/28''] = map Some nets"
    "\<forall>j<2. \<forall>i<j. \<forall>ip. \<not> (contains4 (nets ! i) ip \<and> contains4 (nets ! j) ip)"
    by (elim conjE exE) (simp only: list.map comp_def GroupCIDR.select_convs)
  then have "\<not> (contains4 (nets ! 0) 167837697 \<and> contains4 (nets ! 1) 167837697)" by simp
  with nets(1) show ?thesis using parse run by blast
qed

end
