(* ===== verification/IP_Allocator.thy ===== *)
theory IP_Allocator
  imports Group_CIDR
begin

text \<open>
  The in-memory IP allocator of the node agent (internal/agent/network/ipallocator.go): one set of
  addresses in use and one VM count per network key. The methods hold the mutex throughout, so an
  execution is a sequence of whole operations. Allocation is proved to return the lowest free host
  address, and the allocator is proved to implement a list of live grants, from which the
  uniqueness of grants and the exactness of the VM count follow.
\<close>

section \<open>Addresses\<close>

text \<open>The octets of nextIP, last one first, with the carry.\<close>

fun inc_octets :: "nat list \<Rightarrow> nat list" where
  "inc_octets [] = []"
| "inc_octets (b # bs) = (let b' = (b + 1) mod 256 in if b' \<noteq> 0 then b' # bs else b' # inc_octets bs)"

fun of_octet_list :: "nat list \<Rightarrow> ipv4" where
  "of_octet_list [] = 0"
| "of_octet_list (b # bs) = word_of_nat b + 256 * of_octet_list bs"

text \<open>The copy of a nil address leaves the four zero octets of the new one.\<close>

definition nextIP :: "ipv4 option \<Rightarrow> ipv4" where
  "nextIP ip = of_octet_list (inc_octets (rev (bytes_of_ipv4 (case ip of None \<Rightarrow> 0 | Some w \<Rightarrow> w))))"

text \<open>The first four bytes of the mask of a prefix; an IPv6 mask has sixteen.\<close>

fun mask4 :: "ipnet \<Rightarrow> ipv4" where
  "mask4 (Net4 w n) = net_mask n"
| "mask4 (Net6 bs n) = net_mask (min n 32)"

definition broadcastIP :: "ipnet \<Rightarrow> error + ipv4" where
  "broadcastIP cidr =
     (case To4 (net_ip cidr) of
        None \<Rightarrow> Inl (Panic ''index out of range'')
      | Some ip \<Rightarrow> Inr (ip OR NOT (mask4 cidr)))"

text \<open>The loop of sizeToCIDRPrefix, by the prefix.\<close>

function prefix_for :: "int \<Rightarrow> int \<Rightarrow> int" where
  "prefix_for needed prefix =
     (if 2 ^ nat (32 - prefix) < needed then prefix_for needed (prefix - 1) else prefix)"
  by auto
termination
proof (relation "measure (\<lambda>(needed, prefix). nat (needed - 2 ^ nat (32 - prefix)) + nat prefix)", goal_cases)
  case (2 needed prefix)
  have le: "nat (needed - 2 ^ nat (32 - (prefix - 1))) \<le> nat (needed - 2 ^ nat (32 - prefix))"
    by (intro nat_mono diff_left_mono power_increasing) auto
  have less: "nat (needed - 2 ^ nat (32 - (prefix - 1))) < nat (needed - 2 ^ nat (32 - prefix))" if "prefix \<le> 0"
  proof -
    have "(2 :: int) ^ nat (32 - prefix) < 2 ^ nat (32 - (prefix - 1))"
      using that by (intro power_strict_increasing) auto
    then show ?thesis using 2 unfolding zless_nat_conj by simp
  qed
  have "nat (prefix - 1) < nat prefix" if "\<not> prefix \<le> 0" using that by simp
  then show ?case
    using le less by (cases "prefix \<le> 0") (simp_all only: in_measure prod.case, simp_all add: add_le_less_mono)
qed simp

declare prefix_for.simps [simp del]

definition sizeToCIDRPrefix :: "int \<Rightarrow> int" where
  "sizeToCIDRPrefix n = (if n \<le> 2 then 30 else prefix_for (n + 2) 30)"

section \<open>The allocator\<close>

record Allocator =
  allocated :: "string \<rightharpoonup> string list"
  vmCount :: "string \<rightharpoonup> int"

definition NewAllocator :: Allocator where
  "NewAllocator = \<lparr>allocated = Map.empty, vmCount = Map.empty\<rparr>"

definition the_set :: "string list option \<Rightarrow> string list" where
  "the_set s = (case s of None \<Rightarrow> [] | Some xs \<Rightarrow> xs)"

definition the_count :: "int option \<Rightarrow> int" where
  "the_count c = (case c of None \<Rightarrow> 0 | Some n \<Rightarrow> n)"

text \<open>The scan of the subnet. It ends at the broadcast address, or where it leaves the subnet.\<close>

function scan :: "ipnet \<Rightarrow> ipv4 \<Rightarrow> ipv4 option \<Rightarrow> string list \<Rightarrow> ipv4 \<Rightarrow> ipv4 option" where
  "scan cidr bcast gwIP used ip =
     (if \<not> contains4 cidr ip \<or> ip = bcast then None
      else if Some ip \<noteq> gwIP \<and> ip_string ip \<notin> set used then Some ip
      else scan cidr bcast gwIP used (nextIP (Some ip)))"
  by auto

text \<open>The gateway that is kept back: the given one when it is an IPv4 address, by default the
  first host address.\<close>

definition gateway_ip :: "ipnet \<Rightarrow> string \<Rightarrow> ipv4 option" where
  "gateway_ip cidr gateway =
     (if gateway = '''' then Some (nextIP (To4 (net_ip cidr)))
      else case ParseIP gateway of None \<Rightarrow> None | Some ip \<Rightarrow> To4 ip)"

lemma of_octets_list: "of_octet_list [d, c, b, a] = of_octets a b c d"
  by (simp add: of_octets_def algebra_simps)

lemma of_octet_list_inc: "list_all (\<lambda>b. b \<le> 255) bs \<Longrightarrow> length bs = k \<Longrightarrow>
   of_octet_list (inc_octets bs) = of_octet_list bs + 1 - (if inc_octets bs = replicate k 0 then 256 ^ k else 0)"
proof (induction bs arbitrary: k)
  case Nil
  then show ?case by simp
next
  case (Cons b bs)
  then obtain k' where k: "k = Suc k'" by (cases k) auto
  show ?case
  proof (cases "b = 255")
    case True
    let ?X = "if inc_octets bs = replicate k' 0 then 256 ^ k' else 0 :: ipv4"
    have "of_octet_list (inc_octets (b # bs)) = 256 * (of_octet_list bs + 1 - ?X)"
      using Cons.IH [of k'] Cons.prems k True by (simp only: inc_octets.simps) (simp add: Let_def)
    moreover have "(if inc_octets (b # bs) = replicate k 0 then 256 ^ k else 0 :: ipv4) = 256 * ?X"
      using k True by (simp add: Let_def)
    ultimately show ?thesis using True by (simp only: of_octet_list.simps) (simp add: algebra_simps)
  next
    case False
    then have "(b + 1) mod 256 = b + 1" using Cons.prems by simp
    then show ?thesis using k by (simp add: Let_def)
  qed
qed

text \<open>The carry through the octets is the increment of the 32-bit value.\<close>

lemma nextIP_Some [simp]: "nextIP (Some w) = w + 1"
proof -
  have "(256 :: ipv4) ^ 4 = 0" by simp
  moreover have "of_octet_list (rev (bytes_of_ipv4 w)) = w"
    using of_octets_list [of "octet 0 w" "octet 1 w" "octet 2 w" "octet 3 w"] of_octets_octet [of w]
    by (simp add: bytes_of_ipv4_def)
  moreover have "list_all (\<lambda>b. b \<le> 255) (rev (bytes_of_ipv4 w))" "length (rev (bytes_of_ipv4 w)) = 4"
    by (simp_all add: bytes_of_ipv4_def octet_le)
  ultimately show ?thesis
    using of_octet_list_inc [of "rev (bytes_of_ipv4 w)" 4] by (simp add: nextIP_def)
qed

text \<open>Every step of a scan comes closer to the broadcast address.\<close>

lemma scan_decreases:
  assumes "ip \<noteq> bcast"
  shows "unat (bcast - (ip + 1)) < unat (bcast - ip :: ipv4)"
proof -
  have "bcast - ip \<noteq> 0" using assms by auto
  then have "unat (bcast - ip - 1) < unat (bcast - ip)" by (simp add: unat_minus_one unat_gt_0)
  then show ?thesis by (simp add: diff_diff_eq)
qed

termination scan
  by (relation "measure (\<lambda>(cidr, bcast, gwIP, used, ip). unat (bcast - ip))") (auto simp: scan_decreases)

declare scan.simps [simp del]

definition Allocate :: "string \<Rightarrow> string \<Rightarrow> string \<Rightarrow> Allocator \<Rightarrow> (error + string) \<times> Allocator" where
  "Allocate netKey subnet gateway a =
     (case ParseCIDR subnet of
        None \<Rightarrow> (Inl (Err (''parse subnet '' @ subnet)), a)
      | Some cidr \<Rightarrow>
          let used = the_set (allocated a netKey);
              a' = a\<lparr>allocated := (allocated a)(netKey \<mapsto> used)\<rparr> in
          (case broadcastIP cidr of
             Inl p \<Rightarrow> (Inl p, a')
           | Inr bcast \<Rightarrow>
               (case scan cidr bcast (gateway_ip cidr gateway) used (nextIP (To4 (net_ip cidr))) of
                  None \<Rightarrow> (Inl (Err (''no free IPs in subnet '' @ subnet)), a')
                | Some ip \<Rightarrow>
                    (Inr (ip_string ip),
                     a\<lparr>allocated := (allocated a)(netKey \<mapsto> ip_string ip # used),
                       vmCount := (vmCount a)(netKey \<mapsto> the_count (vmCount a netKey) + 1)\<rparr>))))"

definition Release :: "string \<Rightarrow> string \<Rightarrow> Allocator \<Rightarrow> bool \<times> Allocator" where
  "Release netKey ip a =
     (let freed = (case allocated a netKey of
                     None \<Rightarrow> allocated a
                   | Some used \<Rightarrow> (allocated a)(netKey \<mapsto> filter (\<lambda>x. x \<noteq> ip) used));
          n = the_count (vmCount a netKey) - 1 in
      if n \<le> 0 then (True, a\<lparr>allocated := freed, vmCount := (vmCount a)(netKey := None)\<rparr>)
      else (False, a\<lparr>allocated := freed, vmCount := (vmCount a)(netKey \<mapsto> n)\<rparr>))"

definition Reserve :: "string \<Rightarrow> string \<Rightarrow> Allocator \<Rightarrow> Allocator" where
  "Reserve netKey ip a =
     (let used = the_set (allocated a netKey);
          a' = a\<lparr>allocated := (allocated a)(netKey \<mapsto> used)\<rparr> in
      if ip \<in> set used then a'
      else a'\<lparr>allocated := (allocated a)(netKey \<mapsto> ip # used),
              vmCount := (vmCount a)(netKey \<mapsto> the_count (vmCount a netKey) + 1)\<rparr>)"

section \<open>The lowest free host address\<close>

lemma broadcast_last:
  assumes "ParseCIDR s = Some (Net4 w n)"
  shows "unat (w OR NOT (net_mask n)) = unat w + 2 ^ (32 - n) - 1"
proof -
  have n: "n \<le> 32" by (rule ParseCIDR_Net4(1) [OF assms])
  have not_mask: "NOT (net_mask n) = (mask (32 - n) :: ipv4)"
    using n by (auto intro!: bit_eqI simp: net_mask_def bit_simps)
  have "w = w AND net_mask n" using ParseCIDR_Net4(2) [OF assms] by simp
  then have "\<not> bit w i \<or> \<not> bit (mask (32 - n) :: ipv4) i" for i
    using n by (metis bit_and_iff bit_not_iff not_mask)
  then have or: "w OR mask (32 - n) = w + mask (32 - n)" by (simp add: disjunctive_add)
  have "unat (mask (32 - n) :: ipv4) = 2 ^ (32 - n) - 1"
  proof -
    have "unat (mask (32 - n) :: ipv4) = mask (32 - n)" by (rule bit_eqI) (auto simp: bit_simps)
    then show ?thesis by (simp add: mask_eq_exp_minus_1)
  qed
  moreover have "unat w + 2 ^ (32 - n) \<le> 2 ^ 32" using block_end_le [OF net_aligned [OF assms]] by simp
  moreover have "0 < (2 :: nat) ^ (32 - n)" by simp
  ultimately show ?thesis
    unfolding not_mask or by (subst unat_plus_if_size) (simp add: word_size, linarith)
qed

lemma scan_lowest:
  assumes "\<And>x. unat ip \<le> unat x \<Longrightarrow> unat x < unat bcast \<Longrightarrow> contains4 cidr x"
    and "unat ip \<le> unat bcast"
  shows "case scan cidr bcast gw used ip of
      None \<Rightarrow> \<forall>x. unat ip \<le> unat x \<and> unat x < unat bcast \<longrightarrow> Some x = gw \<or> ip_string x \<in> set used
    | Some x \<Rightarrow> unat ip \<le> unat x \<and> unat x < unat bcast \<and> Some x \<noteq> gw \<and> ip_string x \<notin> set used \<and>
        (\<forall>y. unat ip \<le> unat y \<and> unat y < unat x \<longrightarrow> Some y = gw \<or> ip_string y \<in> set used)"
  using assms
proof (induction cidr bcast gw used ip rule: scan.induct)
  case (1 cidr bcast gw used ip)
  show ?case
  proof (cases "ip = bcast")
    case True
    then show ?thesis by (subst scan.simps) auto
  next
    case False
    then have less: "unat ip < unat bcast" using "1.prems"(2) by (simp add: le_less word_unat_eq_iff)
    then have inside: "contains4 cidr ip" using "1.prems"(1) by simp
    show ?thesis
    proof (cases "Some ip \<noteq> gw \<and> ip_string ip \<notin> set used")
      case True
      then show ?thesis using False inside less by (subst scan.simps) auto
    next
      case busy: False
      have "unat (ip + 1) = Suc (unat ip)"
        using less unsigned_less [of bcast, where 'a = nat] by (simp add: unat_word_ariths)
      then have next_ip: "unat ip \<le> unat x \<longleftrightarrow> x = ip \<or> unat (ip + 1) \<le> unat x" "unat (ip + 1) \<le> unat bcast" for x
        using less by (auto simp: word_unat_eq_iff)
      have "scan cidr bcast gw used ip = scan cidr bcast gw used (nextIP (Some ip))"
        using False inside busy by (subst scan.simps) auto
      then show ?thesis
        using "1.IH" "1.prems"(1) inside False busy next_ip
        by (auto split: option.splits)
    qed
  qed
qed


text \<open>A host address that may be handed out.\<close>

definition host_free :: "ipnet \<Rightarrow> string \<Rightarrow> string list \<Rightarrow> ipv4 \<Rightarrow> bool" where
  "host_free cidr gateway used ip \<longleftrightarrow>
     contains4 cidr ip \<and> Some ip \<noteq> To4 (net_ip cidr) \<and> Inr ip \<noteq> broadcastIP cidr \<and>
     Some ip \<noteq> gateway_ip cidr gateway \<and> ip_string ip \<notin> set used"

lemma scan_hosts:
  assumes "ParseCIDR s = Some (Net4 w n)"
  shows "case scan (Net4 w n) (w OR NOT (net_mask n)) (gateway_ip (Net4 w n) gw) used (w + 1) of
      None \<Rightarrow> \<forall>x. \<not> host_free (Net4 w n) gw used x
    | Some x \<Rightarrow> host_free (Net4 w n) gw used x \<and> (\<forall>y. host_free (Net4 w n) gw used y \<longrightarrow> x \<le> y)"
proof -
  let ?b = "w OR NOT (net_mask n)"
  note range = contains4_net [OF assms] and last = broadcast_last [OF assms]
  have net: "contains4 (Net4 w n) x \<longleftrightarrow> unat w \<le> unat x \<and> unat x \<le> unat ?b" for x
    using range [of x] last zero_less_power [of "2 :: nat" "32 - n"] by linarith
  have free: "host_free (Net4 w n) gw used x \<longleftrightarrow>
      unat w < unat x \<and> unat x < unat ?b \<and> Some x \<noteq> gateway_ip (Net4 w n) gw \<and> ip_string x \<notin> set used" for x
    unfolding host_free_def net by (auto simp: broadcastIP_def le_less word_unat_eq_iff)
  show ?thesis
  proof (cases "n = 32")
    case True
    have "unat (w + 1) \<noteq> unat w" by (simp add: word_unat_eq_iff [symmetric])
    then have "\<not> contains4 (Net4 w n) (w + 1)" using range [of "w + 1"] True by auto
    then have "scan (Net4 w n) ?b (gateway_ip (Net4 w n) gw) used (w + 1) = None"
      by (subst scan.simps) simp
    then show ?thesis using free last True by simp
  next
    case False
    then have "n < 32" using ParseCIDR_Net4(1) [OF assms] by simp
    then have "(2 :: nat) ^ 1 \<le> 2 ^ (32 - n)" by (intro power_increasing) auto
    then have less: "unat w < unat ?b" using last by simp
    then have suc: "unat (w + 1) = Suc (unat w)"
      using unsigned_less [of "?b", where 'a = nat] by (simp add: unat_word_ariths)
    have "contains4 (Net4 w n) x" if "unat (w + 1) \<le> unat x" "unat x < unat ?b" for x
      using that suc net by simp
    moreover have "unat (w + 1) \<le> unat ?b" using less suc by simp
    ultimately show ?thesis
      using scan_lowest [of "w + 1" ?b "Net4 w n" "gateway_ip (Net4 w n) gw" used] free suc
      by (auto simp: Suc_le_eq word_le_nat_alt intro!: leI split: option.splits)
  qed
qed

text \<open>C13. Allocation is exact on IPv4 subnets of every size. When some host address is free - in the
  subnet, not its network or broadcast address, not the gateway, not in use - the lowest one is
  returned and recorded; otherwise an error is returned and no grant is recorded.\<close>

theorem Allocate_lowest:
  assumes "ParseCIDR subnet = Some (Net4 w n)"
  shows "case Allocate netKey subnet gateway a of
      (Inr s, a') \<Rightarrow> \<exists>ip. s = ip_string ip \<and>
        host_free (Net4 w n) gateway (the_set (allocated a netKey)) ip \<and>
        (\<forall>y. host_free (Net4 w n) gateway (the_set (allocated a netKey)) y \<longrightarrow> ip \<le> y) \<and>
        a' = a\<lparr>allocated := (allocated a)(netKey \<mapsto> s # the_set (allocated a netKey)),
               vmCount := (vmCount a)(netKey \<mapsto> the_count (vmCount a netKey) + 1)\<rparr>
    | (Inl e, a') \<Rightarrow> (\<forall>y. \<not> host_free (Net4 w n) gateway (the_set (allocated a netKey)) y) \<and>
        e = Err (''no free IPs in subnet '' @ subnet) \<and>
        a' = a\<lparr>allocated := (allocated a)(netKey \<mapsto> the_set (allocated a netKey))\<rparr>"
  using scan_hosts [OF assms, of gateway "the_set (allocated a netKey)"] assms
  by (auto simp: Allocate_def broadcastIP_def Let_def split: option.splits)

theorem Allocate_lowest_witness:
  "ParseCIDR ''10.0.0.0/30'' = Some (Net4 167772160 30) \<and>
   fst (Allocate ''default/net'' ''10.0.0.0/30'' '''' NewAllocator) = Inr ''10.0.0.2'' \<and>
   host_free (Net4 167772160 30) '''' [] 167772162"
proof -
  have parse: "ParseCIDR ''10.0.0.0/30'' = Some (Net4 167772160 30)" by code_simp
  have ip: "ip_string 167772162 = ''10.0.0.2''" by code_simp
  have fst: "fst (Allocate ''default/net'' ''10.0.0.0/30'' '''' NewAllocator) = Inr ''10.0.0.2''" by code_simp
  have "the_set (allocated NewAllocator ''default/net'') = []" by (simp add: NewAllocator_def the_set_def)
  then show ?thesis
    using Allocate_lowest [OF parse, where netKey = "''default/net''" and gateway = "''''" and a = NewAllocator] fst parse
    by (auto split: prod.splits simp flip: ip)
qed


section \<open>Histories of the allocator\<close>

text \<open>The operations of a history, and what they make of the list of live grants: pairs of a
  network key and an address. A history is legal when addresses are released only while held.\<close>

datatype alloc_op = AllocateOp string string string | ReleaseOp string string | ReserveOp string string

fun alloc_step :: "alloc_op \<Rightarrow> Allocator \<times> (string \<times> string) list \<Rightarrow> Allocator \<times> (string \<times> string) list" where
  "alloc_step (AllocateOp k subnet gw) (a, live) =
     (case Allocate k subnet gw a of (Inr s, a') \<Rightarrow> (a', (k, s) # live) | (Inl e, a') \<Rightarrow> (a', live))"
| "alloc_step (ReleaseOp k ip) (a, live) = (snd (Release k ip a), filter (\<lambda>p. p \<noteq> (k, ip)) live)"
| "alloc_step (ReserveOp k ip) (a, live) = (Reserve k ip a, List.insert (k, ip) live)"

fun alloc_legal :: "alloc_op list \<Rightarrow> Allocator \<times> (string \<times> string) list \<Rightarrow> bool" where
  "alloc_legal [] st = True"
| "alloc_legal (op # ops) st =
     ((case op of ReleaseOp k ip \<Rightarrow> (k, ip) \<in> set (snd st) | _ \<Rightarrow> True) \<and> alloc_legal ops (alloc_step op st))"

text \<open>The representation: the sets and counters say exactly what the live grants say.\<close>

definition alloc_rep :: "Allocator \<Rightarrow> (string \<times> string) list \<Rightarrow> bool" where
  "alloc_rep a live \<longleftrightarrow> distinct live \<and>
     (\<forall>k. set (the_set (allocated a k)) = {ip. (k, ip) \<in> set live} \<and>
          the_count (vmCount a k) = int (length (filter (\<lambda>p. fst p = k) live)))"

lemma the_set_simps [simp]: "the_set None = []" "the_set (Some xs) = xs"
  by (simp_all add: the_set_def)

lemma the_count_simps [simp]: "the_count None = 0" "the_count (Some n) = n"
  by (simp_all add: the_count_def)

lemma scan_fresh: "scan cidr b gw used ip = Some x \<Longrightarrow> ip_string x \<notin> set used"
  by (induction cidr b gw used ip rule: scan.induct) (auto simp: scan.simps split: if_splits)

lemma filter_remove_length:
  "distinct live \<Longrightarrow> (k, ip) \<in> set live \<Longrightarrow>
   length (filter (\<lambda>p. fst p = k') (filter (\<lambda>p. p \<noteq> (k, ip)) live)) + (if k' = k then 1 else 0) =
   length (filter (\<lambda>p. fst p = k') live)"
proof (induction live)
  case (Cons p live)
  show ?case
  proof (cases "p = (k, ip)")
    case True
    then have "filter (\<lambda>p. p \<noteq> (k, ip)) live = live" using Cons.prems by (auto simp: filter_id_conv)
    then show ?thesis using True by simp
  next
    case False
    then show ?thesis using Cons by auto
  qed
qed simp

lemma Allocate_rep:
  assumes "alloc_rep a live"
  shows "case Allocate k subnet gw a of
    (Inr s, a') \<Rightarrow> alloc_rep a' ((k, s) # live) | (Inl e, a') \<Rightarrow> alloc_rep a' live"
  using assms
  by (auto simp: Allocate_def Let_def alloc_rep_def dest!: scan_fresh
      split: option.splits sum.splits)

lemma Release_rep:
  assumes "alloc_rep a live" "(k, ip) \<in> set live"
  shows "alloc_rep (snd (Release k ip a)) (filter (\<lambda>p. p \<noteq> (k, ip)) live)"
    and "fst (Release k ip a) \<longleftrightarrow> (\<forall>p\<in>set live. fst p = k \<longrightarrow> snd p = ip)"
proof -
  let ?rest = "filter (\<lambda>p. p \<noteq> (k, ip)) live"
  have rep: "distinct live" "\<And>k. set (the_set (allocated a k)) = {ip. (k, ip) \<in> set live}"
    "\<And>k. the_count (vmCount a k) = int (length (filter (\<lambda>p. fst p = k) live))"
    using assms(1) by (auto simp: alloc_rep_def)
  note len = filter_remove_length [OF rep(1) assms(2)]
  obtain used where used: "allocated a k = Some used"
    using rep(2) [of k] assms(2) by (cases "allocated a k") auto
  have count: "the_count (vmCount a k) - 1 = int (length (filter (\<lambda>p. fst p = k) ?rest))"
    using rep(3) [of k] len [of k] by simp
  have sets: "allocated (snd (Release k ip a)) = (allocated a)(k \<mapsto> filter (\<lambda>x. x \<noteq> ip) used)"
    by (simp add: Release_def Let_def used)
  show "alloc_rep (snd (Release k ip a)) ?rest"
    unfolding alloc_rep_def
  proof (intro conjI allI)
    show "distinct ?rest" using rep(1) by simp
    fix k'
    show "set (the_set (allocated (snd (Release k ip a)) k')) = {i. (k', i) \<in> set ?rest}"
      using rep(2) [of k'] used unfolding sets
      by (cases "k' = k") (simp_all add: set_eq_iff conj_commute)
    show "the_count (vmCount (snd (Release k ip a)) k') = int (length (filter (\<lambda>p. fst p = k') ?rest))"
    proof (cases "k' = k")
      case True
      then show ?thesis
        unfolding True Release_def Let_def count by (simp del: filter_filter)
    next
      case False
      then show ?thesis
        using rep(3) [of k'] len [of k'] by (simp add: Release_def Let_def del: filter_filter)
    qed
  qed
  have "fst (Release k ip a) \<longleftrightarrow> filter (\<lambda>p. fst p = k) ?rest = []"
    using count by (simp add: Release_def Let_def del: filter_filter)
  then show "fst (Release k ip a) \<longleftrightarrow> (\<forall>p\<in>set live. fst p = k \<longrightarrow> snd p = ip)"
    by (auto simp: filter_empty_conv)
qed

lemma Reserve_rep:
  assumes "alloc_rep a live"
  shows "alloc_rep (Reserve k ip a) (List.insert (k, ip) live)"
  using assms by (auto simp: alloc_rep_def Reserve_def Let_def List.insert_def)

lemma alloc_step_rep:
  assumes "alloc_rep a live" "alloc_legal (op # ops) (a, live)" "alloc_step op (a, live) = (a', live')"
  shows "alloc_rep a' live'"
proof (cases op)
  case (AllocateOp k subnet gw)
  then show ?thesis
    using Allocate_rep [OF assms(1), of k subnet gw] assms(3) by (auto split: prod.splits sum.splits)
next
  case (ReleaseOp k ip)
  then show ?thesis using Release_rep(1) [OF assms(1)] assms(2,3) by auto
next
  case (ReserveOp k ip)
  then show ?thesis using Reserve_rep [OF assms(1)] assms(3) by auto
qed

text \<open>C14. The allocator implements the list of live grants. After any history of allocations,
  start-up reservations and releases of held addresses from an empty allocator: no address of a
  network is granted twice, the set of a network holds exactly its live addresses, its VM count is
  their number, and a release reports the last VM exactly when no other address of the network is
  live.\<close>

theorem allocator_history:
  assumes "alloc_legal ops (NewAllocator, [])" and "fold alloc_step ops (NewAllocator, []) = (a, live)"
  shows "distinct live \<and>
    (\<forall>k. set (the_set (allocated a k)) = {ip. (k, ip) \<in> set live} \<and>
         the_count (vmCount a k) = int (length (filter (\<lambda>p. fst p = k) live)) \<and>
         (\<forall>ip. (k, ip) \<in> set live \<longrightarrow>
            (fst (Release k ip a) \<longleftrightarrow> (\<forall>p\<in>set live. fst p = k \<longrightarrow> snd p = ip))))"
proof -
  have "alloc_rep a live" if "alloc_rep a0 live0" "alloc_legal ops (a0, live0)"
    "fold alloc_step ops (a0, live0) = (a, live)" for a0 live0
    using that
  proof (induction ops arbitrary: a0 live0)
    case (Cons op ops)
    obtain a1 live1 where "alloc_step op (a0, live0) = (a1, live1)" by (cases "alloc_step op (a0, live0)")
    then show ?case using Cons alloc_step_rep [of a0 live0 op ops] by auto
  qed simp
  moreover have "alloc_rep NewAllocator []" by (simp add: alloc_rep_def NewAllocator_def)
  ultimately have "alloc_rep a live" using assms by blast
  then show ?thesis using Release_rep(2) by (auto simp: alloc_rep_def)
qed


theorem allocator_history_witness:
  "\<exists>a live. fold alloc_step
       [AllocateOp ''d/n'' ''10.0.0.0/29'' '''', ReserveOp ''d/n'' ''10.0.0.3'', AllocateOp ''d/n'' ''10.0.0.0/29'' '''',
        ReleaseOp ''d/n'' ''10.0.0.2''] (NewAllocator, []) = (a, live) \<and>
     live = [(''d/n'', ''10.0.0.4''), (''d/n'', ''10.0.0.3'')] \<and> the_count (vmCount a ''d/n'') = 2 \<and>
     \<not> fst (Release ''d/n'' ''10.0.0.3'' a)"
proof -
  let ?ops = "[AllocateOp ''d/n'' ''10.0.0.0/29'' '''', ReserveOp ''d/n'' ''10.0.0.3'', AllocateOp ''d/n'' ''10.0.0.0/29'' '''',
        ReleaseOp ''d/n'' ''10.0.0.2'']"
  obtain a live where run: "fold alloc_step ?ops (NewAllocator, []) = (a, live)" by fastforce
  have "snd (fold alloc_step ?ops (NewAllocator, [])) = [(''d/n'', ''10.0.0.4''), (''d/n'', ''10.0.0.3'')]"
    by code_simp
  then have live: "live = [(''d/n'', ''10.0.0.4''), (''d/n'', ''10.0.0.3'')]" using run by simp
  have legal: "alloc_legal ?ops (NewAllocator, [])" by code_simp
  show ?thesis
    using allocator_history [OF legal run] run live by (intro exI [of _ a] exI [of _ live]) simp
qed

section \<open>Two computations of the prefix\<close>

lemma prefix_for_shift: "2 \<le> k \<Longrightarrow> prefix_for needed (32 - int k) = 32 - int (shift_for needed k)"
proof (induction needed k rule: shift_for.induct)
  case (1 needed k)
  have "32 - int k - 1 = 32 - int (Suc k)" by simp
  then show ?case using 1 by (subst prefix_for.simps, subst shift_for.simps) simp
qed

text \<open>The agent and the operator agree on the prefix of a group: sizeToCIDRPrefix and
  groupPrefixLen, two copies of the same computation in two packages, are the same function.\<close>

theorem sizeToCIDRPrefix_eq: "sizeToCIDRPrefix n = groupPrefixLen n"
  using prefix_for_shift [of 2 "n + 2"] by (simp add: sizeToCIDRPrefix_def groupPrefixLen_def)

end
