(* ===== verification/Device_Names.thy ===== *)
theory Device_Names
  imports Net_Addr
begin

text \<open>
  Names the agent derives with SHA-256 (internal/agent/network/names.go and vxlan\_params.go):
  bridges, TAP devices, MAC addresses, VLAN interfaces and VXLAN parameters. The hash is the
  standard library's crypto/sha256, written out over 32-bit words. The names are proved to fit the
  kernel's limits, and VLAN names to be distinct while they are spelt out.
\<close>

section \<open>SHA-256\<close>

text \<open>The constants are the first 32 bits of the fractional parts of the square roots of the first 8
  primes and of the cube roots of the first 64: roots of the primes scaled by a power of two, found bit
  by bit.\<close>

primrec root_bits :: "nat \<Rightarrow> int \<Rightarrow> nat \<Rightarrow> int \<Rightarrow> int" where
  "root_bits k n 0 r = r"
| "root_bits k n (Suc b) r = root_bits k n b (if (r + 2 ^ b) ^ k \<le> n then r + 2 ^ b else r)"

definition small_primes :: "int list" where
  "small_primes =
    [2, 3, 5, 7, 11, 13, 17, 19, 23, 29, 31, 37, 41, 43, 47, 53,
     59, 61, 67, 71, 73, 79, 83, 89, 97, 101, 103, 107, 109, 113, 127, 131,
     137, 139, 149, 151, 157, 163, 167, 173, 179, 181, 191, 193, 197, 199, 211, 223,
     227, 229, 233, 239, 241, 251, 257, 263, 269, 271, 277, 281, 283, 293, 307, 311]"

definition sha_init :: "32 word list" where
  "sha_init = map (\<lambda>p. word_of_int (root_bits 2 (p * 2 ^ 64) 35 0)) (take 8 small_primes)"

definition sha_k :: "32 word list" where
  "sha_k = map (\<lambda>p. word_of_int (root_bits 3 (p * 2 ^ 96) 35 0)) small_primes"

text \<open>The padded message as bytes, and the big-endian words of a block.\<close>

definition sha_pad :: "nat list \<Rightarrow> nat list" where
  "sha_pad bs =
     (let n = length bs; z = (119 - n mod 64) mod 64 in
      bs @ 128 # replicate z 0 @ map (\<lambda>i. 8 * n div 256 ^ (7 - i) mod 256) [0..<8])"

fun be_words :: "nat list \<Rightarrow> 32 word list" where
  "be_words (a # b # c # d # bs) =
     of_octets a b c d # be_words bs"
| "be_words bs = []"

definition small_sigma0 :: "32 word \<Rightarrow> 32 word" where
  "small_sigma0 x = word_rotr 7 x XOR word_rotr 18 x XOR drop_bit 3 x"

definition small_sigma1 :: "32 word \<Rightarrow> 32 word" where
  "small_sigma1 x = word_rotr 17 x XOR word_rotr 19 x XOR drop_bit 10 x"

definition big_sigma0 :: "32 word \<Rightarrow> 32 word" where
  "big_sigma0 x = word_rotr 2 x XOR word_rotr 13 x XOR word_rotr 22 x"

definition big_sigma1 :: "32 word \<Rightarrow> 32 word" where
  "big_sigma1 x = word_rotr 6 x XOR word_rotr 11 x XOR word_rotr 25 x"

text \<open>The message schedule, newest word first.\<close>

primrec sha_schedule :: "nat \<Rightarrow> 32 word list \<Rightarrow> 32 word list" where
  "sha_schedule 0 ws = ws"
| "sha_schedule (Suc n) ws =
     sha_schedule n ((small_sigma1 (ws ! 1) + ws ! 6 + small_sigma0 (ws ! 14) + ws ! 15) # ws)"

fun sha_round :: "32 word \<times> 32 word \<Rightarrow> 32 word list \<Rightarrow> 32 word list" where
  "sha_round (k, w) [a, b, c, d, e, f, g, h] =
     (let t1 = h + big_sigma1 e + ((e AND f) XOR (NOT e AND g)) + k + w;
          t2 = big_sigma0 a + ((a AND b) XOR (a AND c) XOR (b AND c)) in
      [t1 + t2, a, b, c, d + t1, e, f, g])"
| "sha_round kw hs = hs"

definition sha_block :: "32 word list \<Rightarrow> 32 word list \<Rightarrow> 32 word list" where
  "sha_block hs ws =
     map2 (+) hs (fold sha_round (zip sha_k (rev (sha_schedule 48 (rev ws)))) hs)"

primrec sha_blocks :: "nat \<Rightarrow> 32 word list \<Rightarrow> 32 word list \<Rightarrow> 32 word list" where
  "sha_blocks 0 ws hs = hs"
| "sha_blocks (Suc n) ws hs = sha_blocks n (drop 16 ws) (sha_block hs (take 16 ws))"

text \<open>Sum256: the digest, as 32 bytes.\<close>

definition Sum256 :: "string \<Rightarrow> nat list" where
  "Sum256 s =
     (let ws = be_words (sha_pad (map of_char s)) in
      concat (map bytes_of_ipv4 (sha_blocks (length ws div 16) ws sha_init)))"

lemma sha_round_length: "length hs = 8 \<Longrightarrow> length (sha_round kw hs) = 8"
  by (cases "(kw, hs)" rule: sha_round.cases) (auto simp: Let_def)

lemma sha_rounds_length: "length hs = 8 \<Longrightarrow> length (fold sha_round kws hs) = 8"
  by (induction kws arbitrary: hs) (auto simp: sha_round_length)

lemma sha_blocks_length: "length hs = 8 \<Longrightarrow> length (sha_blocks n ws hs) = 8"
  by (induction n arbitrary: ws hs) (auto simp: sha_block_def sha_rounds_length)

lemma Sum256_length [simp]: "length (Sum256 s) = 32"
proof -
  have "sum_list (map (length \<circ> bytes_of_ipv4) ws) = 4 * length ws" for ws
    by (induction ws) (simp_all add: bytes_of_ipv4_def)
  moreover have "length (sha_blocks n ws sha_init) = 8" for n ws
    by (rule sha_blocks_length) (simp add: sha_init_def small_primes_def)
  ultimately show ?thesis by (simp add: Sum256_def Let_def length_concat)
qed

lemma Sum256_byte: "i < 32 \<Longrightarrow> Sum256 s ! i \<le> 255"
proof -
  assume "i < 32"
  then have "Sum256 s ! i \<in> set (Sum256 s)" by simp
  then show ?thesis by (auto simp: Sum256_def Let_def bytes_of_ipv4_def octet_le)
qed

section \<open>Hexadecimal verbs\<close>

definition hex_digit :: "nat \<Rightarrow> char" where
  "hex_digit n = (if n < 10 then char_of (48 + n) else char_of (87 + n))"

text \<open>The last \<open>k\<close> hexadecimal digits: \<open>%02x\<close>, \<open>%06x\<close> and \<open>%08x\<close> of a value that has no more.\<close>

primrec hex_pad :: "nat \<Rightarrow> nat \<Rightarrow> string" where
  "hex_pad 0 n = []"
| "hex_pad (Suc k) n = hex_pad k (n div 16) @ [hex_digit (n mod 16)]"

definition hex_bytes :: "nat list \<Rightarrow> string" where
  "hex_bytes bs = concat (map (hex_pad 2) bs)"

lemma hex_pad_length [simp]: "length (hex_pad k n) = k"
  by (induction k arbitrary: n) auto

definition be_uint32 :: "nat list \<Rightarrow> nat" where
  "be_uint32 h = ((h ! 0 * 256 + h ! 1) * 256 + h ! 2) * 256 + h ! 3"

section \<open>Interface names\<close>

definition maxIfaceNameLen :: nat where
  "maxIfaceNameLen = 15"

definition BridgeName :: "string \<Rightarrow> string" where
  "BridgeName netKey = ''impbr-'' @ hex_pad 8 (be_uint32 (Sum256 netKey))"

definition TAPName :: "string \<Rightarrow> string" where
  "TAPName vmKey = ''imptap-'' @ hex_pad 8 (be_uint32 (Sum256 vmKey))"

definition MACAddr :: "string \<Rightarrow> string" where
  "MACAddr vmKey =
     (let h = Sum256 vmKey in
      ''02:'' @ hex_pad 2 (h ! 0) @ '':'' @ hex_pad 2 (h ! 1) @ '':'' @ hex_pad 2 (h ! 2) @ '':'' @
      hex_pad 2 (h ! 3) @ '':'' @ hex_pad 2 (h ! 4))"

definition VLANIfaceName :: "string \<Rightarrow> int \<Rightarrow> string" where
  "VLANIfaceName parent vlanID =
     (let direct = parent @ ''.'' @ itoa_int vlanID in
      if length direct \<le> maxIfaceNameLen then direct
      else ''impvl-'' @ hex_pad 6 (be_uint32 (Sum256 direct) mod 16777216))"

definition VXLANParams :: "string \<Rightarrow> nat \<times> string" where
  "VXLANParams uid =
     (let h = Sum256 uid;
          vni = (h ! 0 * 65536 + h ! 1 * 256 + h ! 2) mod 16777216;
          clean = filter (\<lambda>c. c \<noteq> CHR ''-'') uid in
      (if vni = 0 then 1 else vni, ''impvx-'' @ (if 8 < length clean then take 8 clean else clean)))"

text \<open>Derived names respect the kernel's limits: bridge names have 14 characters, TAP names 15,
  MAC addresses are 17 characters starting with the locally-administered unicast octet 02, VLAN and
  VXLAN interface names never exceed 15 characters, and the VXLAN network identifier is a non-zero
  24-bit number.\<close>

theorem device_names_fit:
  "length (BridgeName k) = 14 \<and> length (TAPName k) = maxIfaceNameLen \<and>
   length (MACAddr k) = 17 \<and> take 3 (MACAddr k) = ''02:'' \<and>
   length (VLANIfaceName parent vid) \<le> maxIfaceNameLen \<and>
   1 \<le> fst (VXLANParams uid) \<and> fst (VXLANParams uid) < 2 ^ 24 \<and>
   length (snd (VXLANParams uid)) \<le> maxIfaceNameLen"
  by (auto simp: BridgeName_def TAPName_def MACAddr_def VLANIfaceName_def VXLANParams_def maxIfaceNameLen_def Let_def)

section \<open>Spelt-out VLAN names\<close>

lemma itoa_inject: "itoa m = itoa n \<Longrightarrow> m = n"
  by (metis base_val_itoa)

lemma itoa_int_inject:
  assumes "itoa_int a = itoa_int b"
  shows "a = b"
proof -
  have "CHR ''-'' \<notin> set (itoa n)" for n
    using itoa_is_digits(1) [of n] by (auto simp: list_all_iff is_digit_def)
  then have "\<And>m n. itoa m \<noteq> CHR ''-'' # itoa n" by (metis list.set_intros(1))
  then show ?thesis
    using assms by (auto simp: itoa_int_def dest!: itoa_inject split: if_splits) metis
qed

lemma dot_not_in_itoa_int: "CHR ''.'' \<notin> set (itoa_int n)"
  by (auto simp: itoa_int_def dot_not_in_itoa)

lemma last_dot_inject:
  assumes "p @ (c :: char) # a = q @ c # b" "c \<notin> set a" "c \<notin> set b"
  shows "p = q \<and> a = b"
proof -
  have "rev a @ c # rev p = rev b @ c # rev q" using arg_cong [OF assms(1), of rev] by simp
  then have "cut_at c (rev a @ c # rev p) = cut_at c (rev b @ c # rev q)" by simp
  then show ?thesis using assms(2,3) by (simp add: cut_at_append)
qed

text \<open>VLAN interface names that are spelt out are unambiguous: two attachments whose names fit
  the limit share an interface name only if they share the parent interface and the VLAN.\<close>

theorem VLANIfaceName_unambiguous:
  assumes "length (parent @ ''.'' @ itoa_int vid) \<le> maxIfaceNameLen"
    and "length (parent' @ ''.'' @ itoa_int vid') \<le> maxIfaceNameLen"
    and "VLANIfaceName parent vid = VLANIfaceName parent' vid'"
  shows "parent = parent' \<and> vid = vid'"
proof -
  have "parent @ CHR ''.'' # itoa_int vid = parent' @ CHR ''.'' # itoa_int vid'"
    using assms by (simp add: VLANIfaceName_def Let_def)
  then have "parent = parent' \<and> itoa_int vid = itoa_int vid'"
    using last_dot_inject dot_not_in_itoa_int by metis
  then show ?thesis using itoa_int_inject by blast
qed

theorem VLANIfaceName_unambiguous_witness:
  "VLANIfaceName ''eth0'' 20 = ''eth0.20'' \<and> VLANIfaceName ''eth0'' 20 \<noteq> VLANIfaceName ''eth0'' 30"
proof -
  have len: "length (''eth0'' @ ''.'' @ itoa_int 20) \<le> maxIfaceNameLen"
    "length (''eth0'' @ ''.'' @ itoa_int 30) \<le> maxIfaceNameLen" by code_simp+
  have "itoa_int 20 = ''20''" by code_simp
  then have "VLANIfaceName ''eth0'' 20 = ''eth0.20''"
    by (simp add: VLANIfaceName_def maxIfaceNameLen_def)
  then show ?thesis using VLANIfaceName_unambiguous [OF len] by auto
qed

end
