(* ===== verification/Lease_Allocator.thy ===== *)
theory Lease_Allocator
  imports IP_Allocator Device_Names
begin

text \<open>
  The cluster-wide IP allocator (internal/agent/network/leaseallocator.go). An address is claimed by
  creating a Lease whose name is derived from the network and the address. Nodes run the operations
  concurrently, and every request to the API server is a point where they interleave: an operation
  is therefore a program of requests, and a system of programs runs by a step relation. The API
  server is a parameter with its documented guarantees as the locale \<open>lease_api\<close>; lost answers
  and failed requests are possible at every step. Claims are proved exclusive.
\<close>

section \<open>Programs of lease requests\<close>

type_synonym lease_key = "string \<times> string"

record Lease =
  lease_Holder :: "string option"
  lease_UID :: nat

datatype 'a lease_prog =
    Done 'a
  | CreateLease lease_key string "api_error option \<Rightarrow> 'a lease_prog"
  | GetLease lease_key "api_error + Lease \<Rightarrow> 'a lease_prog"
  | DeleteLease lease_key nat "api_error option \<Rightarrow> 'a lease_prog"

section \<open>The operations\<close>

definition networkNamespace :: "string \<Rightarrow> error + string" where
  "networkNamespace networkKey =
     (case cut_at (CHR ''/'') networkKey of
        None \<Rightarrow> Inl (Err (''network key '' @ networkKey @ '' must be namespace/name''))
      | Some (namespace, name) \<Rightarrow>
          if namespace = '''' \<or> name = ''''
          then Inl (Err (''network key '' @ networkKey @ '' must be namespace/name''))
          else Inr namespace)"

definition leaseName :: "string \<Rightarrow> string \<Rightarrow> string" where
  "leaseName networkKey ip =
     ''imp-ip-'' @ hex_bytes (take 28 (Sum256 (networkKey @ char_of (0 :: nat) # ip)))"

function claim_scan ::
  "string \<Rightarrow> string \<Rightarrow> string \<Rightarrow> string \<Rightarrow> ipnet \<Rightarrow> ipv4 \<Rightarrow> ipv4 \<Rightarrow> ipv4 \<Rightarrow> (error + string) lease_prog" where
  "claim_scan networkKey namespace subnet holder cidr bcast gwIP ip =
     (if contains4 cidr ip \<and> ip \<noteq> bcast then
        if ip = gwIP then claim_scan networkKey namespace subnet holder cidr bcast gwIP (nextIP (Some ip))
        else
          let ipString = ip_string ip; key = (namespace, leaseName networkKey ipString) in
          CreateLease key holder
            (\<lambda>r. case r of
               None \<Rightarrow> Done (Inr ipString)
             | Some e \<Rightarrow>
                 if e \<noteq> AlreadyExists then Done (Inl (Api e))
                 else GetLease key
                   (\<lambda>g. case g of
                      Inl e \<Rightarrow> Done (Inl (Api e))
                    | Inr existing \<Rightarrow>
                        if lease_Holder existing = Some holder then Done (Inr ipString)
                        else claim_scan networkKey namespace subnet holder cidr bcast gwIP (nextIP (Some ip))))
      else Done (Inl (Err (''no free IPs in subnet '' @ subnet))))"
  by auto
termination
proof (relation "measure (\<lambda>(networkKey, namespace, subnet, holder, cidr, bcast, gwIP, ip). unat (bcast - ip))",
    goal_cases)
  case 1
  show ?case by simp
qed (simp_all add: scan_decreases)

declare claim_scan.simps [simp del]

definition LeaseAllocate :: "string \<Rightarrow> string \<Rightarrow> string \<Rightarrow> string \<Rightarrow> (error + string) lease_prog" where
  "LeaseAllocate networkKey subnet gateway holder =
     (case networkNamespace networkKey of
        Inl e \<Rightarrow> Done (Inl e)
      | Inr namespace \<Rightarrow>
          if holder = '''' then Done (Inl (Err ''lease holder is required''))
          else
          (case ParseCIDR subnet of
             None \<Rightarrow> Done (Inl (Err (''parse subnet '' @ subnet)))
           | Some cidr \<Rightarrow>
               (case gateway_ip cidr gateway of
                  None \<Rightarrow> Done (Inl (Err (''parse gateway '' @ gateway)))
                | Some gwIP \<Rightarrow>
                    (case broadcastIP cidr of
                       Inl p \<Rightarrow> Done (Inl p)
                     | Inr bcast \<Rightarrow>
                         claim_scan networkKey namespace subnet holder cidr bcast gwIP
                           (nextIP (To4 (net_ip cidr)))))))"

definition LeaseRelease :: "string \<Rightarrow> string \<Rightarrow> string \<Rightarrow> (error + unit) lease_prog" where
  "LeaseRelease networkKey ip holder =
     (case networkNamespace networkKey of
        Inl e \<Rightarrow> Done (Inl e)
      | Inr namespace \<Rightarrow>
          let key = (namespace, leaseName networkKey ip) in
          GetLease key
            (\<lambda>g. case g of
               Inl e \<Rightarrow> Done (if e = NotFound then Inr () else Inl (Api e))
             | Inr lease \<Rightarrow>
                 if lease_Holder lease \<noteq> Some holder
                 then Done (Inl (Err (''IP claim for '' @ ip @ '' is held by another VM'')))
                 else DeleteLease key (lease_UID lease)
                   (\<lambda>d. case d of
                      None \<Rightarrow> Done (Inr ())
                    | Some e \<Rightarrow> Done (if e = NotFound then Inr () else Inl (Api e)))))"

section \<open>The API server\<close>

text \<open>What the server guarantees for Leases. A create request adds a lease with a new UID where there
  was none; a delete request with a UID precondition removes only the lease with that UID; a get
  request returns the stored lease. A request that reports an error may still have been applied.\<close>

definition lease_added :: "(lease_key \<rightharpoonup> Lease) \<times> nat set \<Rightarrow> lease_key \<Rightarrow> string \<Rightarrow> (lease_key \<rightharpoonup> Lease) \<times> nat set \<Rightarrow> bool" where
  "lease_added s k h s' \<longleftrightarrow> fst s k = None \<and>
     (\<exists>u. u \<notin> snd s \<and> s' = ((fst s)(k \<mapsto> \<lparr>lease_Holder = Some h, lease_UID = u\<rparr>), insert u (snd s)))"

locale lease_api =
  fixes view :: "'w \<Rightarrow> (lease_key \<rightharpoonup> Lease) \<times> nat set"
    and create :: "lease_key \<Rightarrow> string \<Rightarrow> 'w \<Rightarrow> api_error option \<Rightarrow> 'w \<Rightarrow> bool"
    and get :: "lease_key \<Rightarrow> 'w \<Rightarrow> api_error + Lease \<Rightarrow> bool"
    and delete :: "lease_key \<Rightarrow> nat \<Rightarrow> 'w \<Rightarrow> api_error option \<Rightarrow> 'w \<Rightarrow> bool"
  assumes create_ok: "create k h w None w' \<Longrightarrow> lease_added (view w) k h (view w')"
    and create_err: "create k h w (Some e) w' \<Longrightarrow> view w' = view w \<or> lease_added (view w) k h (view w')"
    and get_ok: "get k w (Inr l) \<Longrightarrow> fst (view w) k = Some l"
    and delete_any: "delete k u w r w' \<Longrightarrow> view w' = view w \<or>
      (\<exists>l. fst (view w) k = Some l \<and> lease_UID l = u \<and> view w' = ((fst (view w))(k := None), snd (view w)))"

section \<open>Systems of allocating nodes\<close>

text \<open>Process \<open>p\<close> acts for the VM \<open>holder p\<close>. An idle process may start an operation; otherwise its
  next request is served. The label says what happened: an allocation returned an address, or a
  delete request was served.\<close>

datatype lease_result = Granted string string | Refused error | Released

datatype lease_label = Quiet | Grants string string | Deletes lease_key

definition allocate_prog :: "string \<Rightarrow> string \<Rightarrow> string \<Rightarrow> string \<Rightarrow> lease_result lease_prog" where
  "allocate_prog networkKey subnet gateway holder =
     map_lease_prog (case_sum Refused (Granted networkKey)) (LeaseAllocate networkKey subnet gateway holder)"

definition release_prog :: "string \<Rightarrow> string \<Rightarrow> string \<Rightarrow> lease_result lease_prog" where
  "release_prog networkKey ip holder =
     map_lease_prog (case_sum Refused (\<lambda>_. Released)) (LeaseRelease networkKey ip holder)"

fun answer_label :: "lease_result lease_prog \<Rightarrow> lease_label" where
  "answer_label (Done (Granted networkKey ip)) = Grants networkKey ip"
| "answer_label prog = Quiet"

type_synonym 'w lease_system = "'w \<times> (nat \<Rightarrow> lease_result lease_prog)"

inductive lease_step ::
  "(lease_key \<Rightarrow> string \<Rightarrow> 'w \<Rightarrow> api_error option \<Rightarrow> 'w \<Rightarrow> bool) \<Rightarrow> (lease_key \<Rightarrow> 'w \<Rightarrow> api_error + Lease \<Rightarrow> bool) \<Rightarrow>
   (lease_key \<Rightarrow> nat \<Rightarrow> 'w \<Rightarrow> api_error option \<Rightarrow> 'w \<Rightarrow> bool) \<Rightarrow> (nat \<Rightarrow> string) \<Rightarrow>
   'w lease_system \<Rightarrow> nat \<times> lease_label \<Rightarrow> 'w lease_system \<Rightarrow> bool"
  for create get delete holder where
  allocate: "ps p = Done r \<Longrightarrow> lease_step create get delete holder (w, ps) (p, Quiet)
     (w, ps(p := allocate_prog networkKey subnet gateway (holder p)))"
| release: "ps p = Done r \<Longrightarrow> lease_step create get delete holder (w, ps) (p, Quiet)
     (w, ps(p := release_prog networkKey ip (holder p)))"
| create: "ps p = CreateLease k h cont \<Longrightarrow> create k h w r w' \<Longrightarrow>
     lease_step create get delete holder (w, ps) (p, answer_label (cont r)) (w', ps(p := cont r))"
| get: "ps p = GetLease k cont' \<Longrightarrow> get k w g \<Longrightarrow>
     lease_step create get delete holder (w, ps) (p, answer_label (cont' g)) (w, ps(p := cont' g))"
| delete: "ps p = DeleteLease k u cont \<Longrightarrow> delete k u w r w' \<Longrightarrow>
     lease_step create get delete holder (w, ps) (p, Deletes k) (w', ps(p := cont r))"

inductive lease_run ::
  "(lease_key \<Rightarrow> string \<Rightarrow> 'w \<Rightarrow> api_error option \<Rightarrow> 'w \<Rightarrow> bool) \<Rightarrow> (lease_key \<Rightarrow> 'w \<Rightarrow> api_error + Lease \<Rightarrow> bool) \<Rightarrow>
   (lease_key \<Rightarrow> nat \<Rightarrow> 'w \<Rightarrow> api_error option \<Rightarrow> 'w \<Rightarrow> bool) \<Rightarrow> (nat \<Rightarrow> string) \<Rightarrow>
   'w lease_system \<Rightarrow> (nat \<times> lease_label) list \<Rightarrow> 'w lease_system \<Rightarrow> bool"
  for create get delete holder where
  start: "lease_run create get delete holder c [] c"
| step: "lease_step create get delete holder c l c' \<Longrightarrow> lease_run create get delete holder c' tr c'' \<Longrightarrow>
     lease_run create get delete holder c (l # tr) c''"

inductive_cases lease_run_NilE [elim!]: "lease_run create get delete holder c [] c'"
inductive_cases lease_run_ConsE [elim!]: "lease_run create get delete holder c (l # tr) c'"

lemma lease_run_append:
  "lease_run create get delete holder c (tr @ tr') c' \<Longrightarrow>
   \<exists>d. lease_run create get delete holder c tr d \<and> lease_run create get delete holder d tr' c'"
proof (induction tr arbitrary: c)
  case Nil
  then show ?case by (intro exI [of _ c] conjI lease_run.start) simp
next
  case (Cons l tr)
  from Cons.prems obtain c1 where first: "lease_step create get delete holder c l c1"
    "lease_run create get delete holder c1 (tr @ tr') c'" by auto
  from Cons.IH [OF this(2)] obtain d where "lease_run create get delete holder c1 tr d"
    "lease_run create get delete holder d tr' c'" by blast
  then show ?case using lease_run.step [OF first(1)] by blast
qed

section \<open>Disciplined programs\<close>

text \<open>A program of holder \<open>h\<close> is disciplined when it creates leases for \<open>h\<close> only, deletes only UIDs it
  has read from leases of \<open>h\<close> (collected in \<open>G\<close>), and reports an address only right after an answer
  that shows its claim held by \<open>h\<close> (the keys in \<open>K\<close>).\<close>

definition claim_key :: "string \<Rightarrow> string \<Rightarrow> lease_key" where
  "claim_key networkKey ip =
     ((case cut_at (CHR ''/'') networkKey of None \<Rightarrow> '''' | Some (ns, name) \<Rightarrow> ns), leaseName networkKey ip)"

fun own_uids :: "string \<Rightarrow> api_error + Lease \<Rightarrow> nat set" where
  "own_uids h (Inr l) = (if lease_Holder l = Some h then {lease_UID l} else {})"
| "own_uids h (Inl e) = {}"

primrec disciplined :: "string \<Rightarrow> lease_result lease_prog \<Rightarrow> nat set \<Rightarrow> lease_key set \<Rightarrow> bool" where
  "disciplined h (Done r) G K = (case r of Granted networkKey ip \<Rightarrow> claim_key networkKey ip \<in> K | _ \<Rightarrow> True)"
| "disciplined h (CreateLease k h' cont) G K =
     (h' = h \<and> (\<forall>r. disciplined h (cont r) G (if r = None then {k} else {})))"
| "disciplined h (GetLease k cont) G K =
     (\<forall>g. disciplined h (cont g) (G \<union> own_uids h g) (if own_uids h g = {} then {} else {k}))"
| "disciplined h (DeleteLease k u cont) G K = (u \<in> G \<and> (\<forall>r. disciplined h (cont r) G {}))"

lemma claim_scan_disciplined:
  assumes "networkNamespace networkKey = Inr namespace"
  shows "disciplined h (map_lease_prog (case_sum Refused (Granted networkKey))
    (claim_scan networkKey namespace subnet h cidr bcast gwIP ip)) G K"
  using assms
proof (induction networkKey namespace subnet h cidr bcast gwIP ip arbitrary: G K rule: claim_scan.induct)
  case (1 networkKey namespace subnet holder cidr bcast gwIP ip)
  have key: "claim_key networkKey s = (namespace, leaseName networkKey s)" for s
    using "1.prems" by (auto simp: networkNamespace_def claim_key_def split: option.splits if_splits)
  show ?case
  proof (cases "contains4 cidr ip \<and> ip \<noteq> bcast")
    case True
    show ?thesis
    proof (cases "ip = gwIP")
      case eq: True
      then show ?thesis using True "1.IH"(1) "1.prems" by (subst claim_scan.simps) simp
    next
      case False
      note IH = "1.IH"(2) [OF True False refl refl]
      show ?thesis
        using True False IH "1.prems"
        by (subst claim_scan.simps) (auto simp: Let_def key split: option.splits sum.splits)
    qed
  next
    case False
    then show ?thesis by (subst claim_scan.simps) auto
  qed
qed

lemma allocate_disciplined: "disciplined h (allocate_prog networkKey subnet gateway h) G K"
  by (auto simp: allocate_prog_def LeaseAllocate_def claim_scan_disciplined split: sum.splits option.splits)

lemma release_disciplined: "disciplined h (release_prog networkKey ip h) G K"
  by (auto simp: release_prog_def LeaseRelease_def Let_def split: sum.splits option.splits)


section \<open>Exclusive claims\<close>

definition uids_ok :: "(lease_key \<rightharpoonup> Lease) \<times> nat set \<Rightarrow> bool" where
  "uids_ok s \<longleftrightarrow> (\<forall>k l. fst s k = Some l \<longrightarrow> lease_UID l \<in> snd s) \<and>
     (\<forall>k k' l l'. fst s k = Some l \<longrightarrow> fst s k' = Some l' \<longrightarrow> lease_UID l = lease_UID l' \<longrightarrow> k = k')"

text \<open>UIDs that stand for leases of \<open>h\<close>, now and in the future.\<close>

definition own :: "(lease_key \<rightharpoonup> Lease) \<times> nat set \<Rightarrow> string \<Rightarrow> nat set \<Rightarrow> bool" where
  "own s h G \<longleftrightarrow> G \<subseteq> snd s \<and> (\<forall>k l. fst s k = Some l \<longrightarrow> lease_UID l \<in> G \<longrightarrow> lease_Holder l = Some h)"

definition holds :: "(lease_key \<rightharpoonup> Lease) \<times> nat set \<Rightarrow> string \<Rightarrow> lease_key \<Rightarrow> bool" where
  "holds s h k \<longleftrightarrow> (\<exists>l. fst s k = Some l \<and> lease_Holder l = Some h)"

text \<open>The changes of the store: none, a lease added, a lease deleted by its UID.\<close>

lemma lease_added_uids: "lease_added s k h s' \<Longrightarrow> uids_ok s \<Longrightarrow> uids_ok s'"
  by (auto simp: lease_added_def uids_ok_def split: if_splits)

lemma lease_added_own: "lease_added s k h s' \<Longrightarrow> own s h' G \<Longrightarrow> own s' h' G"
  by (auto simp: lease_added_def own_def split: if_splits)

lemma lease_added_holds: "lease_added s k h s' \<Longrightarrow> holds s h' k' \<Longrightarrow> holds s' h' k'"
  by (auto simp: lease_added_def holds_def)

lemma lease_added_new: "lease_added s k h s' \<Longrightarrow> holds s' h k"
  by (auto simp: lease_added_def holds_def)

lemma lease_removed_uids: "uids_ok (m, U) \<Longrightarrow> uids_ok (m(k := None), U)"
  by (auto simp: uids_ok_def split: if_splits)

lemma lease_removed_own: "own (m, U) h G \<Longrightarrow> own (m(k := None), U) h G"
  by (auto simp: own_def split: if_splits)

lemma own_insert:
  assumes "uids_ok s" "own s h G" "fst s k = Some l" "lease_Holder l = Some h"
  shows "own s h (G \<union> {lease_UID l})"
  using assms unfolding own_def uids_ok_def by (metis Un_iff Un_subset_iff empty_subsetI insert_subset option.inject singletonD)

text \<open>The invariant of a system.\<close>

definition system_ok :: "((lease_key \<rightharpoonup> Lease) \<times> nat set) \<Rightarrow> (nat \<Rightarrow> string) \<Rightarrow> (nat \<Rightarrow> lease_result lease_prog) \<Rightarrow> bool" where
  "system_ok s holder ps \<longleftrightarrow> uids_ok s \<and> (\<forall>p. \<exists>G K. disciplined (holder p) (ps p) G K \<and> own s (holder p) G)"

lemma system_okI:
  assumes "system_ok s holder ps" "uids_ok s'" "\<And>h G. own s h G \<Longrightarrow> own s' h G"
    and "disciplined (holder p) prog G K" "own s' (holder p) G"
  shows "system_ok s' holder (ps(p := prog))"
  using assms unfolding system_ok_def by (metis fun_upd_apply)

lemma system_okD:
  "system_ok s holder ps \<Longrightarrow> \<exists>G K. disciplined (holder p) (ps p) G K \<and> own s (holder p) G"
  unfolding system_ok_def by blast

context lease_api
begin

lemma create_cases:
  assumes "create k h w r w'"
  shows "view w' = view w \<and> r \<noteq> None \<or> lease_added (view w) k h (view w')"
  using assms create_ok create_err by (cases r) auto

lemma step_invariant:
  assumes "lease_step create get delete holder c l c'" "system_ok (view (fst c)) holder (snd c)"
  shows "system_ok (view (fst c')) holder (snd c')"
  using assms
proof (cases rule: lease_step.cases)
  case (allocate ps p r w networkKey subnet gateway)
  then show ?thesis
    using assms(2) system_okI [of "view w" holder ps "view w" p _ "{}" "{}"] allocate_disciplined
    by (auto simp: system_ok_def own_def)
next
  case (release ps p r w networkKey ip)
  then show ?thesis
    using assms(2) system_okI [of "view w" holder ps "view w" p _ "{}" "{}"] release_disciplined
    by (auto simp: system_ok_def own_def)
next
  case (create ps p k h cont w r w')
  obtain G K where G: "disciplined (holder p) (ps p) G K" "own (view w) (holder p) G"
    using system_okD [of "view w" holder ps p] assms(2) create by auto
  then have d: "disciplined (holder p) (cont r) G (if r = None then {k} else {})"
    using create by simp
  have uids: "uids_ok (view w)" using assms(2) create by (simp add: system_ok_def)
  have view: "uids_ok (view w')" "\<And>h G. own (view w) h G \<Longrightarrow> own (view w') h G"
    using create_cases [OF create(5)] uids by (auto intro: lease_added_uids lease_added_own)
  show ?thesis
    using system_okI [where holder = holder and p = p and ps = ps, OF _ view d view(2) [OF G(2)]] assms(2) create by simp
next
  case (get ps p k cont w g)
  obtain G K where G: "disciplined (holder p) (ps p) G K" "own (view w) (holder p) G"
    using system_okD [of "view w" holder ps p] assms(2) get by auto
  then have d: "disciplined (holder p) (cont g) (G \<union> own_uids (holder p) g) (if own_uids (holder p) g = {} then {} else {k})"
    using get by simp
  have "own (view w) (holder p) (G \<union> own_uids (holder p) g)"
  proof (cases g)
    case (Inr l)
    then have "fst (view w) k = Some l" using get(5) get_ok by simp
    moreover have "uids_ok (view w)" using assms(2) get(1) by (simp add: system_ok_def)
    ultimately show ?thesis using Inr G(2) own_insert [of "view w" "holder p" G k l] by auto
  qed (use G(2) in simp)
  then show ?thesis
    using assms(2) get d by (auto simp: system_ok_def intro!: system_okI [of "view w" _ _ "view w"])
next
  case (delete ps p k u cont w r w')
  obtain G K where G: "disciplined (holder p) (ps p) G K" "own (view w) (holder p) G"
    using system_okD [of "view w" holder ps p] assms(2) delete by auto
  then have d: "disciplined (holder p) (cont r) G {}" using delete by simp
  have uids: "uids_ok (view w)" using assms(2) delete by (simp add: system_ok_def)
  have view: "uids_ok (view w')" "\<And>h G. own (view w) h G \<Longrightarrow> own (view w') h G"
    using delete_any [OF delete(5)] lease_removed_uids [of "fst (view w)" "snd (view w)" k]
      lease_removed_own [of "fst (view w)" "snd (view w)" _ _ k] uids by auto
  show ?thesis
    using system_okI [where holder = holder and p = p and ps = ps, OF _ view d view(2) [OF G(2)]] assms(2) delete by simp
qed


lemma run_invariant:
  assumes "lease_run create get delete holder c tr c'" "system_ok (view (fst c)) holder (snd c)"
  shows "system_ok (view (fst c')) holder (snd c')"
  using assms by (induction rule: lease_run.induct) (auto dest: step_invariant)

text \<open>An address is granted only while the claim is held.\<close>

lemma grant_holds:
  assumes "lease_step create get delete holder c (p, Grants networkKey ip) c'"
    and "system_ok (view (fst c)) holder (snd c)"
  shows "holds (view (fst c')) (holder p) (claim_key networkKey ip)"
proof -
  have grant: "answer_label prog = Grants networkKey ip \<longleftrightarrow> prog = Done (Granted networkKey ip)" for prog
    by (cases prog rule: answer_label.cases) auto
  show ?thesis
    using assms(1)
  proof (cases rule: lease_step.cases)
    case (create ps k h cont w r w')
    then obtain G K where "disciplined (holder p) (CreateLease k h cont) G K"
      using system_okD [of "view w" holder ps p] assms(2) by auto
    then have "h = holder p" "disciplined (holder p) (cont r) G (if r = None then {k} else {})" by auto
    then show ?thesis
      using create grant [of "cont r"] create_ok lease_added_new [of "view w" k h "view w'"]
      by (auto split: if_splits)
  next
    case (get ps k cont w g)
    then obtain G K where "disciplined (holder p) (GetLease k cont) G K"
      using system_okD [of "view w" holder ps p] assms(2) by auto
    then have "disciplined (holder p) (cont g) (G \<union> own_uids (holder p) g) (if own_uids (holder p) g = {} then {} else {k})"
      by simp
    then show ?thesis
      using get grant [of "cont g"] get_ok [of k w]
      by (cases g) (auto simp: holds_def split: if_splits)
  qed
qed

text \<open>Only a delete request of its own holder ends a claim.\<close>

lemma step_keeps_claim:
  assumes "lease_step create get delete holder c (p, l) c'"
    and "system_ok (view (fst c)) holder (snd c)"
    and "holds (view (fst c)) h k" and "\<not> (l = Deletes k \<and> holder p = h)"
  shows "holds (view (fst c')) h k"
  using assms(1)
proof (cases rule: lease_step.cases)
  case (create ps k' h' cont w r w')
  then show ?thesis
    using create_cases [OF create(5)] lease_added_holds [of "view w" k' h' "view w'" h k] assms(3) by auto
next
  case (delete ps k' u cont w r w')
  then obtain G K where "disciplined (holder p) (DeleteLease k' u cont) G K" "own (view w) (holder p) G"
    using system_okD [of "view w" holder ps p] assms(2) by auto
  then have "own (view w) (holder p) G" "u \<in> G" by auto
  then show ?thesis
    using delete_any [OF delete(5)] delete assms(3,4)
    by (auto simp: holds_def own_def simp del: split_paired_All)
qed (use assms(3) in auto)

lemma run_keeps_claim:
  assumes "lease_run create get delete holder c tr c'" "system_ok (view (fst c)) holder (snd c)"
    and "holds (view (fst c)) h k" and "\<forall>p. holder p = h \<longrightarrow> (p, Deletes k) \<notin> set tr"
  shows "holds (view (fst c')) h k"
  using assms
proof (induction rule: lease_run.induct)
  case (step c l c' tr c'')
  obtain p lab where "l = (p, lab)" by (cases l)
  with step step_invariant step_keeps_claim [of holder c p lab c' h k] show ?case by fastforce
qed

lemma exclusive:
  assumes "lease_run create get delete holder c (a @ (p, Grants networkKey ip) # b @ (q, Grants networkKey ip) # d) c'"
    and "system_ok (view (fst c)) holder (snd c)" and "holder p \<noteq> holder q"
  shows "\<exists>p'. holder p' = holder p \<and> (p', Deletes (claim_key networkKey ip)) \<in> set b"
proof (rule ccontr)
  assume none: "\<not> ?thesis"
  obtain c1 c2 c3 c4 where steps: "lease_run create get delete holder c a c1"
    "lease_step create get delete holder c1 (p, Grants networkKey ip) c2"
    "lease_run create get delete holder c2 b c3"
    "lease_step create get delete holder c3 (q, Grants networkKey ip) c4"
    using lease_run_append [OF assms(1)] by (auto dest!: lease_run_append)
  have ok1: "system_ok (view (fst c1)) holder (snd c1)" by (rule run_invariant [OF steps(1) assms(2)])
  have ok2: "system_ok (view (fst c2)) holder (snd c2)" by (rule step_invariant [OF steps(2) ok1])
  have ok3: "system_ok (view (fst c3)) holder (snd c3)" by (rule run_invariant [OF steps(3) ok2])
  have "holds (view (fst c3)) (holder p) (claim_key networkKey ip)"
    using run_keeps_claim [OF steps(3) ok2 grant_holds [OF steps(2) ok1]] none by blast
  then have "holds (view (fst c4)) (holder p) (claim_key networkKey ip)"
    using step_keeps_claim [OF steps(4) ok3] by blast
  then show False using grant_holds [OF steps(4) ok3] assms(3) by (auto simp: holds_def)
qed

end


section \<open>A store\<close>

text \<open>A store that numbers its leases, with failing requests and lost answers, meets the
  contract.\<close>

record lease_store =
  store_leases :: "lease_key \<rightharpoonup> Lease"
  store_next :: nat

definition store_view :: "lease_store \<Rightarrow> (lease_key \<rightharpoonup> Lease) \<times> nat set" where
  "store_view s = (store_leases s, {..<store_next s})"

definition store_add :: "lease_key \<Rightarrow> string \<Rightarrow> lease_store \<Rightarrow> lease_store" where
  "store_add k h s = \<lparr>store_leases = (store_leases s)(k \<mapsto> \<lparr>lease_Holder = Some h, lease_UID = store_next s\<rparr>),
     store_next = store_next s + 1\<rparr>"

definition store_create :: "lease_key \<Rightarrow> string \<Rightarrow> lease_store \<Rightarrow> api_error option \<Rightarrow> lease_store \<Rightarrow> bool" where
  "store_create k h s r s' \<longleftrightarrow>
     s' = s \<and> (r = Some AlreadyExists \<and> store_leases s k \<noteq> None \<or> (\<exists>m. r = Some (OtherErr m))) \<or>
     store_leases s k = None \<and> s' = store_add k h s \<and> (r = None \<or> (\<exists>m. r = Some (OtherErr m)))"

definition store_get :: "lease_key \<Rightarrow> lease_store \<Rightarrow> api_error + Lease \<Rightarrow> bool" where
  "store_get k s g \<longleftrightarrow>
     (case g of Inr l \<Rightarrow> store_leases s k = Some l | Inl e \<Rightarrow> e = NotFound \<and> store_leases s k = None \<or> (\<exists>m. e = OtherErr m))"

definition store_delete :: "lease_key \<Rightarrow> nat \<Rightarrow> lease_store \<Rightarrow> api_error option \<Rightarrow> lease_store \<Rightarrow> bool" where
  "store_delete k u s r s' \<longleftrightarrow>
     s' = s \<and> (r = Some NotFound \<and> store_leases s k = None \<or> r = Some Conflict \<or> (\<exists>m. r = Some (OtherErr m))) \<or>
     (\<exists>l. store_leases s k = Some l \<and> lease_UID l = u) \<and> s' = s\<lparr>store_leases := (store_leases s)(k := None)\<rparr> \<and>
     (r = None \<or> (\<exists>m. r = Some (OtherErr m)))"

interpretation store: lease_api store_view store_create store_get store_delete
  by unfold_locales
    (auto simp: store_create_def store_get_def store_delete_def store_view_def store_add_def lease_added_def)

text \<open>C15. Claims are exclusive across nodes. Whatever the interleaving of allocations and releases,
  with failing requests and lost answers: when one VM is granted an address of a network and later
  another VM is granted the same address, then in between a release of the first VM has sent the
  delete request for its claim.\<close>

theorem lease_exclusive:
  assumes "lease_api view create get delete" and "uids_ok (view w)" and "\<forall>p. \<exists>r. ps p = Done r"
    and "lease_run create get delete holder (w, ps)
      (a @ (p, Grants networkKey ip) # b @ (q, Grants networkKey ip) # d) c'"
    and "holder p \<noteq> holder q"
  shows "\<exists>p'. holder p' = holder p \<and> (p', Deletes (claim_key networkKey ip)) \<in> set b"
proof -
  have "disciplined h (Done r) {} UNIV" for h r by (cases r) auto
  then have "system_ok (view w) holder ps"
    using assms(2,3) unfolding system_ok_def own_def by (metis empty_iff empty_subsetI)
  then show ?thesis using lease_api.exclusive [OF assms(1,4)] assms(5) by simp
qed

lemma example_claim:
  assumes "h \<noteq> ''''"
  shows "\<exists>cont. allocate_prog ''d/n'' ''10.0.0.0/30'' '''' h = CreateLease (claim_key ''d/n'' ''10.0.0.2'') h cont \<and>
    cont None = Done (Granted ''d/n'' ''10.0.0.2'')"
proof -
  have parts: "networkNamespace ''d/n'' = Inr ''d''" "ParseCIDR ''10.0.0.0/30'' = Some (Net4 167772160 30)"
    "broadcastIP (Net4 167772160 30) = Inr 167772163" "contains4 (Net4 167772160 30) 167772161"
    "contains4 (Net4 167772160 30) 167772162" "ip_string 167772162 = ''10.0.0.2''"
    "gateway_ip (Net4 167772160 30) '''' = Some 167772161" "fst (claim_key ''d/n'' ''10.0.0.2'') = ''d''"
    by (code_simp, code_simp, code_simp, code_simp, code_simp, code_simp, code_simp) (simp add: claim_key_def)
  have key: "claim_key ''d/n'' ''10.0.0.2'' = (''d'', leaseName ''d/n'' ''10.0.0.2'')"
    using parts(8) by (simp add: claim_key_def)
  have "LeaseAllocate ''d/n'' ''10.0.0.0/30'' '''' h =
      claim_scan ''d/n'' ''d'' ''10.0.0.0/30'' h (Net4 167772160 30) 167772163 167772161 167772161"
    using assms parts by (simp add: LeaseAllocate_def)
  also have "\<dots> = claim_scan ''d/n'' ''d'' ''10.0.0.0/30'' h (Net4 167772160 30) 167772163 167772161 167772162"
    using parts by (subst claim_scan.simps) simp
  finally have eq: "LeaseAllocate ''d/n'' ''10.0.0.0/30'' '''' h =
      claim_scan ''d/n'' ''d'' ''10.0.0.0/30'' h (Net4 167772160 30) 167772163 167772161 167772162" .
  show ?thesis
    unfolding allocate_prog_def key eq by (subst claim_scan.simps) (use parts in \<open>simp add: Let_def\<close>)
qed


theorem lease_exclusive_witness:
  "\<exists>c. lease_run store_create store_get store_delete (\<lambda>p. if p = 0 then ''vm-a'' else ''vm-b'')
      (\<lparr>store_leases = Map.empty, store_next = 0\<rparr>, \<lambda>p. Done Released)
      ([(0, Quiet)] @ (0, Grants ''d/n'' ''10.0.0.2'') #
       [(0, Quiet), (0, Quiet), (0, Deletes (claim_key ''d/n'' ''10.0.0.2'')), (1, Quiet)] @
       (1, Grants ''d/n'' ''10.0.0.2'') # []) c \<and>
     (\<exists>p'. (if p' = 0 then ''vm-a'' else ''vm-b'') = ''vm-a'' \<and>
        (p' :: nat, Deletes (claim_key ''d/n'' ''10.0.0.2'')) \<in>
          set [(0, Quiet), (0, Quiet), (0, Deletes (claim_key ''d/n'' ''10.0.0.2'')), (1, Quiet)])"
proof -
  let ?h = "\<lambda>p. if p = (0 :: nat) then ''vm-a'' else ''vm-b''"
  let ?k = "claim_key ''d/n'' ''10.0.0.2''"
  let ?w0 = "\<lparr>store_leases = Map.empty, store_next = 0\<rparr> :: lease_store"
  let ?step = "lease_step store_create store_get store_delete ?h"
  let ?run = "lease_run store_create store_get store_delete ?h"
  define ps0 :: "nat \<Rightarrow> lease_result lease_prog" where "ps0 = (\<lambda>p. Done Released)"
  obtain ca where ca: "allocate_prog ''d/n'' ''10.0.0.0/30'' '''' ''vm-a'' = CreateLease ?k ''vm-a'' ca"
    "ca None = Done (Granted ''d/n'' ''10.0.0.2'')" using example_claim by blast
  obtain cb where cb: "allocate_prog ''d/n'' ''10.0.0.0/30'' '''' ''vm-b'' = CreateLease ?k ''vm-b'' cb"
    "cb None = Done (Granted ''d/n'' ''10.0.0.2'')" using example_claim by blast
  define l where "l = \<lparr>lease_Holder = Some ''vm-a'', lease_UID = 0\<rparr>"
  obtain cg cd where cg: "release_prog ''d/n'' ''10.0.0.2'' ''vm-a'' = GetLease ?k cg"
    "cg (Inr l) = DeleteLease ?k 0 cd" "cd None = Done Released"
    by (simp add: release_prog_def LeaseRelease_def networkNamespace_def claim_key_def l_def Let_def)
  define w1 where "w1 = store_add ?k ''vm-a'' ?w0"
  define w2 where "w2 = w1\<lparr>store_leases := (store_leases w1)(?k := None)\<rparr>"
  define w3 where "w3 = store_add ?k ''vm-b'' w2"
  have "?step (?w0, ps0) (0, Quiet) (?w0, ps0(0 := CreateLease ?k ''vm-a'' ca))"
    using lease_step.allocate [of ps0 0 Released _ _ _ ?h] by (simp add: ps0_def flip: ca(1))
  moreover have "?step (?w0, ps0(0 := CreateLease ?k ''vm-a'' ca)) (0, Grants ''d/n'' ''10.0.0.2'')
      (w1, ps0(0 := ca None))"
    using lease_step.create [of "ps0(0 := CreateLease ?k ''vm-a'' ca)" 0 ?k "''vm-a''" ca store_create ?w0 None w1 store_get store_delete ?h]
    by (simp add: ca(2) w1_def store_create_def)
  moreover have "?step (w1, ps0(0 := ca None)) (0, Quiet) (w1, ps0(0 := GetLease ?k cg))"
    using lease_step.release [of "ps0(0 := ca None)" 0 "Granted ''d/n'' ''10.0.0.2''" store_create store_get store_delete ?h w1 "''d/n''" "''10.0.0.2''"]
    by (simp add: ca(2) cg)
  moreover have "?step (w1, ps0(0 := GetLease ?k cg)) (0, Quiet) (w1, ps0(0 := DeleteLease ?k 0 cd))"
    using lease_step.get [of "ps0(0 := GetLease ?k cg)" 0 ?k cg store_get w1 "Inr l" store_create store_delete ?h]
    by (simp add: cg(2) store_get_def w1_def store_add_def l_def [symmetric])
  moreover have "?step (w1, ps0(0 := DeleteLease ?k 0 cd)) (0, Deletes ?k) (w2, ps0)"
    using lease_step.delete [of "ps0(0 := DeleteLease ?k 0 cd)" 0 ?k 0 cd store_delete w1 None w2 store_create store_get ?h]
    by (simp add: cg(3) store_delete_def w1_def w2_def store_add_def ps0_def fun_upd_idem)
  moreover have "?step (w2, ps0) (1, Quiet) (w2, ps0(1 := CreateLease ?k ''vm-b'' cb))"
    using lease_step.allocate [of ps0 1 Released store_create store_get store_delete ?h w2 "''d/n''" "''10.0.0.0/30''" "''''"]
    by (simp add: ps0_def cb)
  moreover have "?step (w2, ps0(1 := CreateLease ?k ''vm-b'' cb)) (1, Grants ''d/n'' ''10.0.0.2'')
      (w3, ps0(1 := cb None))"
    using lease_step.create [of "ps0(1 := CreateLease ?k ''vm-b'' cb)" 1 ?k "''vm-b''" cb store_create w2 None w3 store_get store_delete ?h]
    by (simp add: cb(2) w3_def store_create_def w2_def)
  ultimately have run: "?run (?w0, ps0)
      ([(0, Quiet)] @ (0, Grants ''d/n'' ''10.0.0.2'') # [(0, Quiet), (0, Quiet), (0, Deletes ?k), (1, Quiet)] @
       (1, Grants ''d/n'' ''10.0.0.2'') # []) (w3, ps0(1 := cb None))"
    by (auto intro!: lease_run.intros)
  have "uids_ok (store_view ?w0)" by (simp add: uids_ok_def store_view_def)
  moreover have "\<forall>p. \<exists>r. ps0 p = Done r" by (simp add: ps0_def)
  ultimately have "\<exists>p'. ?h p' = ?h 0 \<and> (p', Deletes ?k) \<in> set [(0, Quiet), (0, Quiet), (0, Deletes ?k), (1, Quiet)]"
    by (rule lease_exclusive [OF store.lease_api_axioms _ _ run]) simp
  then show ?thesis using run unfolding ps0_def by (intro exI [of _ "(w3, _)"] conjI) simp_all
qed

end
