(* ===== verification/CNI_Detect.thy ===== *)
theory CNI_Detect
  imports Imp_Prelude
begin

text \<open>
  Detection of the cluster's CNI plugin (internal/cnidetect): an explicit provider in the cluster
  configuration, otherwise the evidence of CRDs and DaemonSets. The REST mapper and the API reader
  are parameters. The decision is characterised by the evidence alone.
\<close>

section \<open>Providers\<close>

definition ProviderCiliumKubeProxyFree :: string where
  "ProviderCiliumKubeProxyFree = ''cilium-kubeproxy-free''"

definition ProviderCilium :: string where
  "ProviderCilium = ''cilium''"

definition ProviderFlannel :: string where
  "ProviderFlannel = ''flannel''"

definition ProviderCalico :: string where
  "ProviderCalico = ''calico''"

definition ProviderUnknown :: string where
  "ProviderUnknown = ''unknown''"

lemmas provider_defs = ProviderCiliumKubeProxyFree_def ProviderCilium_def ProviderFlannel_def
  ProviderCalico_def ProviderUnknown_def

datatype NATBackend = NATBackendUnset | NATBackendNftables | NATBackendIPTables

record cni_result =
  cni_Provider :: string
  cni_NATBackend :: NATBackend
  cni_Ambiguous :: bool

definition resultFromProvider :: "string \<Rightarrow> cni_result" where
  "resultFromProvider p =
     (if p = ProviderCilium \<or> p = ProviderCiliumKubeProxyFree
      then \<lparr>cni_Provider = p, cni_NATBackend = NATBackendNftables, cni_Ambiguous = False\<rparr>
      else \<lparr>cni_Provider = p, cni_NATBackend = NATBackendIPTables, cni_Ambiguous = False\<rparr>)"

section \<open>Detection\<close>

text \<open>What detection reads: the provider of the configuration object, the number of REST mappings for
  a group and resource (a nil mapper is None), and the outcome of reading a DaemonSet.\<close>

record cni_reads =
  cr_Config :: "api_error + string"
  cr_Mapper :: "(string \<Rightarrow> string \<Rightarrow> api_error + nat) option"
  cr_DaemonSet :: "string \<Rightarrow> api_error option"

definition hasCRD :: "(string \<Rightarrow> string \<Rightarrow> api_error + nat) option \<Rightarrow> string \<Rightarrow> string \<Rightarrow> bool" where
  "hasCRD mapper grp resource =
     (case mapper of
        None \<Rightarrow> False
      | Some m \<Rightarrow> (case m grp resource of Inl e \<Rightarrow> False | Inr mappings \<Rightarrow> 0 < mappings))"

definition hasDaemonSet :: "cni_reads \<Rightarrow> string \<Rightarrow> bool" where
  "hasDaemonSet r name = (cr_DaemonSet r name = None)"

definition containsProvider :: "string list \<Rightarrow> string \<Rightarrow> bool" where
  "containsProvider providers p = list_ex (\<lambda>x. x = p) providers"

definition Detect :: "cni_reads \<Rightarrow> cni_result" where
  "Detect r =
     (let explicit = (case cr_Config r of Inl e \<Rightarrow> '''' | Inr p \<Rightarrow> p) in
      if explicit \<noteq> '''' then resultFromProvider explicit
      else
        let signals = [];
            signals = (if hasCRD (cr_Mapper r) ''cilium.io'' ''ciliumnetworkpolicies''
                       then signals @ [ProviderCilium] else signals);
            signals = (if hasCRD (cr_Mapper r) ''projectcalico.org'' ''globalnetworkpolicies''
                       then signals @ [ProviderCalico] else signals);
            signals = (if \<not> containsProvider signals ProviderCilium \<and> hasDaemonSet r ''cilium-agent''
                       then signals @ [ProviderCilium] else signals);
            signals = (if \<not> containsProvider signals ProviderFlannel \<and> hasDaemonSet r ''kube-flannel-ds''
                       then signals @ [ProviderFlannel] else signals);
            signals = (if \<not> containsProvider signals ProviderCalico \<and> hasDaemonSet r ''calico-node''
                       then signals @ [ProviderCalico] else signals) in
        (case signals of
           [] \<Rightarrow> \<lparr>cni_Provider = ProviderUnknown, cni_NATBackend = NATBackendIPTables, cni_Ambiguous = False\<rparr>
         | [p] \<Rightarrow> resultFromProvider p
         | _ \<Rightarrow> \<lparr>cni_Provider = ProviderUnknown, cni_NATBackend = NATBackendIPTables, cni_Ambiguous = True\<rparr>))"

section \<open>The store\<close>

type_synonym cni_store = "cni_result option"

definition store_Set :: "cni_result \<Rightarrow> cni_store \<Rightarrow> cni_store" where
  "store_Set r s = Some r"

definition store_Result :: "cni_store \<Rightarrow> cni_result \<times> bool" where
  "store_Result s =
     (case s of
        None \<Rightarrow> (\<lparr>cni_Provider = '''', cni_NATBackend = NATBackendUnset, cni_Ambiguous = False\<rparr>, False)
      | Some r \<Rightarrow> (r, True))"

section \<open>The decision\<close>

text \<open>Detection decides by evidence. Without an explicit provider: the result is ambiguous
  exactly when two of the three plugins show evidence, a plugin is named exactly when it alone shows
  evidence, and the nftables backend is chosen exactly when that plugin is Cilium; otherwise the
  backend is iptables. An explicit provider overrides all evidence.\<close>

theorem Detect_by_evidence:
  "let cilium = hasCRD (cr_Mapper r) ''cilium.io'' ''ciliumnetworkpolicies'' \<or> hasDaemonSet r ''cilium-agent'';
       calico = hasCRD (cr_Mapper r) ''projectcalico.org'' ''globalnetworkpolicies'' \<or> hasDaemonSet r ''calico-node'';
       flannel = hasDaemonSet r ''kube-flannel-ds'';
       explicit = (case cr_Config r of Inl e \<Rightarrow> '''' | Inr p \<Rightarrow> p) in
   if explicit \<noteq> '''' then Detect r = resultFromProvider explicit
   else (cni_Ambiguous (Detect r) = (cilium \<and> calico \<or> cilium \<and> flannel \<or> calico \<and> flannel)) \<and>
        cni_Provider (Detect r) =
          (if cilium \<and> \<not> calico \<and> \<not> flannel then ProviderCilium
           else if calico \<and> \<not> cilium \<and> \<not> flannel then ProviderCalico
           else if flannel \<and> \<not> cilium \<and> \<not> calico then ProviderFlannel else ProviderUnknown) \<and>
        cni_NATBackend (Detect r) =
          (if cilium \<and> \<not> calico \<and> \<not> flannel then NATBackendNftables else NATBackendIPTables)"
proof (cases "(case cr_Config r of Inl e \<Rightarrow> '''' | Inr p \<Rightarrow> p) = ''''")
  case False
  then show ?thesis by (simp add: Detect_def Let_def)
next
  case True
  have distinct: "ProviderCilium \<noteq> ProviderCalico" "ProviderCalico \<noteq> ProviderCilium" "ProviderCilium \<noteq> ProviderFlannel"
    "ProviderFlannel \<noteq> ProviderCilium" "ProviderCalico \<noteq> ProviderFlannel" "ProviderFlannel \<noteq> ProviderCalico"
    "ProviderCalico \<noteq> ProviderCiliumKubeProxyFree" "ProviderFlannel \<noteq> ProviderCiliumKubeProxyFree"
    by (simp_all add: provider_defs)
  have evidence: "Detect r =
    (let signals = (if c1 then [ProviderCilium] else []) @ (if k1 then [ProviderCalico] else []) @
           (if \<not> c1 \<and> c2 then [ProviderCilium] else []) @ (if f then [ProviderFlannel] else []) @
           (if \<not> k1 \<and> k2 then [ProviderCalico] else []) in
     case signals of
       [] \<Rightarrow> \<lparr>cni_Provider = ProviderUnknown, cni_NATBackend = NATBackendIPTables, cni_Ambiguous = False\<rparr>
     | [p] \<Rightarrow> resultFromProvider p
     | _ \<Rightarrow> \<lparr>cni_Provider = ProviderUnknown, cni_NATBackend = NATBackendIPTables, cni_Ambiguous = True\<rparr>)"
    if "c1 = hasCRD (cr_Mapper r) ''cilium.io'' ''ciliumnetworkpolicies''" "c2 = hasDaemonSet r ''cilium-agent''"
      "k1 = hasCRD (cr_Mapper r) ''projectcalico.org'' ''globalnetworkpolicies''" "k2 = hasDaemonSet r ''calico-node''"
      "f = hasDaemonSet r ''kube-flannel-ds''" for c1 c2 k1 k2 f
    unfolding Detect_def Let_def True that [symmetric] containsProvider_def
    by (cases c1; cases k1; cases c2; cases k2; cases f) (simp_all add: distinct)
  show ?thesis
    unfolding Let_def evidence [OF refl refl refl refl refl] True resultFromProvider_def
    by (cases "hasCRD (cr_Mapper r) ''cilium.io'' ''ciliumnetworkpolicies''"; cases "hasDaemonSet r ''cilium-agent''";
        cases "hasCRD (cr_Mapper r) ''projectcalico.org'' ''globalnetworkpolicies''";
        cases "hasDaemonSet r ''calico-node''"; cases "hasDaemonSet r ''kube-flannel-ds''")
      (simp_all add: distinct)
qed

end
