(* ===== verification/Network_Controller.thy ===== *)
theory Network_Controller
  imports Group_CIDR CNI_Detect ImpVM_Base
begin

text \<open>
  The reconciler of ImpNetwork objects (impnetwork\_controller.go) and the agent's choice of the
  subnet to allocate from (ipam\_resolver.go): the finalizer, the Cilium IP pool, the VTEP table, the
  group subnets and the enrolment of running VMs as Cilium external workloads. Unstructured objects
  are JSON values. The API server's reads and answers, the CNI store's content and the order in which
  Go ranges over a map are parameters.
\<close>

section \<open>Unstructured objects\<close>

datatype json = JNull | JBool bool | JNumber int | JString string | JArray "json list"
  | JObject "(string \<times> json) list"

text \<open>unstructured.SetNestedField and NestedSlice; None is an error of the former. The latter's
  error and absence are not told apart by its caller.\<close>

fun SetNestedField :: "(string \<times> json) list \<Rightarrow> json \<Rightarrow> string list \<Rightarrow> (string \<times> json) list option" where
  "SetNestedField obj v [] = None"
| "SetNestedField obj v [k] = Some (AList.update k v obj)"
| "SetNestedField obj v (k # ks) =
     (case map_of obj k of
        None \<Rightarrow> map_option (\<lambda>o'. AList.update k (JObject o') obj) (SetNestedField [] v ks)
      | Some (JObject inner) \<Rightarrow> map_option (\<lambda>o'. AList.update k (JObject o') obj) (SetNestedField inner v ks)
      | Some _ \<Rightarrow> None)"

fun NestedSlice :: "json \<Rightarrow> string list \<Rightarrow> json list option" where
  "NestedSlice (JArray xs) [] = Some xs"
| "NestedSlice (JObject obj) (k # ks) =
     (case map_of obj k of None \<Rightarrow> None | Some v \<Rightarrow> NestedSlice v ks)"
| "NestedSlice _ _ = None"

text \<open>An IP pool: its name, labels and the other fields of the object.\<close>

record cilium_pool =
  pool_Name :: string
  pool_Labels :: strmap
  pool_Object :: "(string \<times> json) list"

text \<open>A CiliumExternalWorkload: its name, labels and spec.ipv4AllocCIDR.\<close>

record cilium_ew =
  cew_Name :: string
  cew_Labels :: strmap
  cew_AllocCIDR :: "string option"

section \<open>Reads and writes\<close>

datatype net_effect =
    PatchNet ImpNetwork ImpNetwork
  | PatchNetStatus ImpNetwork ImpNetwork
  | CreatePool cilium_pool
  | UpdatePool cilium_pool
  | DeletePool string
  | CreateCEW cilium_ew
  | DeleteCEW cilium_ew
  | NetEvent event_type string string

record net_env =
  ne_srv :: "(net_effect, ImpNetwork) server"
  ne_now :: int
  ne_sort :: sorter
  ne_range :: "nat \<Rightarrow> nat list"
  ne_cni :: cni_store
  ne_cilium_present :: bool
  ne_masq_config :: "api_error + strmap"
  ne_pool :: "string \<Rightarrow> api_error + cilium_pool"
  ne_vtep_vms :: "api_error + ImpVM list"
  ne_enroll_vms :: "api_error + ImpVM list"
  ne_cews :: "api_error + cilium_ew list"

type_synonym 'a net_io = "(net_effect, 'a) io"

definition finalizerImpNetwork :: string where
  "finalizerImpNetwork = ''imp/network-finalizer''"

definition net_has_finalizer :: "ImpNetwork \<Rightarrow> bool" where
  "net_has_finalizer net = (finalizerImpNetwork \<in> set (om_Finalizers (net_Meta net)))"

definition net_with_finalizers :: "string list \<Rightarrow> ImpNetwork \<Rightarrow> ImpNetwork" where
  "net_with_finalizers fs net = net\<lparr>net_Meta := (net_Meta net)\<lparr>om_Finalizers := fs\<rparr>\<rparr>"

text \<open>The pool reference of a network whose addresses come from Cilium.\<close>

definition cilium_pool_ref :: "ImpNetwork \<Rightarrow> CiliumIPAMSpec option" where
  "cilium_pool_ref net =
     (case ns_IPAM (net_Spec net) of
        None \<Rightarrow> None
      | Some ipam \<Rightarrow>
          if ip_Provider ipam \<noteq> ''cilium'' then None
          else case ip_Cilium ipam of
                 None \<Rightarrow> None
               | Some c \<Rightarrow> if ci_PoolRef c = '''' then None else Some c)"

section \<open>Deletion\<close>

definition net_handleDeletion :: "net_env \<Rightarrow> ImpNetwork \<Rightarrow> ctrl_result net_io" where
  "net_handleDeletion env net =
     (if \<not> net_has_finalizer net then ret no_requeue
      else
        and_then
          (case cilium_pool_ref net of
             None \<Rightarrow> ret ()
           | Some c \<Rightarrow> send_ignoring (\<lambda>e. e = NotFound \<or> e = NoMatch) (ne_srv env) (DeletePool (ci_PoolRef c)))
          (\<lambda>_. and_then
            (send (ne_srv env) (PatchNet net
              (net_with_finalizers (removeAll finalizerImpNetwork (om_Finalizers (net_Meta net))) net)))
            (\<lambda>_. ret no_requeue)))"

section \<open>The Cilium pool\<close>

text \<open>The mutation CreateOrUpdate applies to the pool.\<close>

definition mutate_pool :: "ImpNetwork \<Rightarrow> string \<Rightarrow> cilium_pool \<Rightarrow> error + cilium_pool" where
  "mutate_pool net cidr pool =
     (let labels = AList.update ''imp.dev/namespace'' (om_Namespace (net_Meta net))
            (AList.update ''imp.dev/network'' (om_Name (net_Meta net)) (pool_Labels pool)) in
      case SetNestedField (pool_Object pool) (JArray [JObject [(''cidr'', JString cidr)]])
             [''spec'', ''ipv4'', ''cidrs''] of
        None \<Rightarrow> Inl (Err ''value is not a map'')
      | Some obj \<Rightarrow> Inr (pool\<lparr>pool_Labels := labels, pool_Object := obj\<rparr>))"

text \<open>controllerutil.CreateOrUpdate: read, mutate, and create the missing or update the changed
  object.\<close>

definition reconcileCiliumPool :: "net_env \<Rightarrow> ImpNetwork \<Rightarrow> unit net_io" where
  "reconcileCiliumPool env net =
     (case cilium_pool_ref net of
        None \<Rightarrow> ret ()
      | Some c \<Rightarrow>
          let cidr = (if ci_Cidr c \<noteq> '''' then ci_Cidr c else ns_Subnet (net_Spec net));
              ignoring = (\<lambda>e. e = NoMatch) in
          (case ne_pool env (ci_PoolRef c) of
             Inl NotFound \<Rightarrow>
               (case mutate_pool net cidr \<lparr>pool_Name = ci_PoolRef c, pool_Labels = [], pool_Object = []\<rparr> of
                  Inl e \<Rightarrow> fail e
                | Inr pool \<Rightarrow> send_ignoring ignoring (ne_srv env) (CreatePool pool))
           | Inl e \<Rightarrow> if ignoring e then ret () else fail (Api e)
           | Inr existing \<Rightarrow>
               (case mutate_pool net cidr existing of
                  Inl e \<Rightarrow> fail e
                | Inr pool \<Rightarrow> when_io (pool \<noteq> existing) (send_ignoring ignoring (ne_srv env) (UpdatePool pool)))))"

section \<open>The VTEP table\<close>

definition on_network :: "ImpNetwork \<Rightarrow> ImpVM \<Rightarrow> bool" where
  "on_network net vm = (vs_NetworkRef (vm_Spec vm) = Some (om_Name (net_Meta net)))"

definition activeIPs :: "ImpNetwork \<Rightarrow> ImpVM list \<Rightarrow> string list" where
  "activeIPs net vms =
     map (\<lambda>vm. vt_IP (vm_Status vm))
       (filter (\<lambda>vm. on_network net vm \<and> vm_phase vm = VMPhaseRunning \<and> vt_IP (vm_Status vm) \<noteq> '''') vms)"

definition net_upd_status :: "(ImpNetworkStatus \<Rightarrow> ImpNetworkStatus) \<Rightarrow> ImpNetwork \<Rightarrow> ImpNetwork" where
  "net_upd_status f net = net\<lparr>net_Status := f (net_Status net)\<rparr>"

definition reconcileVTEPTable :: "net_env \<Rightarrow> ImpNetwork \<Rightarrow> ImpNetwork net_io" where
  "reconcileVTEPTable env net =
     (if nt_VTEPTable (net_Status net) = [] then ret net
      else
        and_then (lift (ne_vtep_vms env)) (\<lambda>vms.
          let filtered = filter (\<lambda>entry. ve_VMIP entry \<in> set (activeIPs net vms)) (nt_VTEPTable (net_Status net)) in
          if length filtered = length (nt_VTEPTable (net_Status net)) then ret net
          else send (ne_srv env) (PatchNetStatus net (net_upd_status (\<lambda>s. s\<lparr>nt_VTEPTable := filtered\<rparr>) net))))"

section \<open>Group subnets\<close>

fun error_text :: "error \<Rightarrow> string" where
  "error_text (Err m) = m"
| "error_text (Api e) = ''''"
| "error_text (Panic m) = m"

text \<open>A failure is reported as an event and does not stop the reconcile; a panic does. A nil slice
  and an empty one are told apart by reflect.DeepEqual; status and result are nil when they have no
  entry.\<close>

definition reconcileGroupCIDRs :: "net_env \<Rightarrow> ImpNetwork \<Rightarrow> ImpNetwork net_io" where
  "reconcileGroupCIDRs env net =
     (case carveGroupCIDRs (ne_sort env) (ns_Subnet (net_Spec net)) (ns_Groups (net_Spec net)) of
        Inl (Panic m) \<Rightarrow> fail (Panic m)
      | Inl e \<Rightarrow>
          and_then (emit (NetEvent EventWarning ''GroupCIDRError'' (''Group CIDR carving failed: '' @ error_text e)))
            (\<lambda>_. ret net)
      | Inr desired \<Rightarrow>
          if nt_GroupCIDRs (net_Status net) = desired then ret net
          else send (ne_srv env) (PatchNetStatus net (net_upd_status (\<lambda>s. s\<lparr>nt_GroupCIDRs := desired\<rparr>) net)))"

section \<open>Enrolment in Cilium\<close>

definition vm_key :: "ImpVM \<Rightarrow> string" where
  "vm_key vm = vm_namespace vm @ ''/'' @ vm_name vm"

text \<open>The map of running VMs, as an association list.\<close>

definition runningVMs :: "ImpNetwork \<Rightarrow> ImpVM list \<Rightarrow> (string \<times> ImpVM) list" where
  "runningVMs net vms =
     fold (\<lambda>vm m. if on_network net vm \<and> vm_phase vm = VMPhaseRunning then AList.update (vm_key vm) vm m else m)
       vms []"

definition cewName :: "ImpVM \<Rightarrow> string" where
  "cewName vm = ''vm-'' @ vm_namespace vm @ ''-'' @ vm_name vm"

definition new_cew :: "ImpNetwork \<Rightarrow> ImpVM \<Rightarrow> cilium_ew" where
  "new_cew net vm =
     \<lparr>cew_Name = cewName vm,
      cew_Labels = [(''imp.dev/vm-key'', vm_key vm), (''imp.dev/vm'', vm_name vm),
        (''imp.dev/namespace'', vm_namespace vm), (''imp.dev/network'', om_Name (net_Meta net))],
      cew_AllocCIDR = (if vt_IP (vm_Status vm) \<noteq> '''' then Some (vt_IP (vm_Status vm) @ ''/32'') else None)\<rparr>"

fun gc_cews :: "net_env \<Rightarrow> (string \<times> ImpVM) list \<Rightarrow> cilium_ew list \<Rightarrow> string list \<Rightarrow> string list net_io" where
  "gc_cews env running [] existing = ret existing"
| "gc_cews env running (cew # cews) existing =
     (if map_of running (str_get (cew_Labels cew) ''imp.dev/vm-key'') \<noteq> None then gc_cews env running cews existing
      else and_then (send_ignoring (\<lambda>e. e = NotFound) (ne_srv env) (DeleteCEW cew))
             (\<lambda>_. gc_cews env running cews (removeAll (cew_Name cew) existing)))"

definition create_cew :: "net_env \<Rightarrow> ImpNetwork \<Rightarrow> string list \<Rightarrow> ImpVM \<Rightarrow> unit net_io" where
  "create_cew env net existing vm =
     (if cewName vm \<in> set existing then ret ()
      else send_ignoring (\<lambda>e. e = AlreadyExists) (ne_srv env) (CreateCEW (new_cew net vm)))"

definition isCiliumCNI :: "cni_store \<Rightarrow> bool" where
  "isCiliumCNI cni =
     (cni_Provider (fst (store_Result cni)) = ProviderCilium \<or>
      cni_Provider (fst (store_Result cni)) = ProviderCiliumKubeProxyFree)"

definition reconcileCiliumEnrollment :: "net_env \<Rightarrow> ImpNetwork \<Rightarrow> unit net_io" where
  "reconcileCiliumEnrollment env net =
     (if \<not> isCiliumCNI (ne_cni env) \<or> \<not> ne_cilium_present env then ret ()
      else
        and_then (lift (ne_enroll_vms env)) (\<lambda>vms.
        and_then (lift (case ne_cews env of Inl NoMatch \<Rightarrow> Inr [] | r \<Rightarrow> r)) (\<lambda>cews.
          let running = runningVMs net vms in
          and_then (gc_cews env running cews (map cew_Name cews)) (\<lambda>existing.
            for_each (\<lambda>i. create_cew env net existing (snd (running ! i))) (ne_range env (length running))))))"

section \<open>Reconcile\<close>

definition setNetworkReady :: "int \<Rightarrow> ImpNetwork \<Rightarrow> ImpNetwork" where
  "setNetworkReady now = net_upd_status (\<lambda>s. s\<lparr>nt_Conditions :=
     SetStatusCondition \<lparr>c_Type = ''Ready'', c_Status = ConditionTrue, c_Reason = ''Reconciled'',
       c_Message = ''ImpNetwork reconciled successfully'', c_ObservedGeneration = 0, c_LastTransitionTime = now\<rparr>
       (nt_Conditions s)\<rparr>)"

definition str_contains :: "string \<Rightarrow> string \<Rightarrow> bool" where
  "str_contains s t = list_ex (\<lambda>i. take (length t) (drop i s) = t) [0..<length s + 1]"

definition hasCiliumMasqConfig :: "net_env \<Rightarrow> string \<Rightarrow> bool" where
  "hasCiliumMasqConfig env subnet =
     (case ne_masq_config env of Inl e \<Rightarrow> False | Inr data \<Rightarrow> str_contains (str_get data ''config'') subnet)"

fun backend_string :: "NATBackend \<Rightarrow> string" where
  "backend_string NATBackendUnset = ''''"
| "backend_string NATBackendNftables = ''nftables''"
| "backend_string NATBackendIPTables = ''iptables''"

text \<open>The dash in the message of the CiliumConfigMissing event is not ASCII; a hyphen stands for it.\<close>

definition net_sync :: "net_env \<Rightarrow> ImpNetwork \<Rightarrow> ctrl_result net_io" where
  "net_sync env net =
     (let cni = fst (store_Result (ne_cni env)) in
      and_then
        (if cni_Ambiguous cni
         then emit (NetEvent EventWarning ''CNIAmbiguous'' ''Multiple CNIs detected; NAT backend defaulted to iptables'')
         else emit (NetEvent EventNormal ''CNIDetected''
           (''CNI: provider='' @ cni_Provider cni @ '' natBackend='' @ backend_string (cni_NATBackend cni)))) (\<lambda>_.
      and_then
        (when_io ((case ns_Cilium (net_Spec net) of None \<Rightarrow> False | Some c \<Rightarrow> cn_MasqueradeViaCilium c) \<and>
                  isCiliumCNI (ne_cni env) \<and> \<not> hasCiliumMasqConfig env (ns_Subnet (net_Spec net)))
          (emit (NetEvent EventWarning ''CiliumConfigMissing''
            (''Cilium ipMasqAgent not configured for subnet '' @ ns_Subnet (net_Spec net) @ '' - see docs/networking/cilium.md''))))
        (\<lambda>_.
      and_then (reconcileCiliumPool env net) (\<lambda>_.
      and_then (reconcileVTEPTable env net) (\<lambda>net.
      and_then (reconcileGroupCIDRs env net) (\<lambda>net.
      and_then (reconcileCiliumEnrollment env net) (\<lambda>_.
      and_then (send (ne_srv env) (PatchNetStatus net (setNetworkReady (ne_now env) net))) (\<lambda>_.
        ret no_requeue))))))))"

definition net_Reconcile :: "net_env \<Rightarrow> api_error + ImpNetwork \<Rightarrow> ctrl_result net_io" where
  "net_Reconcile env read =
     (case read of
        Inl e \<Rightarrow> (case ignoreNotFound e of Inl er \<Rightarrow> fail er | Inr _ \<Rightarrow> ret no_requeue)
      | Inr net \<Rightarrow>
          if om_DeletionTimestamp (net_Meta net) \<noteq> None then net_handleDeletion env net
          else if \<not> net_has_finalizer net then
            and_then (send (ne_srv env) (PatchNet net
              (net_with_finalizers (om_Finalizers (net_Meta net) @ [finalizerImpNetwork]) net)))
              (\<lambda>_. ret no_requeue)
          else net_sync env net)"

definition vmToNetworkMapper :: "ImpVM \<Rightarrow> (string \<times> string) list" where
  "vmToNetworkMapper vm =
     (case vs_NetworkRef (vm_Spec vm) of None \<Rightarrow> [] | Some name \<Rightarrow> [(vm_namespace vm, name)])"

section \<open>The agent's subnet\<close>

definition firstPoolCIDR :: "cilium_pool \<Rightarrow> string" where
  "firstPoolCIDR pool =
     (case NestedSlice (JObject (pool_Object pool)) [''spec'', ''cidrs''] of
        None \<Rightarrow> ''''
      | Some cidrs \<Rightarrow>
          let pick = (\<lambda>item. case item of
                JString v \<Rightarrow> v
              | JObject m \<Rightarrow> (case map_of m ''cidr'' of Some (JString c) \<Rightarrow> c | _ \<Rightarrow> '''')
              | _ \<Rightarrow> '''') in
          (case find (\<lambda>c. c \<noteq> '''') (map pick cidrs) of None \<Rightarrow> '''' | Some c \<Rightarrow> c))"

text \<open>The pool is read in two API versions, the older first.\<close>

fun pool_versions :: "(string \<Rightarrow> api_error + cilium_pool) \<Rightarrow> string \<Rightarrow> string list \<Rightarrow> api_error option \<Rightarrow> error + string" where
  "pool_versions get poolRef [] lastErr =
     (case lastErr of
        None \<Rightarrow> Inl (Err (''get CiliumPodIPPool '' @ poolRef @ '': not found''))
      | Some e \<Rightarrow> Inl (Api e))"
| "pool_versions get poolRef (version # versions) lastErr =
     (case get version of
        Inl e \<Rightarrow> if e = NotFound \<or> e = NoMatch then pool_versions get poolRef versions (Some e) else Inl (Api e)
      | Inr pool \<Rightarrow>
          if firstPoolCIDR pool \<noteq> '''' then Inr (firstPoolCIDR pool)
          else Inl (Err (''ciliumpodippool '' @ poolRef @ '' has no spec.cidrs entries'')))"

definition resolveCiliumPoolCIDR :: "(string \<Rightarrow> string \<Rightarrow> api_error + cilium_pool) \<Rightarrow> string \<Rightarrow> error + string" where
  "resolveCiliumPoolCIDR get poolRef = pool_versions (\<lambda>version. get version poolRef) poolRef [''v2alpha1'', ''v2''] None"

text \<open>The client is nil where the agent runs without an API server.\<close>

definition resolveAllocationSubnet ::
  "(string \<Rightarrow> string \<Rightarrow> api_error + cilium_pool) option \<Rightarrow> ImpNetwork \<Rightarrow> string \<Rightarrow> error + string" where
  "resolveAllocationSubnet c impNet networkGroup =
     (if networkGroup \<noteq> '''' then
        (case find (\<lambda>gc. gc_Name gc = networkGroup) (nt_GroupCIDRs (net_Status impNet)) of
           Some gc \<Rightarrow> Inr (gc_CIDR gc)
         | None \<Rightarrow> Inl (Err (''network group '' @ networkGroup @
             '' has no allocated CIDR yet (network controller may not have reconciled)'')))
      else
        (case ns_IPAM (net_Spec impNet) of
           None \<Rightarrow> Inr (ns_Subnet (net_Spec impNet))
         | Some ipam \<Rightarrow>
             if ip_Provider ipam \<noteq> ''cilium'' then Inr (ns_Subnet (net_Spec impNet))
             else
               (case ip_Cilium ipam of
                  None \<Rightarrow> Inl (Err ''cilium ipam requires spec.ipam.cilium.poolRef'')
                | Some ci \<Rightarrow>
                    if ci_PoolRef ci = '''' then Inl (Err ''cilium ipam requires spec.ipam.cilium.poolRef'')
                    else if ci_Cidr ci \<noteq> '''' then Inr (ci_Cidr ci)
                    else case c of
                           None \<Rightarrow> Inl (Err ''cilium ipam requires kubernetes client'')
                         | Some get \<Rightarrow> resolveCiliumPoolCIDR get (ci_PoolRef ci))))"


section \<open>What a reconcile may write\<close>

text \<open>A server that nobody else writes to: a patch is answered with the object sent.\<close>

locale quiet_net_api =
  fixes srv :: "(net_effect, ImpNetwork) server"
  assumes net_patch_answer: "srv tr (PatchNet b obj) = Inr r \<Longrightarrow> r = obj"
    and net_status_answer: "srv tr (PatchNetStatus b obj) = Inr r \<Longrightarrow> r = obj"

fun quiet_net_server :: "(net_effect, ImpNetwork) server" where
  "quiet_net_server tr (PatchNet b obj) = Inr obj"
| "quiet_net_server tr (PatchNetStatus b obj) = Inr obj"
| "quiet_net_server tr e = Inr zero_net"

interpretation quiet_net: quiet_net_api quiet_net_server
  by unfold_locales auto

text \<open>The writes of the parts of a reconcile, for a network \<open>net0\<close> as it was read: the table only
  loses entries without a running VM, and nothing outside the status changes; external workloads are
  deleted only for VMs that do not run, and created only for VMs that do.\<close>

definition vtep_active :: "net_env \<Rightarrow> ImpNetwork \<Rightarrow> VTEPEntry \<Rightarrow> bool" where
  "vtep_active env net entry \<longleftrightarrow>
     (\<exists>vms. ne_vtep_vms env = Inr vms \<and> ve_VMIP entry \<in> set (activeIPs net vms))"

definition same_frame :: "ImpNetwork \<Rightarrow> ImpNetwork \<Rightarrow> bool" where
  "same_frame net0 net \<longleftrightarrow> net_Meta net = net_Meta net0 \<and> net_Spec net = net_Spec net0"

definition vtep_kept :: "net_env \<Rightarrow> ImpNetwork \<Rightarrow> ImpNetwork \<Rightarrow> bool" where
  "vtep_kept env net0 net \<longleftrightarrow>
     nt_VTEPTable (net_Status net) = nt_VTEPTable (net_Status net0) \<or>
     nt_VTEPTable (net_Status net) = filter (vtep_active env net0) (nt_VTEPTable (net_Status net0))"

fun sync_write :: "net_env \<Rightarrow> ImpNetwork \<Rightarrow> net_effect \<Rightarrow> bool" where
  "sync_write env net0 (PatchNet b obj) = False"
| "sync_write env net0 (PatchNetStatus b obj) = (same_frame net0 obj \<and> vtep_kept env net0 obj)"
| "sync_write env net0 (DeletePool name) = False"
| "sync_write env net0 (CreatePool pool) = (cilium_pool_ref net0 \<noteq> None)"
| "sync_write env net0 (UpdatePool pool) = (cilium_pool_ref net0 \<noteq> None)"
| "sync_write env net0 (DeleteCEW cew) =
     (isCiliumCNI (ne_cni env) \<and> (\<forall>vms. ne_enroll_vms env = Inr vms \<longrightarrow>
        map_of (runningVMs net0 vms) (str_get (cew_Labels cew) ''imp.dev/vm-key'') = None))"
| "sync_write env net0 (CreateCEW cew) =
     (isCiliumCNI (ne_cni env) \<and>
      (\<exists>vms i. ne_enroll_vms env = Inr vms \<and> cew = new_cew net0 (snd (runningVMs net0 vms ! i))))"
| "sync_write env net0 (NetEvent t r m) = True"

lemma on_network_frame: "same_frame net0 net \<Longrightarrow> on_network net vm = on_network net0 vm"
  by (simp add: on_network_def same_frame_def)

lemma runningVMs_frame: "same_frame net0 net \<Longrightarrow> runningVMs net vms = runningVMs net0 vms"
  by (simp add: runningVMs_def on_network_frame)

lemma new_cew_frame: "same_frame net0 net \<Longrightarrow> new_cew net vm = new_cew net0 vm"
  by (simp add: new_cew_def same_frame_def)

lemma net_upd_status_sel [simp]:
  "net_Meta (net_upd_status f net) = net_Meta net" "net_Spec (net_upd_status f net) = net_Spec net"
  "net_Status (net_upd_status f net) = f (net_Status net)"
  by (simp_all add: net_upd_status_def)

definition sync_state :: "net_env \<Rightarrow> ImpNetwork \<Rightarrow> ImpNetwork \<Rightarrow> bool" where
  "sync_state env net0 net \<longleftrightarrow> same_frame net0 net \<and> vtep_kept env net0 net"

lemma pool_writes:
  "io_ok (sync_write env net) (\<lambda>_. True) (reconcileCiliumPool env net)"
  unfolding reconcileCiliumPool_def Let_def
  by (auto intro!: io_rules split: option.splits sum.splits api_error.splits)

lemma gc_writes:
  assumes "isCiliumCNI (ne_cni env)" "\<And>vms. ne_enroll_vms env = Inr vms \<Longrightarrow> running = runningVMs net0 vms"
  shows "io_ok (sync_write env net0) (\<lambda>_. True) (gc_cews env running cews existing)"
proof (induction cews arbitrary: existing)
  case (Cons cew cews)
  then show ?case using assms by (auto intro!: io_rules)
qed (simp add: io_rules)

lemma enrollment_writes:
  assumes "same_frame net0 net"
  shows "io_ok (sync_write env net0) (\<lambda>_. True) (reconcileCiliumEnrollment env net)"
proof (cases "isCiliumCNI (ne_cni env) \<and> ne_cilium_present env")
  case False
  then show ?thesis by (auto simp: reconcileCiliumEnrollment_def intro!: io_rules)
next
  case True
  have create: "io_ok (sync_write env net0) (\<lambda>_. True) (create_cew env net existing (snd (runningVMs net0 vms ! i)))"
    if "ne_enroll_vms env = Inr vms" for existing vms i
    using that True assms by (auto simp: create_cew_def new_cew_frame intro!: io_rules)
  show ?thesis
    unfolding reconcileCiliumEnrollment_def Let_def
    using True runningVMs_frame [OF assms]
    by (auto intro!: io_rules gc_writes create io_ok_then [OF io_ok_lift [where Q = "\<lambda>vms. ne_enroll_vms env = Inr vms"]])
qed


lemma io_ok_net_status:
  assumes "quiet_net_api srv" "P (PatchNetStatus b obj)" "Q obj"
  shows "io_ok P Q (send srv (PatchNetStatus b obj))"
  using assms(2,3) by (auto intro!: io_ok_send dest: quiet_net_api.net_status_answer [OF assms(1)])

lemma vtep_writes:
  assumes "quiet_net_api (ne_srv env)"
  shows "io_ok (sync_write env net) (sync_state env net) (reconcileVTEPTable env net)"
proof -
  have "io_ok (sync_write env net) (sync_state env net)
      (send (ne_srv env) (PatchNetStatus net (net_upd_status (\<lambda>s. s\<lparr>nt_VTEPTable :=
        filter (\<lambda>entry. ve_VMIP entry \<in> set (activeIPs net vms)) (nt_VTEPTable (net_Status net))\<rparr>) net)))"
    if "ne_vtep_vms env = Inr vms" for vms
  proof -
    have "vtep_active env net = (\<lambda>entry. ve_VMIP entry \<in> set (activeIPs net vms))"
      using that by (intro ext) (simp add: vtep_active_def)
    then show ?thesis
      by (intro io_ok_net_status [OF assms]) (auto simp: sync_state_def same_frame_def vtep_kept_def)
  qed
  moreover have "sync_state env net net" by (simp add: sync_state_def same_frame_def vtep_kept_def)
  ultimately show ?thesis
    unfolding reconcileVTEPTable_def Let_def
    by (auto intro!: io_ok_ret io_ok_then [OF io_ok_lift [where Q = "\<lambda>vms. ne_vtep_vms env = Inr vms"]])
qed

lemma group_writes:
  assumes "quiet_net_api (ne_srv env)" "sync_state env net0 net"
  shows "io_ok (sync_write env net0) (sync_state env net0) (reconcileGroupCIDRs env net)"
proof -
  have "io_ok (sync_write env net0) (sync_state env net0)
      (send (ne_srv env) (PatchNetStatus net (net_upd_status (\<lambda>s. s\<lparr>nt_GroupCIDRs := desired\<rparr>) net)))" for desired
    using assms(2)
    by (intro io_ok_net_status [OF assms(1)]) (auto simp: sync_state_def same_frame_def vtep_kept_def)
  then show ?thesis
    unfolding reconcileGroupCIDRs_def
    using assms(2) by (auto intro!: io_rules split: sum.splits error.splits)
qed

lemma net_sync_writes:
  assumes "quiet_net_api (ne_srv env)"
  shows "io_ok (sync_write env net) (\<lambda>_. True) (net_sync env net)"
proof -
  have ready: "io_ok (sync_write env net) (\<lambda>_. True) (send (ne_srv env) (PatchNetStatus n (setNetworkReady now n)))"
    if "sync_state env net n" for n now
    using that
    by (intro io_ok_net_status [OF assms]) (auto simp: sync_state_def same_frame_def vtep_kept_def setNetworkReady_def)
  show ?thesis
    unfolding net_sync_def Let_def
    by (intro io_ok_seq io_ok_when io_ok_then [OF vtep_writes [OF assms]] io_ok_then [OF group_writes [OF assms]]
        pool_writes enrollment_writes ready io_ok_ret)
      (auto simp: sync_state_def intro!: io_rules)
qed



definition example_net :: ImpNetwork where
  "example_net = zero_net
     \<lparr>net_Meta := zero_meta\<lparr>om_Name := ''blue'', om_Namespace := ''default'', om_Finalizers := [finalizerImpNetwork]\<rparr>,
      net_Spec := zero_net_spec\<lparr>ns_Subnet := ''10.1.0.0/24''\<rparr>,
      net_Status := (net_Status zero_net)\<lparr>nt_VTEPTable :=
        [\<lparr>ve_NodeIP = ''192.0.2.1'', ve_VMIP = ''10.1.0.2'', ve_VMMAC = ''''\<rparr>,
         \<lparr>ve_NodeIP = ''192.0.2.2'', ve_VMIP = ''10.1.0.3'', ve_VMMAC = ''''\<rparr>]\<rparr>\<rparr>"

definition example_net_vm :: ImpVM where
  "example_net_vm = zero_vm
     \<lparr>vm_Meta := zero_meta\<lparr>om_Name := ''a'', om_Namespace := ''default''\<rparr>,
      vm_Spec := zero_vm_spec\<lparr>vs_NetworkRef := Some ''blue''\<rparr>,
      vm_Status := zero_vm_status\<lparr>vt_Phase := VMPhaseRunning, vt_IP := ''10.1.0.2''\<rparr>\<rparr>"

definition example_net_env :: net_env where
  "example_net_env =
     \<lparr>ne_srv = quiet_net_server, ne_now = 0, ne_sort = insertion_sort, ne_range = (\<lambda>n. [0..<n]),
      ne_cni = Some (resultFromProvider ProviderCilium), ne_cilium_present = True, ne_masq_config = Inl NotFound,
      ne_pool = (\<lambda>_. Inl NotFound), ne_vtep_vms = Inr [example_net_vm], ne_enroll_vms = Inr [example_net_vm],
      ne_cews = Inr [\<lparr>cew_Name = ''vm-default-b'', cew_Labels = [(''imp.dev/vm-key'', ''default/b'')],
        cew_AllocCIDR = None\<rparr>]\<rparr>"

lemma example_net_trace:
  "set (snd (net_Reconcile example_net_env (Inr example_net) [])) \<supseteq>
     {PatchNetStatus example_net (net_upd_status (\<lambda>s. s\<lparr>nt_VTEPTable :=
        [\<lparr>ve_NodeIP = ''192.0.2.1'', ve_VMIP = ''10.1.0.2'', ve_VMMAC = ''''\<rparr>]\<rparr>) example_net),
      CreateCEW (new_cew example_net example_net_vm)}"
  by code_simp



section \<open>Convergence of the enrolment\<close>

text \<open>The external workloads of the cluster after a write.\<close>

fun cew_apply :: "net_effect \<Rightarrow> cilium_ew list \<Rightarrow> cilium_ew list" where
  "cew_apply (CreateCEW cew) cews = cews @ [cew]"
| "cew_apply (DeleteCEW cew) cews = filter (\<lambda>c. cew_Name c \<noteq> cew_Name cew) cews"
| "cew_apply e cews = cews"

definition cew_live :: "(string \<times> ImpVM) list \<Rightarrow> cilium_ew \<Rightarrow> bool" where
  "cew_live running cew \<longleftrightarrow> map_of running (str_get (cew_Labels cew) ''imp.dev/vm-key'') \<noteq> None"

lemma run_gc_cews:
  assumes "accepting (ne_srv env)"
  shows "\<exists>existing'. gc_cews env running cews existing tr =
      (Inr existing', tr @ map DeleteCEW (filter (\<lambda>c. \<not> cew_live running c) cews)) \<and>
    set existing' = set existing - cew_Name ` {c \<in> set cews. \<not> cew_live running c}"
proof (induction cews arbitrary: existing tr)
  case (Cons cew cews)
  show ?case
  proof (cases "cew_live running cew")
    case True
    then show ?thesis using Cons [of existing tr] by (auto simp: cew_live_def)
  next
    case False
    then show ?thesis
      using Cons [of "removeAll (cew_Name cew) existing" "tr @ [DeleteCEW cew]"] run_send_ignoring [OF assms]
      by (auto simp: io_run cew_live_def)
  qed
qed (simp add: io_run)

lemma run_create_cews:
  assumes "accepting (ne_srv env)"
  shows "for_each (\<lambda>i. create_cew env net existing (vm i)) is tr =
    (Inr (), tr @ map (\<lambda>i. CreateCEW (new_cew net (vm i))) (filter (\<lambda>i. cewName (vm i) \<notin> set existing) is))"
  by (induction "is" arbitrary: tr) (simp_all add: io_run create_cew_def run_send_ignoring [OF assms])

lemma fold_delete_cews:
  "fold cew_apply (map DeleteCEW dead) cews = filter (\<lambda>c. cew_Name c \<notin> cew_Name ` set dead) cews"
  by (induction dead arbitrary: cews) (auto intro: filter_cong)

lemma fold_create_cews: "fold cew_apply (map (\<lambda>i. CreateCEW (f i)) is) cews = cews @ map f is"
  by (induction "is" arbitrary: cews) auto

lemma set_update_subset: "set (AList.update k v m) \<subseteq> insert (k, v) (set m)"
  by (induction m) auto

lemma runningVMs_key: "(k, vm) \<in> set (runningVMs net vms) \<Longrightarrow> k = vm_key vm"
proof -
  have "(k, vm) \<in> set (fold (\<lambda>vm m. if on_network net vm \<and> vm_phase vm = VMPhaseRunning
      then AList.update (vm_key vm) vm m else m) vms m0) \<Longrightarrow> \<forall>(k, vm)\<in>set m0. k = vm_key vm \<Longrightarrow> k = vm_key vm" for m0
  proof (induction vms arbitrary: m0)
    case (Cons v vms)
    show ?case
    proof (rule Cons.IH)
      show "\<forall>(k, vm)\<in>set (if on_network net v \<and> vm_phase v = VMPhaseRunning then AList.update (vm_key v) v m0 else m0).
          k = vm_key vm"
        using Cons.prems(2) by (auto dest!: subsetD [OF set_update_subset])
    qed (use Cons.prems(1) in simp)
  qed auto
  then show "(k, vm) \<in> set (runningVMs net vms) \<Longrightarrow> k = vm_key vm" unfolding runningVMs_def by fastforce
qed


lemma run_enrollment:
  assumes ok: "accepting (ne_srv env)" and cni: "isCiliumCNI (ne_cni env)" "ne_cilium_present env"
    and reads: "ne_enroll_vms env = Inr vms" "ne_cews env = Inr cews"
    and names: "cew_Name ` {c \<in> set cews. cew_live (runningVMs net vms) c} \<inter>
      cew_Name ` {c \<in> set cews. \<not> cew_live (runningVMs net vms) c} = {}"
  shows "\<exists>is. set is \<subseteq> set (ne_range env (length (runningVMs net vms))) \<and>
    (\<forall>i\<in>set (ne_range env (length (runningVMs net vms))).
       i \<in> set is \<or> cewName (snd (runningVMs net vms ! i)) \<in> cew_Name ` {c \<in> set cews. cew_live (runningVMs net vms) c}) \<and>
    (\<forall>i\<in>set is. cewName (snd (runningVMs net vms ! i)) \<notin> cew_Name ` {c \<in> set cews. cew_live (runningVMs net vms) c}) \<and>
    reconcileCiliumEnrollment env net tr =
      (Inr (), tr @ map DeleteCEW (filter (\<lambda>c. \<not> cew_live (runningVMs net vms) c) cews) @
         map (\<lambda>i. CreateCEW (new_cew net (snd (runningVMs net vms ! i)))) is)"
proof -
  let ?running = "runningVMs net vms"
  let ?dead = "filter (\<lambda>c. \<not> cew_live ?running c) cews"
  obtain existing where gc: "gc_cews env ?running cews (map cew_Name cews) tr = (Inr existing, tr @ map DeleteCEW ?dead)"
    "set existing = set (map cew_Name cews) - cew_Name ` {c \<in> set cews. \<not> cew_live ?running c}"
    using run_gc_cews [OF ok] by blast
  have existing: "set existing = cew_Name ` {c \<in> set cews. cew_live ?running c}"
    unfolding gc(2) set_map using names by blast
  let ?is = "filter (\<lambda>i. cewName (snd (?running ! i)) \<notin> set existing) (ne_range env (length ?running))"
  have "reconcileCiliumEnrollment env net tr = (Inr (), (tr @ map DeleteCEW ?dead) @
      map (\<lambda>i. CreateCEW (new_cew net (snd (?running ! i)))) ?is)"
    using cni reads gc(1) run_create_cews [OF ok, of net existing "\<lambda>i. snd (?running ! i)"]
    by (simp add: reconcileCiliumEnrollment_def io_run Let_def)
  then show ?thesis unfolding existing by (intro exI [of _ "?is"]) (auto simp: existing)
qed

lemma distinct_names:
  assumes "distinct (map cew_Name cews)"
  shows "cew_Name ` {c \<in> set cews. P c} \<inter> cew_Name ` {c \<in> set cews. \<not> P c} = {}"
  using assms by (auto simp: distinct_map inj_on_def)

lemma new_cew_live:
  assumes "i < length (runningVMs net vms)"
  shows "cew_live (runningVMs net vms) (new_cew net (snd (runningVMs net vms ! i)))"
proof -
  have elem: "runningVMs net vms ! i \<in> set (runningVMs net vms)" using assms by simp
  then have "fst (runningVMs net vms ! i) = vm_key (snd (runningVMs net vms ! i))"
    using runningVMs_key [of "fst (runningVMs net vms ! i)" "snd (runningVMs net vms ! i)" net vms] by simp
  moreover have "fst (runningVMs net vms ! i) \<in> fst ` set (runningVMs net vms)" using elem by (rule imageI)
  ultimately show ?thesis by (simp add: cew_live_def new_cew_def str_get_def map_of_eq_None_iff)
qed

text \<open>A pass that finds nothing to do.\<close>

lemma enrollment_settled:
  assumes "accepting (ne_srv env)" "isCiliumCNI (ne_cni env)" "ne_cilium_present env"
    and "ne_enroll_vms env = Inr vms" "ne_cews env = Inr cews"
    and live: "\<forall>cew\<in>set cews. cew_live (runningVMs net vms) cew"
    and named: "\<And>i. i \<in> set (ne_range env (length (runningVMs net vms))) \<Longrightarrow>
      cewName (snd (runningVMs net vms ! i)) \<in> cew_Name ` set cews"
  shows "reconcileCiliumEnrollment env net [] = (Inr (), [])"
proof -
  have dead: "{c \<in> set cews. \<not> cew_live (runningVMs net vms) c} = {}"
    "filter (\<lambda>c. \<not> cew_live (runningVMs net vms) c) cews = []"
    "{c \<in> set cews. cew_live (runningVMs net vms) c} = set cews" using live by (auto simp: filter_empty_conv)
  obtain "is" where is': "set is \<subseteq> set (ne_range env (length (runningVMs net vms)))"
    "\<forall>i\<in>set is. cewName (snd (runningVMs net vms ! i)) \<notin> cew_Name ` set cews"
    "reconcileCiliumEnrollment env net [] =
      (Inr (), map (\<lambda>i. CreateCEW (new_cew net (snd (runningVMs net vms ! i)))) is)"
    using run_enrollment [OF assms(1-5), of net "[]"] unfolding dead by auto
  have "is = []"
  proof (rule ccontr)
    assume "is \<noteq> []"
    then have "hd is \<in> set is" by simp
    then show False using is'(1,2) named by blast
  qed
  then show ?thesis using is'(3) by simp
qed

text \<open>C17. The enrolment converges in one pass. When the API server accepts the writes, a pass leaves
  exactly the right external workloads: every running VM of the network has one under its name, none
  is left whose VM does not run, and a further pass over the result writes nothing.\<close>

theorem enrollment_converges:
  assumes "accepting (ne_srv env)" and "isCiliumCNI (ne_cni env)" and "ne_cilium_present env"
    and "ne_enroll_vms env = Inr vms" and "ne_cews env = Inr cews" and "distinct (map cew_Name cews)"
    and "set (ne_range env (length (runningVMs net vms))) = {..<length (runningVMs net vms)}"
  shows "let (res, tr) = reconcileCiliumEnrollment env net []; cews' = fold cew_apply tr cews in
    res = Inr () \<and>
    (\<forall>(k, vm)\<in>set (runningVMs net vms). cewName vm \<in> cew_Name ` set cews') \<and>
    (\<forall>cew\<in>set cews'. cew_live (runningVMs net vms) cew) \<and>
    reconcileCiliumEnrollment (env\<lparr>ne_cews := Inr cews'\<rparr>) net [] = (Inr (), [])"
proof -
  let ?running = "runningVMs net vms"
  let ?live = "\<lambda>c. cew_live ?running c" and ?new = "\<lambda>i. new_cew net (snd (?running ! i))"
  let ?dead = "filter (\<lambda>c. \<not> ?live c) cews"
  note apart = distinct_names [OF assms(6), of ?live]
  obtain "is" where run: "set is \<subseteq> {..<length ?running}"
    "\<forall>i\<in>{..<length ?running}. i \<in> set is \<or> cewName (snd (?running ! i)) \<in> cew_Name ` {c \<in> set cews. ?live c}"
    "reconcileCiliumEnrollment env net [] = (Inr (), map DeleteCEW ?dead @ map (\<lambda>i. CreateCEW (?new i)) is)"
    using run_enrollment [OF assms(1-5) apart, of "[]"] unfolding assms(7) by auto
  define cews' where "cews' = fold cew_apply (map DeleteCEW ?dead @ map (\<lambda>i. CreateCEW (?new i)) is) cews"
  have "filter (\<lambda>c. cew_Name c \<notin> cew_Name ` set ?dead) cews = filter ?live cews"
    using apart by (intro filter_cong refl) (simp, blast)
  then have cews': "cews' = filter ?live cews @ map ?new is"
    by (simp add: cews'_def fold_delete_cews fold_create_cews)
  have named: "cewName (snd (?running ! i)) \<in> cew_Name ` set cews'" if "i < length ?running" for i
  proof -
    have "cew_Name (?new i) = cewName (snd (?running ! i))" for i by (simp add: new_cew_def)
    then have names: "cew_Name ` set cews' = cew_Name ` {c \<in> set cews. ?live c} \<union> (\<lambda>i. cewName (snd (?running ! i))) ` set is"
      by (simp add: cews' image_Un image_image)
    have "i \<in> set is \<or> cewName (snd (?running ! i)) \<in> cew_Name ` {c \<in> set cews. ?live c}" using run(2) that by simp
    then show ?thesis
    proof
      assume "i \<in> set is"
      then show ?thesis unfolding names by (rule UnI2 [OF imageI])
    qed (simp add: names)
  qed
  have live: "\<forall>cew\<in>set cews'. ?live cew" using run(1) new_cew_live by (auto simp: cews')
  have settled: "reconcileCiliumEnrollment (env\<lparr>ne_cews := Inr cews'\<rparr>) net [] = (Inr (), [])"
    using assms(1-4,7) live named by (intro enrollment_settled) auto
  have "cewName (snd kv) \<in> cew_Name ` set cews'" if kv: "kv \<in> set ?running" for kv
  proof -
    obtain i where "i < length ?running" "?running ! i = kv" using kv unfolding in_set_conv_nth by blast
    then show ?thesis using named [of i] by simp
  qed
  then have all: "\<forall>(k, vm)\<in>set ?running. cewName vm \<in> cew_Name ` set cews'"
    unfolding split_beta by (rule ballI)
  show ?thesis
    unfolding run(3) Let_def prod.case cews'_def [symmetric] by (intro conjI refl all live settled)
qed


lemma accepting_quiet_net: "accepting quiet_net_server"
proof -
  have "\<exists>r. quiet_net_server tr e = Inr r" for tr e by (cases e) auto
  then show ?thesis by (simp add: accepting_def)
qed

theorem enrollment_converges_witness:
  "let (res, tr) = reconcileCiliumEnrollment example_net_env example_net [];
       cews' = fold cew_apply tr [\<lparr>cew_Name = ''vm-default-b'', cew_Labels = [(''imp.dev/vm-key'', ''default/b'')],
         cew_AllocCIDR = None\<rparr>] in
   res = Inr () \<and> length tr = 2 \<and> ''vm-default-a'' \<in> cew_Name ` set cews' \<and>
   reconcileCiliumEnrollment (example_net_env\<lparr>ne_cews := Inr cews'\<rparr>) example_net [] = (Inr (), [])"
proof -
  have env: "accepting (ne_srv example_net_env)" "isCiliumCNI (ne_cni example_net_env)" "ne_cilium_present example_net_env"
    "ne_enroll_vms example_net_env = Inr [example_net_vm]"
    "ne_cews example_net_env = Inr [\<lparr>cew_Name = ''vm-default-b'', cew_Labels = [(''imp.dev/vm-key'', ''default/b'')],
         cew_AllocCIDR = None\<rparr>]"
    by (simp_all add: example_net_env_def accepting_quiet_net isCiliumCNI_def store_Result_def resultFromProvider_def)
  have running: "runningVMs example_net [example_net_vm] = [(''default/a'', example_net_vm)]" by code_simp
  have len: "length (snd (reconcileCiliumEnrollment example_net_env example_net [])) = 2" by code_simp
  have name: "cewName example_net_vm = ''vm-default-a''" by code_simp
  have range: "set (ne_range example_net_env (length (runningVMs example_net [example_net_vm]))) =
      {..<length (runningVMs example_net [example_net_vm])}"
    by (simp add: example_net_env_def atLeast_upt)
  show ?thesis
    using enrollment_converges [OF env _ range] len
    unfolding running by (simp add: Let_def split_beta name)
qed

section \<open>The pool the operator writes and the subnet the agent reads\<close>


text \<open>C18. The operator's pool gives the agent no subnet. The operator records the subnet of a
  Cilium-managed network at spec.ipv4.cidrs of the pool; the agent reads spec.cidrs. For a pool the
  operator has created, allocation for a network without an explicit CIDR fails, whatever the
  subnet.\<close>

theorem cilium_pool_unreadable:
  assumes "cilium_pool_ref net = Some c" and "ci_Cidr c = ''''"
    and "mutate_pool net (ns_Subnet (net_Spec net)) \<lparr>pool_Name = ci_PoolRef c, pool_Labels = [], pool_Object = []\<rparr> = Inr pool"
    and "get ''v2alpha1'' (ci_PoolRef c) = Inr pool"
  shows "resolveAllocationSubnet (Some get) net '''' =
    Inl (Err (''ciliumpodippool '' @ ci_PoolRef c @ '' has no spec.cidrs entries''))"
proof -
  have "firstPoolCIDR pool = ''''"
    using assms(3) by (auto simp: mutate_pool_def firstPoolCIDR_def Let_def)
  then show ?thesis
    using assms(1,2,4)
    by (auto simp: resolveAllocationSubnet_def resolveCiliumPoolCIDR_def cilium_pool_ref_def
        split: option.splits if_splits)
qed

definition example_cilium_net :: ImpNetwork where
  "example_cilium_net = example_net\<lparr>net_Spec := (net_Spec example_net)\<lparr>ns_IPAM :=
     Some \<lparr>ip_Provider = ''cilium'', ip_Cilium = Some \<lparr>ci_PoolRef = ''pool'', ci_Cidr = ''''\<rparr>\<rparr>\<rparr>\<rparr>"

theorem cilium_pool_unreadable_witness:
  "\<exists>pool. snd (reconcileCiliumPool example_net_env example_cilium_net []) = [CreatePool pool] \<and>
     resolveAllocationSubnet (Some (\<lambda>v name. Inr pool)) example_cilium_net '''' =
       Inl (Err ''ciliumpodippool pool has no spec.cidrs entries'')"
proof -
  define c where "c = \<lparr>ci_PoolRef = ''pool'', ci_Cidr = ''''\<rparr>"
  define new where "new = \<lparr>pool_Name = ci_PoolRef c, pool_Labels = [], pool_Object = []\<rparr>"
  have ref: "cilium_pool_ref example_cilium_net = Some c"
    by (simp add: example_cilium_net_def cilium_pool_ref_def c_def)
  obtain pool where pool: "mutate_pool example_cilium_net (ns_Subnet (net_Spec example_cilium_net)) new = Inr pool"
    by (simp add: mutate_pool_def Let_def new_def)
  have "snd (reconcileCiliumPool example_net_env example_cilium_net []) = [CreatePool pool]"
    using ref pool
    by (simp add: reconcileCiliumPool_def Let_def c_def new_def example_net_env_def send_ignoring_def io_run)
  then show ?thesis
    using cilium_pool_unreadable [OF ref _ pool [unfolded new_def], where get = "\<lambda>v name. Inr pool"] by (auto simp: c_def)
qed

end
