(* ===== verification/Snapshot_Types.thy ===== *)
theory Snapshot_Types
  imports ImpVM_Base
begin

text \<open>
  The ImpVMSnapshot object (impvmsnapshot\_types.go), the controller reference that the controllers
  put on objects they create, and the rendering of time stamps.
\<close>

record NodeLocalSpec =
  nl_Path :: string

record OCIRegistrySpec =
  oci_Repository :: string
  oci_PullSecretRef :: "string option"

record SnapshotStorageSpec =
  ss_Type :: string
  ss_NodeLocal :: "NodeLocalSpec option"
  ss_OCIRegistry :: "OCIRegistrySpec option"

record ImpVMSnapshotSpec =
  sp_SourceVMName :: string
  sp_SourceVMNamespace :: string
  sp_Schedule :: string
  sp_Retention :: int
  sp_Storage :: SnapshotStorageSpec
  sp_BaseSnapshot :: string

record ImpVMSnapshotStatus =
  st_Phase :: string
  st_Digest :: string
  st_SnapshotPath :: string
  st_CompletedAt :: "int option"
  st_NextScheduledAt :: "int option"
  st_LastExecutionRef :: "string option"
  st_BaseSnapshot :: string
  st_TerminatedAt :: "int option"
  st_Conditions :: "condition list"

record ImpVMSnapshot =
  sn_Meta :: object_meta
  sn_Spec :: ImpVMSnapshotSpec
  sn_Status :: ImpVMSnapshotStatus

definition zero_snapshot_status :: ImpVMSnapshotStatus where
  "zero_snapshot_status = \<lparr>st_Phase = '''', st_Digest = '''', st_SnapshotPath = '''', st_CompletedAt = None,
     st_NextScheduledAt = None, st_LastExecutionRef = None, st_BaseSnapshot = '''', st_TerminatedAt = None,
     st_Conditions = []\<rparr>"

definition zero_snapshot_spec :: ImpVMSnapshotSpec where
  "zero_snapshot_spec = \<lparr>sp_SourceVMName = '''', sp_SourceVMNamespace = '''', sp_Schedule = '''', sp_Retention = 0,
     sp_Storage = \<lparr>ss_Type = '''', ss_NodeLocal = None, ss_OCIRegistry = None\<rparr>, sp_BaseSnapshot = ''''\<rparr>"

definition snap_upd_status :: "(ImpVMSnapshotStatus \<Rightarrow> ImpVMSnapshotStatus) \<Rightarrow> ImpVMSnapshot \<Rightarrow> ImpVMSnapshot" where
  "snap_upd_status f snap = snap\<lparr>sn_Status := f (sn_Status snap)\<rparr>"

lemma snap_upd_status_sel [simp]:
  "sn_Meta (snap_upd_status f snap) = sn_Meta snap" "sn_Spec (snap_upd_status f snap) = sn_Spec snap"
  "sn_Status (snap_upd_status f snap) = f (sn_Status snap)"
  by (simp_all add: snap_upd_status_def)

abbreviation snap_name :: "ImpVMSnapshot \<Rightarrow> string" where
  "snap_name snap \<equiv> om_Name (sn_Meta snap)"

abbreviation snap_terminated :: "ImpVMSnapshot \<Rightarrow> bool" where
  "snap_terminated snap \<equiv> st_TerminatedAt (sn_Status snap) \<noteq> None"

section \<open>Controller references\<close>

text \<open>ctrl.SetControllerReference on an object without a controller: an owner with a namespace may own
  objects of that namespace only.\<close>

definition SetControllerReference :: "string \<Rightarrow> object_meta \<Rightarrow> object_meta \<Rightarrow> error + object_meta" where
  "SetControllerReference kind owner obj =
     (if om_Namespace owner \<noteq> '''' \<and> om_Namespace obj \<noteq> om_Namespace owner
      then Inl (Err ''cross-namespace owner references are disallowed'')
      else Inr (obj\<lparr>om_OwnerReferences := om_OwnerReferences obj @
        [\<lparr>or_Kind = kind, or_Name = om_Name owner, or_UID = om_UID owner, or_Controller = Some True\<rparr>]\<rparr>))"

lemma SetControllerReference_sel:
  assumes "SetControllerReference kind owner obj = Inr m"
  shows "om_Name m = om_Name obj" "om_Namespace m = om_Namespace obj" "om_Labels m = om_Labels obj"
  using assms by (auto simp: SetControllerReference_def split: if_splits)

section \<open>Time stamps\<close>

text \<open>The civil date of a number of days since 1 January 1970, and the clock time of a day, of a time in
  nanoseconds: year, month, day, hour, minute, second.\<close>

definition civil_date :: "int \<Rightarrow> int \<times> int \<times> int" where
  "civil_date days =
     (let z = days + 719468; era = z div 146097; doe = z - era * 146097;
          yoe = (doe - doe div 1460 + doe div 36524 - doe div 146096) div 365;
          doy = doe - (365 * yoe + yoe div 4 - yoe div 100);
          mp = (5 * doy + 2) div 153;
          d = doy - (153 * mp + 2) div 5 + 1;
          m = (if mp < 10 then mp + 3 else mp - 9);
          y = yoe + era * 400 + (if m \<le> 2 then 1 else 0) in
      (y, m, d))"

definition pad_digits :: "nat \<Rightarrow> int \<Rightarrow> string" where
  "pad_digits n i = (let s = itoa (nat i) in replicate (n - length s) (CHR ''0'') @ s)"

text \<open>Format with the layouts 20060102-150405 and 20060102-1504.\<close>

definition format_minutes :: "int \<Rightarrow> string" where
  "format_minutes t =
     (let secs = t div 1000000000; (y, m, d) = civil_date (secs div 86400); s = secs mod 86400 in
      pad_digits 4 y @ pad_digits 2 m @ pad_digits 2 d @ ''-'' @
      pad_digits 2 (s div 3600) @ pad_digits 2 (s mod 3600 div 60))"

definition format_seconds :: "int \<Rightarrow> string" where
  "format_seconds t = format_minutes t @ pad_digits 2 (t div 1000000000 mod 60)"

end
