(* ===== verification/Snapshots.thy ===== *)
theory Snapshots
  imports Snapshot_Types Net_Addr
begin

text \<open>
  Snapshots: the operator's reconciler of ImpVMSnapshot objects (impvmsnapshot\_controller.go), which
  turns a parent into a sequence of child executions, and the agent's reconciler
  (internal/agent/impvmsnapshot\_reconciler.go), which runs a child on the node of its VM. The cron
  parser, the clock, the file system and the driver are parameters. Executions are proved to be
  serial, pruning to spare what retention and the elected base protect, and every execution on a
  node to terminate.
\<close>

section \<open>The operator\<close>

datatype snap_effect =
    PatchSnapStatus ImpVMSnapshot ImpVMSnapshot
  | CreateSnap ImpVMSnapshot
  | DeleteSnap ImpVMSnapshot

type_synonym 'a snap_io = "(snap_effect, 'a) io"

text \<open>The clock is read several times; \<open>se_clock i\<close> is the reading number \<open>i\<close>. The cron parser gives
  the next tick after a time.\<close>

record snap_env =
  se_srv :: "(snap_effect, ImpVMSnapshot) server"
  se_children :: "api_error + ImpVMSnapshot list"
  se_children_pruned :: "api_error + ImpVMSnapshot list"
  se_sort :: sorter
  se_cron :: "string \<Rightarrow> (int \<Rightarrow> int) option"
  se_clock :: "nat \<Rightarrow> int"

definition has_parent_label :: "ImpVMSnapshot \<Rightarrow> bool" where
  "has_parent_label snap = has_key (om_Labels (sn_Meta snap)) LabelSnapshotParent"

definition createChild :: "snap_env \<Rightarrow> ImpVMSnapshot \<Rightarrow> ImpVMSnapshot snap_io" where
  "createChild env parent =
     (let childName = snap_name parent @ ''-'' @ format_seconds (se_clock env 2);
          meta = zero_meta\<lparr>om_Name := childName, om_Namespace := om_Namespace (sn_Meta parent),
            om_Labels := [(LabelSnapshotParent, snap_name parent)]\<rparr> in
      case SetControllerReference ''ImpVMSnapshot'' (sn_Meta parent) meta of
        Inl e \<Rightarrow> fail e
      | Inr meta \<Rightarrow>
          and_then (send (se_srv env) (CreateSnap \<lparr>sn_Meta = meta,
              sn_Spec = (sn_Spec parent)\<lparr>sp_Schedule := ''''\<rparr>, sn_Status = zero_snapshot_status\<rparr>)) (\<lambda>_.
            send (se_srv env) (PatchSnapStatus parent
              (snap_upd_status (\<lambda>s. s\<lparr>st_LastExecutionRef := Some childName\<rparr>) parent))))"

definition older :: "ImpVMSnapshot \<Rightarrow> ImpVMSnapshot \<Rightarrow> bool" where
  "older a b = time_before (om_CreationTimestamp (sn_Meta a)) (om_CreationTimestamp (sn_Meta b))"

fun delete_children :: "snap_env \<Rightarrow> ImpVMSnapshot \<Rightarrow> ImpVMSnapshot list \<Rightarrow> unit snap_io" where
  "delete_children env snap [] = ret ()"
| "delete_children env snap (child # children) =
     (if sp_BaseSnapshot (sn_Spec snap) \<noteq> '''' \<and> snap_name child = sp_BaseSnapshot (sn_Spec snap)
      then delete_children env snap children
      else and_then (try_send (se_srv env) (DeleteSnap child)) (\<lambda>r.
             case r of
               Some e \<Rightarrow> if e = NotFound then delete_children env snap children else fail (Api e)
             | None \<Rightarrow> delete_children env snap children))"

definition effective_retention :: "ImpVMSnapshot \<Rightarrow> int" where
  "effective_retention snap = (if sp_Retention (sn_Spec snap) = 0 then 3 else sp_Retention (sn_Spec snap))"

text \<open>The schema admits retentions from 1 to 10; a negative one is out of the slice's bounds.\<close>

definition prune_children :: "snap_env \<Rightarrow> ImpVMSnapshot \<Rightarrow> ImpVMSnapshot list \<Rightarrow> ImpVMSnapshot list snap_io" where
  "prune_children env snap children =
     (let retention = effective_retention snap in
      if int (length children) > retention then
        if retention < 0 then fail (Panic ''slice bounds out of range'')
        else
          let sorted = sort_slice (se_sort env) older children;
              toDelete = take (length children - nat retention) sorted in
          and_then (delete_children env snap toDelete) (\<lambda>_. lift (se_children_pruned env))
      else ret children)"

definition elect_base :: "snap_env \<Rightarrow> ImpVMSnapshot \<Rightarrow> ImpVMSnapshot list \<Rightarrow> ImpVMSnapshot snap_io" where
  "elect_base env snap children =
     (let name = sp_BaseSnapshot (sn_Spec snap) in
      if name \<noteq> '''' \<and>
         list_ex (\<lambda>c. snap_name c = name \<and> st_Phase (sn_Status c) = ''Succeeded'') children \<and>
         st_BaseSnapshot (sn_Status snap) \<noteq> name
      then send (se_srv env) (PatchSnapStatus snap (snap_upd_status (\<lambda>s. s\<lparr>st_BaseSnapshot := name\<rparr>) snap))
      else ret snap)"

definition run_schedule :: "snap_env \<Rightarrow> ImpVMSnapshot \<Rightarrow> (int \<Rightarrow> int) \<Rightarrow> ctrl_result snap_io" where
  "run_schedule env snap sched =
     (let next = sched (se_clock env 0); untilNext = time_sub next (se_clock env 1) in
      and_then
        (if untilNext \<le> seconds 5 then
           and_then (createChild env snap) (\<lambda>snap.
             let next = sched (se_clock env 3) in ret (snap, next, time_sub next (se_clock env 4)))
         else ret (snap, next, untilNext))
        (\<lambda>(snap, next, untilNext).
          and_then
            (if st_NextScheduledAt (sn_Status snap) = Some next then ret snap
             else send (se_srv env) (PatchSnapStatus snap
               (snap_upd_status (\<lambda>s. s\<lparr>st_NextScheduledAt := Some next\<rparr>) snap)))
            (\<lambda>_. ret (requeue_after untilNext))))"

definition run_executions :: "snap_env \<Rightarrow> ImpVMSnapshot \<Rightarrow> ImpVMSnapshot list \<Rightarrow> ctrl_result snap_io" where
  "run_executions env snap children =
     (if sp_Schedule (sn_Spec snap) = '''' then
        if children = [] then and_then (createChild env snap) (\<lambda>_. ret no_requeue) else ret no_requeue
      else case se_cron env (sp_Schedule (sn_Spec snap)) of
             None \<Rightarrow> ret no_requeue
           | Some sched \<Rightarrow> run_schedule env snap sched)"

definition snap_Reconcile :: "snap_env \<Rightarrow> api_error + ImpVMSnapshot \<Rightarrow> ctrl_result snap_io" where
  "snap_Reconcile env read =
     (case read of
        Inl e \<Rightarrow> (case ignoreNotFound e of Inl er \<Rightarrow> fail er | Inr _ \<Rightarrow> ret no_requeue)
      | Inr snap \<Rightarrow>
          if has_parent_label snap then ret no_requeue
          else
            and_then
              (if st_Phase (sn_Status snap) = ''''
               then send (se_srv env) (PatchSnapStatus snap (snap_upd_status (\<lambda>s. s\<lparr>st_Phase := ''Pending''\<rparr>) snap))
               else ret snap) (\<lambda>snap.
            and_then (lift (se_children env)) (\<lambda>children.
              if \<not> list_all snap_terminated children then ret (requeue_after (seconds 30))
              else
                and_then (prune_children env snap children) (\<lambda>children.
                and_then (elect_base env snap children) (\<lambda>snap.
                run_executions env snap children)))))"

section \<open>Paths\<close>

text \<open>filepath.Join and filepath.Base on Unix paths.\<close>

fun clean_parts :: "bool \<Rightarrow> string list \<Rightarrow> string list \<Rightarrow> string list" where
  "clean_parts rooted acc [] = rev acc"
| "clean_parts rooted acc (p # ps) =
     (if p = '''' \<or> p = ''.'' then clean_parts rooted acc ps
      else if p = ''..'' then
        (case acc of
           [] \<Rightarrow> clean_parts rooted (if rooted then [] else [p]) ps
         | a # as \<Rightarrow> clean_parts rooted (if a = ''..'' then p # acc else as) ps)
      else clean_parts rooted (p # acc) ps)"

fun join_parts :: "string list \<Rightarrow> string" where
  "join_parts [] = ''''"
| "join_parts [p] = p"
| "join_parts (p # ps) = p @ ''/'' @ join_parts ps"

definition path_clean :: "string \<Rightarrow> string" where
  "path_clean s =
     (let rooted = (s \<noteq> '''' \<and> hd s = CHR ''/''); ps = clean_parts rooted [] (split_on (CHR ''/'') s) in
      if rooted then ''/'' @ join_parts ps else if ps = [] then ''.'' else join_parts ps)"

definition path_join :: "string list \<Rightarrow> string" where
  "path_join elems =
     (let es = filter (\<lambda>e. e \<noteq> '''') elems in if es = [] then '''' else path_clean (join_parts es))"

definition path_base :: "string \<Rightarrow> string" where
  "path_base s =
     (if s = '''' then ''.''
      else let t = rev (dropWhile (\<lambda>c. c = CHR ''/'') (rev s)) in
           if t = '''' then ''/'' else last (split_on (CHR ''/'') t))"

section \<open>The agent\<close>

datatype exec_effect =
    MkdirTemp string
  | DriverSnapshot string string
  | MkdirAll string
  | Rename string string
  | PushOCI string string
  | RemoveAll string
  | PatchExecution ImpVMSnapshot ImpVMSnapshot

text \<open>The file system, the driver and the registry answer with an error text or a result: the
  temporary directory, the state and memory files, the digest.\<close>

record exec_env =
  xe_node :: string
  xe_srv :: "(exec_effect, ImpVMSnapshot) server"
  xe_vm :: "api_error + ImpVM"
  xe_mkdtemp :: "string + string"
  xe_snapshot :: "string + string \<times> string"
  xe_mkdir :: "string \<Rightarrow> string option"
  xe_rename :: "string \<Rightarrow> string \<Rightarrow> string option"
  xe_push :: "string \<Rightarrow> string \<Rightarrow> string + string"
  xe_now :: int

type_synonym 'a exec_io = "(exec_effect, 'a) io"

record snapExecResult =
  xr_path :: string
  xr_digest :: string

text \<open>Results of an execution are values, not exceptions: the caller records a failure.\<close>

fun move_files :: "exec_env \<Rightarrow> string \<Rightarrow> string list \<Rightarrow> (string + snapExecResult) exec_io" where
  "move_files env destDir [] = ret (Inr \<lparr>xr_path = destDir, xr_digest = ''''\<rparr>)"
| "move_files env destDir (src # srcs) =
     (let dest = path_join [destDir, path_base src] in
      case xe_rename env src dest of
        Some m \<Rightarrow> ret (Inl (''move '' @ src @ '': '' @ m))
      | None \<Rightarrow> and_then (emit (Rename src dest)) (\<lambda>_. move_files env destDir srcs))"

definition storeNodeLocal :: "exec_env \<Rightarrow> ImpVMSnapshot \<Rightarrow> string \<times> string \<Rightarrow> (string + snapExecResult) exec_io" where
  "storeNodeLocal env snap sr =
     (let basePath = (case ss_NodeLocal (sp_Storage (sn_Spec snap)) of
            None \<Rightarrow> ''/var/lib/imp/snapshots''
          | Some nl \<Rightarrow> if nl_Path nl \<noteq> '''' then nl_Path nl else ''/var/lib/imp/snapshots'');
          destDir = path_join [basePath, om_Namespace (sn_Meta snap),
            str_get (om_Labels (sn_Meta snap)) LabelSnapshotParent, snap_name snap] in
      case xe_mkdir env destDir of
        Some m \<Rightarrow> ret (Inl (''mkdir '' @ destDir @ '': '' @ m))
      | None \<Rightarrow> and_then (emit (MkdirAll destDir)) (\<lambda>_. move_files env destDir [fst sr, snd sr]))"

definition pushOCI :: "exec_env \<Rightarrow> ImpVMSnapshot \<Rightarrow> ImpVM \<Rightarrow> string \<times> string \<Rightarrow> (string + snapExecResult) exec_io" where
  "pushOCI env snap vm sr =
     (case ss_OCIRegistry (sp_Storage (sn_Spec snap)) of
        None \<Rightarrow> ret (Inl ''oci-registry storage requires spec.storage.ociRegistry'')
      | Some oci \<Rightarrow>
          let tag = om_Namespace (sn_Meta snap) @ ''-'' @ vm_name vm @ ''-'' @ format_minutes (xe_now env) in
          (case xe_push env (oci_Repository oci) tag of
             Inl m \<Rightarrow> ret (Inl (''OCI push: '' @ m))
           | Inr digest \<Rightarrow>
               and_then (emit (PushOCI (oci_Repository oci) tag)) (\<lambda>_. ret (Inr \<lparr>xr_path = '''', xr_digest = digest\<rparr>))))"

definition store_artifact :: "exec_env \<Rightarrow> ImpVMSnapshot \<Rightarrow> ImpVM \<Rightarrow> string \<times> string \<Rightarrow> (string + snapExecResult) exec_io" where
  "store_artifact env snap vm sr =
     (if ss_Type (sp_Storage (sn_Spec snap)) = ''node-local'' then storeNodeLocal env snap sr
      else if ss_Type (sp_Storage (sn_Spec snap)) = ''oci-registry'' then pushOCI env snap vm sr
      else ret (Inl (''unknown storage type '' @ ss_Type (sp_Storage (sn_Spec snap)))))"

text \<open>The temporary directory is removed on every way out.\<close>

definition executeSnapshot :: "exec_env \<Rightarrow> ImpVMSnapshot \<Rightarrow> ImpVM \<Rightarrow> (string + snapExecResult) exec_io" where
  "executeSnapshot env snap vm =
     (case xe_mkdtemp env of
        Inl m \<Rightarrow> ret (Inl (''create temp dir: '' @ m))
      | Inr tmpDir \<Rightarrow>
          and_then (emit (MkdirTemp tmpDir)) (\<lambda>_.
          and_then
            (case xe_snapshot env of
               Inl m \<Rightarrow> ret (Inl (''driver snapshot: '' @ m))
             | Inr sr \<Rightarrow>
                 and_then (emit (DriverSnapshot (vm_name vm) tmpDir)) (\<lambda>_. store_artifact env snap vm sr))
            (\<lambda>r. and_then (emit (RemoveAll tmpDir)) (\<lambda>_. ret r))))"

definition exec_outcome :: "int \<Rightarrow> string + snapExecResult \<Rightarrow> ImpVMSnapshot \<Rightarrow> ImpVMSnapshot" where
  "exec_outcome now r snap =
     (case r of
        Inl m \<Rightarrow> snap_upd_status (\<lambda>s. s\<lparr>st_TerminatedAt := Some now, st_Phase := ''Failed''\<rparr>) snap
      | Inr res \<Rightarrow>
          snap_upd_status (\<lambda>s.
            let s = s\<lparr>st_TerminatedAt := Some now, st_Phase := ''Succeeded'', st_CompletedAt := Some now\<rparr> in
            if ss_Type (sp_Storage (sn_Spec snap)) = ''oci-registry'' then s\<lparr>st_Digest := xr_digest res\<rparr>
            else s\<lparr>st_SnapshotPath := xr_path res\<rparr>) snap)"

definition agent_snap_Reconcile :: "exec_env \<Rightarrow> api_error + ImpVMSnapshot \<Rightarrow> ctrl_result exec_io" where
  "agent_snap_Reconcile env read =
     (case read of
        Inl e \<Rightarrow> (case ignoreNotFound e of Inl er \<Rightarrow> fail er | Inr _ \<Rightarrow> ret no_requeue)
      | Inr snap \<Rightarrow>
          if str_get (om_Labels (sn_Meta snap)) LabelSnapshotParent = '''' \<or> snap_terminated snap then ret no_requeue
          else
            (case xe_vm env of
               Inl e \<Rightarrow>
                 if e \<noteq> NotFound then fail (Api e)
                 else and_then (send (xe_srv env) (PatchExecution snap (snap_upd_status
                   (\<lambda>s. s\<lparr>st_Phase := ''Failed'', st_TerminatedAt := Some (xe_now env)\<rparr>) snap))) (\<lambda>_. ret no_requeue)
             | Inr vm \<Rightarrow>
                 if vm_node vm \<noteq> xe_node env then ret no_requeue
                 else
                   and_then
                     (if st_Phase (sn_Status snap) \<noteq> ''Running''
                      then send (xe_srv env) (PatchExecution snap
                        (snap_upd_status (\<lambda>s. s\<lparr>st_Phase := ''Running''\<rparr>) snap))
                      else ret snap) (\<lambda>snap.
                   and_then (executeSnapshot env snap vm) (\<lambda>r.
                   and_then (send (xe_srv env) (PatchExecution snap (exec_outcome (xe_now env) r snap))) (\<lambda>_.
                     ret no_requeue)))))"


section \<open>Serial executions and retention\<close>

locale quiet_snap_api =
  fixes srv :: "(snap_effect, ImpVMSnapshot) server"
  assumes snap_status_answer: "srv tr (PatchSnapStatus b obj) = Inr r \<Longrightarrow> r = obj"
begin

lemma io_ok_snap_status:
  "P (PatchSnapStatus b obj) \<Longrightarrow> Q obj \<Longrightarrow> io_ok P Q (send srv (PatchSnapStatus b obj))"
  by (rule io_ok_send) (auto dest: snap_status_answer)

end

fun quiet_snap_server :: "(snap_effect, ImpVMSnapshot) server" where
  "quiet_snap_server tr (PatchSnapStatus b obj) = Inr obj"
| "quiet_snap_server tr (CreateSnap obj) = Inr obj"
| "quiet_snap_server tr (DeleteSnap obj) = Inr obj"

interpretation quiet_snap: quiet_snap_api quiet_snap_server
  by unfold_locales auto

text \<open>The part of a parent that its own reconciles never change.\<close>

definition same_parent :: "ImpVMSnapshot \<Rightarrow> ImpVMSnapshot \<Rightarrow> bool" where
  "same_parent snap0 snap \<longleftrightarrow> sn_Meta snap = sn_Meta snap0 \<and> sn_Spec snap = sn_Spec snap0 \<and>
     st_TerminatedAt (sn_Status snap) = st_TerminatedAt (sn_Status snap0)"

text \<open>The executions that go, and those that stay.\<close>

definition doomed :: "snap_env \<Rightarrow> ImpVMSnapshot \<Rightarrow> ImpVMSnapshot list \<Rightarrow> ImpVMSnapshot list" where
  "doomed env snap children =
     take (length children - nat (effective_retention snap)) (sort_slice (se_sort env) older children)"

definition survivors :: "snap_env \<Rightarrow> ImpVMSnapshot \<Rightarrow> ImpVMSnapshot list \<Rightarrow> ImpVMSnapshot list" where
  "survivors env snap children =
     drop (length children - nat (effective_retention snap)) (sort_slice (se_sort env) older children)"

fun snap_write :: "snap_env \<Rightarrow> ImpVMSnapshot \<Rightarrow> snap_effect \<Rightarrow> bool" where
  "snap_write env snap0 (PatchSnapStatus b obj) = same_parent snap0 obj"
| "snap_write env snap0 (CreateSnap child) =
     (str_get (om_Labels (sn_Meta child)) LabelSnapshotParent = snap_name snap0 \<and>
      om_Namespace (sn_Meta child) = om_Namespace (sn_Meta snap0) \<and>
      sn_Spec child = (sn_Spec snap0)\<lparr>sp_Schedule := ''''\<rparr> \<and> \<not> snap_terminated child \<and>
      (\<exists>children. se_children env = Inr children \<and> list_all snap_terminated children))"
| "snap_write env snap0 (DeleteSnap child) =
     (\<exists>children. se_children env = Inr children \<and> list_all snap_terminated children \<and>
        child \<in> set (doomed env snap0 children) \<and> 0 \<le> effective_retention snap0 \<and>
        (sp_BaseSnapshot (sn_Spec snap0) \<noteq> '''' \<longrightarrow> snap_name child \<noteq> sp_BaseSnapshot (sn_Spec snap0)))"

lemma same_parent_refl [simp]: "same_parent snap snap"
  by (simp add: same_parent_def)

lemma same_parent_upd:
  assumes "same_parent snap0 snap" "\<And>s. st_TerminatedAt (f s) = st_TerminatedAt s"
  shows "same_parent snap0 (snap_upd_status f snap)"
  using assms by (simp add: same_parent_def)

context quiet_snap_api
begin

lemma patch_ok:
  assumes "same_parent snap0 snap" "\<And>s. st_TerminatedAt (f s) = st_TerminatedAt s"
  shows "io_ok (snap_write env snap0) (same_parent snap0) (send srv (PatchSnapStatus b (snap_upd_status f snap)))"
  using same_parent_upd [of snap0 snap f] assms by (intro io_ok_snap_status) auto

lemma createChild_writes:
  assumes "se_srv env = srv" "same_parent snap0 snap" "se_children env = Inr children" "list_all snap_terminated children"
  shows "io_ok (snap_write env snap0) (same_parent snap0) (createChild env snap)"
proof -
  have create: "snap_write env snap0 (CreateSnap \<lparr>sn_Meta = meta, sn_Spec = (sn_Spec snap)\<lparr>sp_Schedule := ''''\<rparr>,
      sn_Status = zero_snapshot_status\<rparr>)"
    if "SetControllerReference kind (sn_Meta snap) (zero_meta\<lparr>om_Name := n, om_Namespace := om_Namespace (sn_Meta snap),
      om_Labels := [(LabelSnapshotParent, snap_name snap)]\<rparr>) = Inr meta" for kind n meta
    using SetControllerReference_sel [OF that] assms(2-4)
    by (simp add: same_parent_def str_get_def zero_snapshot_status_def)
  show ?thesis
    unfolding createChild_def Let_def assms(1)
    by (auto intro!: io_ok_fail io_ok_seq io_ok_send_any create patch_ok [OF assms(2)] split: sum.splits)
qed

lemma delete_children_writes:
  assumes "se_srv env = srv" "sn_Spec snap = sn_Spec snap0"
    and "\<And>child. child \<in> set cs \<Longrightarrow> \<exists>children. se_children env = Inr children \<and> list_all snap_terminated children \<and>
      child \<in> set (doomed env snap0 children) \<and> 0 \<le> effective_retention snap0"
  shows "io_ok (snap_write env snap0) (\<lambda>_. True) (delete_children env snap cs)"
  using assms(3)
proof (induction cs)
  case (Cons c cs)
  have IH: "io_ok (snap_write env snap0) (\<lambda>_. True) (delete_children env snap cs)" using Cons by simp
  have "io_ok (snap_write env snap0) (\<lambda>_. True) (try_send srv (DeleteSnap c))"
    if "\<not> (sp_BaseSnapshot (sn_Spec snap) \<noteq> '''' \<and> snap_name c = sp_BaseSnapshot (sn_Spec snap))"
    using that Cons.prems [of c] assms(2) by (intro io_ok_try_send) auto
  then show ?case
    using IH assms(1) by (auto intro!: io_ok_seq io_ok_fail split: option.splits)
qed (simp add: io_rules)

lemma prune_writes:
  assumes "se_srv env = srv" "same_parent snap0 snap" "se_children env = Inr children" "list_all snap_terminated children"
  shows "io_ok (snap_write env snap0) (\<lambda>_. True) (prune_children env snap children)"
proof -
  have ret: "effective_retention snap = effective_retention snap0" "sn_Spec snap = sn_Spec snap0"
    using assms(2) by (simp_all add: same_parent_def effective_retention_def)
  show ?thesis
    unfolding prune_children_def Let_def
    using assms(1,3,4) ret
    by (auto intro!: io_rules delete_children_writes simp: doomed_def)
qed

lemma executions_writes:
  assumes "se_srv env = srv" "same_parent snap0 snap" "se_children env = Inr children" "list_all snap_terminated children"
  shows "io_ok (snap_write env snap0) (\<lambda>_. True) (run_executions env snap cs)"
proof -
  note create = createChild_writes [OF assms]
  have sched: "io_ok (snap_write env snap0) (\<lambda>_. True) (run_schedule env snap sched)" for sched
    unfolding run_schedule_def Let_def assms(1)
    by (intro io_ok_then [where R = "\<lambda>(s, x). same_parent snap0 s"])
      (auto intro!: io_ok_ret io_ok_then [OF create] io_ok_seq io_ok_weaken [OF patch_ok] assms(2))
  have "io_ok (snap_write env snap0) (\<lambda>_. True) (createChild env snap)" by (rule io_ok_weaken [OF create]) auto
  then show ?thesis
    unfolding run_executions_def using sched by (auto intro!: io_ok_ret io_ok_seq split: option.splits)
qed

lemma snap_Reconcile_writes:
  assumes "se_srv env = srv"
  shows "io_ok (snap_write env snap) (\<lambda>_. True) (snap_Reconcile env (Inr snap))"
proof -
  have elect: "io_ok (snap_write env snap) (same_parent snap) (elect_base env s cs)" if "same_parent snap s" for s cs
    using that unfolding elect_base_def Let_def assms by (auto intro!: io_ok_ret patch_ok)
  have rest: "io_ok (snap_write env snap) (\<lambda>_. True) (and_then (prune_children env s children)
      (\<lambda>children. and_then (elect_base env s children) (\<lambda>s. run_executions env s children)))"
    if "same_parent snap s" "se_children env = Inr children" "list_all snap_terminated children" for s children
    using that assms by (intro io_ok_seq [OF prune_writes] io_ok_then [OF elect] executions_writes)
  show ?thesis
    unfolding snap_Reconcile_def sum.case assms
    by (auto intro!: io_ok_ret io_ok_then [where R = "same_parent snap"] patch_ok rest
        io_ok_then [OF io_ok_lift [where Q = "\<lambda>children. se_children env = Inr children"]])
qed

end


lemma older_weak: "weak_order_on A older"
  unfolding weak_order_on_def older_def using time_before_asym time_before_trans by blast

lemma doomed_older:
  assumes "slice_sort (se_sort env)" "child \<in> set (doomed env snap children)" "0 \<le> effective_retention snap"
  shows "child \<in> set children" "length (survivors env snap children) = nat (effective_retention snap)"
    "kept \<in> set (survivors env snap children) \<Longrightarrow> \<not> older kept child"
    "distinct children \<Longrightarrow> child \<notin> set (survivors env snap children)"
proof -
  let ?sorted = "sort_slice (se_sort env) older children" and ?k = "length children - nat (effective_retention snap)"
  show "child \<in> set children"
    using assms(2) set_take_subset [of ?k ?sorted] by (auto simp: doomed_def slice_sort.sort_slice_set [OF assms(1)])
  have "length (take ?k ?sorted) \<noteq> 0" using assms(2) unfolding doomed_def by force
  then show "length (survivors env snap children) = nat (effective_retention snap)"
    by (auto simp: survivors_def slice_sort.sort_slice_length [OF assms(1)])
  have split: "?sorted = take ?k ?sorted @ drop ?k ?sorted" by simp
  have "sorted_wrt (\<lambda>x y. \<not> older y x) (take ?k ?sorted @ drop ?k ?sorted)"
    using slice_sort.sort_slice_sorted [OF assms(1) older_weak] by simp
  then show "kept \<in> set (survivors env snap children) \<Longrightarrow> \<not> older kept child"
    using assms(2) unfolding sorted_wrt_append doomed_def survivors_def by blast
  have "distinct (take ?k ?sorted @ drop ?k ?sorted)" if "distinct children"
    using that by (simp add: slice_sort.sort_slice_distinct [OF assms(1)])
  then show "distinct children \<Longrightarrow> child \<notin> set (survivors env snap children)"
    using assms(2) unfolding distinct_append doomed_def survivors_def by blast
qed

text \<open>C19. Executions of a snapshot are serial and pruning is safe. The operator creates an execution
  only when every execution it listed has terminated; it deletes only terminated executions, never
  the elected base, and the executions that retention protects - as many as it says, none older than
  a deleted one - are not among them.\<close>

theorem snapshot_executions_serial:
  assumes "quiet_snap_api (se_srv env)" and "slice_sort (se_sort env)" and "se_children env = Inr children"
    and "distinct children" and "e \<in> set (snd (snap_Reconcile env (Inr snap) []))"
  shows "(\<forall>child. e = CreateSnap child \<longrightarrow> list_all snap_terminated children) \<and>
    (\<forall>child. e = DeleteSnap child \<longrightarrow> child \<in> set children \<and> snap_terminated child \<and>
       (sp_BaseSnapshot (sn_Spec snap) \<noteq> '''' \<longrightarrow> snap_name child \<noteq> sp_BaseSnapshot (sn_Spec snap)) \<and>
       length (survivors env snap children) = nat (effective_retention snap) \<and>
       (\<forall>kept\<in>set (survivors env snap children). \<not> older kept child \<and> kept \<noteq> child))"
proof -
  have "snap_write env snap e"
    using io_okD [OF quiet_snap_api.snap_Reconcile_writes [OF assms(1) refl] assms(5)] .
  then show ?thesis
  proof (cases e)
    case (DeleteSnap child)
    with \<open>snap_write env snap e\<close> assms(3) have child: "child \<in> set (doomed env snap children)"
      "0 \<le> effective_retention snap" "list_all snap_terminated children"
      "sp_BaseSnapshot (sn_Spec snap) \<noteq> '''' \<longrightarrow> snap_name child \<noteq> sp_BaseSnapshot (sn_Spec snap)"
      by auto
    note facts = doomed_older [OF assms(2) child(1,2)]
    have "snap_terminated child" using child(3) facts(1) by (simp add: list_all_iff)
    moreover have "\<forall>kept\<in>set (survivors env snap children). \<not> older kept child \<and> kept \<noteq> child"
      using facts(3) facts(4) [OF assms(4)] by blast
    ultimately show ?thesis using DeleteSnap child(4) facts(1,2) by simp
  qed (use assms(3) in auto)
qed


definition example_parent :: ImpVMSnapshot where
  "example_parent = \<lparr>sn_Meta = zero_meta\<lparr>om_Name := ''nightly'', om_Namespace := ''default''\<rparr>,
     sn_Spec = zero_snapshot_spec\<lparr>sp_SourceVMName := ''vm'', sp_Retention := 1, sp_BaseSnapshot := ''old''\<rparr>,
     sn_Status = zero_snapshot_status\<lparr>st_Phase := ''Pending''\<rparr>\<rparr>"

definition example_child :: "string \<Rightarrow> int \<Rightarrow> ImpVMSnapshot" where
  "example_child name t = \<lparr>sn_Meta = zero_meta\<lparr>om_Name := name, om_Namespace := ''default'',
       om_Labels := [(LabelSnapshotParent, ''nightly'')], om_CreationTimestamp := Some t\<rparr>,
     sn_Spec = zero_snapshot_spec\<lparr>sp_SourceVMName := ''vm'', sp_Storage := \<lparr>ss_Type = ''node-local'',
       ss_NodeLocal = None, ss_OCIRegistry = None\<rparr>\<rparr>,
     sn_Status = zero_snapshot_status\<lparr>st_Phase := ''Succeeded'', st_TerminatedAt := Some t\<rparr>\<rparr>"

definition example_snap_env :: snap_env where
  "example_snap_env = \<lparr>se_srv = quiet_snap_server,
     se_children = Inr [example_child ''c'' 30, example_child ''old'' 10, example_child ''b'' 20],
     se_children_pruned = Inr [example_child ''c'' 30, example_child ''old'' 10], se_sort = insertion_sort,
     se_cron = (\<lambda>_. None), se_clock = (\<lambda>_. 0)\<rparr>"

lemma example_snap_env_sel [simp]:
  "se_srv example_snap_env = quiet_snap_server" "se_sort example_snap_env = insertion_sort"
  "se_children example_snap_env = Inr [example_child ''c'' 30, example_child ''old'' 10, example_child ''b'' 20]"
  by (simp_all add: example_snap_env_def)

theorem snapshot_executions_serial_witness:
  "DeleteSnap (example_child ''b'' 20) \<in> set (snd (snap_Reconcile example_snap_env (Inr example_parent) [])) \<and>
   snap_terminated (example_child ''b'' 20) \<and>
   length (survivors example_snap_env example_parent
     [example_child ''c'' 30, example_child ''old'' 10, example_child ''b'' 20]) = 1"
proof -
  have e: "DeleteSnap (example_child ''b'' 20) \<in> set (snd (snap_Reconcile example_snap_env (Inr example_parent) []))"
    by code_simp
  have dist: "distinct [example_child ''c'' 30, example_child ''old'' 10, example_child ''b'' 20]"
    by (simp add: example_child_def zero_meta_def)
  have "effective_retention example_parent = 1" by (simp add: effective_retention_def example_parent_def)
  then show ?thesis
    using snapshot_executions_serial [OF _ _ _ dist e] e quiet_snap.quiet_snap_api_axioms go_sort.slice_sort_axioms by simp
qed

section \<open>Executions terminate\<close>

locale quiet_exec_api =
  fixes srv :: "(exec_effect, ImpVMSnapshot) server"
  assumes exec_answer: "srv tr (PatchExecution b obj) = Inr obj"

fun quiet_exec_server :: "(exec_effect, ImpVMSnapshot) server" where
  "quiet_exec_server tr (PatchExecution b obj) = Inr obj"
| "quiet_exec_server tr e = Inl NotFound"

interpretation quiet_exec: quiet_exec_api quiet_exec_server
  by unfold_locales simp

text \<open>An effect of the execution itself, before its cleanup.\<close>

fun work_effect :: "exec_env \<Rightarrow> exec_effect \<Rightarrow> bool" where
  "work_effect env (PatchExecution b obj) = False"
| "work_effect env (RemoveAll d) = False"
| "work_effect env (MkdirTemp d) = (xe_mkdtemp env = Inr d)"
| "work_effect env e = True"

lemma move_files_run:
  "\<exists>r new. move_files env d srcs tr = (Inr r, tr @ new) \<and> list_all (work_effect env) new"
proof (induction srcs arbitrary: tr)
  case (Cons src srcs)
  then show ?case
  proof (cases "xe_rename env src (path_join [d, path_base src])")
    case None
    obtain r new where "move_files env d srcs (tr @ [Rename src (path_join [d, path_base src])]) =
        (Inr r, (tr @ [Rename src (path_join [d, path_base src])]) @ new)" "list_all (work_effect env) new"
      using Cons.IH by blast
    then show ?thesis using None by (auto simp: io_run)
  qed (auto simp: io_run)
qed (auto simp: io_run)

lemma store_artifact_run:
  "\<exists>r new. store_artifact env snap vm sr tr = (Inr r, tr @ new) \<and> list_all (work_effect env) new"
proof -
  have "\<exists>r new. storeNodeLocal env snap sr tr = (Inr r, tr @ new) \<and> list_all (work_effect env) new"
  proof -
    define d where "d = path_join [(case ss_NodeLocal (sp_Storage (sn_Spec snap)) of
            None \<Rightarrow> ''/var/lib/imp/snapshots''
          | Some nl \<Rightarrow> if nl_Path nl \<noteq> '''' then nl_Path nl else ''/var/lib/imp/snapshots''), om_Namespace (sn_Meta snap),
            str_get (om_Labels (sn_Meta snap)) LabelSnapshotParent, snap_name snap]"
    obtain r new where "move_files env d [fst sr, snd sr] (tr @ [MkdirAll d]) = (Inr r, (tr @ [MkdirAll d]) @ new)"
      "list_all (work_effect env) new" using move_files_run by blast
    then show ?thesis
      unfolding storeNodeLocal_def Let_def d_def [symmetric] by (cases "xe_mkdir env d") (auto simp: io_run)
  qed
  then show ?thesis
    by (auto simp: store_artifact_def pushOCI_def Let_def io_run split: option.splits sum.splits)
qed

lemma executeSnapshot_run:
  "\<exists>r new. executeSnapshot env snap vm tr = (Inr r, tr @ new) \<and>
     (new = [] \<or> (\<exists>d work. xe_mkdtemp env = Inr d \<and> new = work @ [RemoveAll d] \<and> list_all (work_effect env) work))"
proof (cases "xe_mkdtemp env")
  case (Inr d)
  then show ?thesis
  proof (cases "xe_snapshot env")
    case (Inr sr)
    obtain r new where "store_artifact env snap vm sr (tr @ [MkdirTemp d, DriverSnapshot (vm_name vm) d]) =
        (Inr r, (tr @ [MkdirTemp d, DriverSnapshot (vm_name vm) d]) @ new)" "list_all (work_effect env) new"
      using store_artifact_run by blast
    then show ?thesis using Inr \<open>xe_mkdtemp env = Inr d\<close> by (auto simp: executeSnapshot_def io_run)
  qed (auto simp: executeSnapshot_def io_run)
qed (auto simp: executeSnapshot_def io_run)


text \<open>The run of a reconcile that owns the execution: an optional transition to Running, the work and
  its cleanup, and the outcome.\<close>

lemma agent_run:
  assumes srv: "quiet_exec_api (xe_srv env)"
    and child: "str_get (om_Labels (sn_Meta snap)) LabelSnapshotParent \<noteq> ''''" "\<not> snap_terminated snap"
    and vm: "xe_vm env = Inr vm" "vm_node vm = xe_node env"
  shows "\<exists>snap' r pre work. agent_snap_Reconcile env (Inr snap) [] =
      (Inr no_requeue, (pre @ work) @ [PatchExecution snap' (exec_outcome (xe_now env) r snap')]) \<and>
    (pre = [] \<or> pre = [PatchExecution snap snap']) \<and> sn_Meta snap' = sn_Meta snap \<and> sn_Spec snap' = sn_Spec snap \<and>
    (work = [] \<or> (\<exists>d w. xe_mkdtemp env = Inr d \<and> work = w @ [RemoveAll d] \<and> list_all (work_effect env) w))"
proof -
  note answer = quiet_exec_api.exec_answer [OF srv]
  define snap' where "snap' = (if st_Phase (sn_Status snap) \<noteq> ''Running''
    then snap_upd_status (\<lambda>s. s\<lparr>st_Phase := ''Running''\<rparr>) snap else snap)"
  define pre where "pre = (if st_Phase (sn_Status snap) \<noteq> ''Running'' then [PatchExecution snap snap'] else [])"
  obtain r work where work: "executeSnapshot env snap' vm pre = (Inr r, pre @ work)"
    "work = [] \<or> (\<exists>d w. xe_mkdtemp env = Inr d \<and> work = w @ [RemoveAll d] \<and> list_all (work_effect env) w)"
    using executeSnapshot_run by blast
  have "agent_snap_Reconcile env (Inr snap) [] =
      (Inr no_requeue, (pre @ work) @ [PatchExecution snap' (exec_outcome (xe_now env) r snap')])"
    using child vm work(1)
    by (auto simp: agent_snap_Reconcile_def io_run answer pre_def snap'_def)
  moreover have "pre = [] \<or> pre = [PatchExecution snap snap']" by (simp add: pre_def)
  moreover have "sn_Meta snap' = sn_Meta snap" "sn_Spec snap' = sn_Spec snap" by (simp_all add: snap'_def)
  ultimately show ?thesis using work(2) by blast
qed



definition example_exec :: ImpVMSnapshot where
  "example_exec = snap_upd_status (\<lambda>s. s\<lparr>st_Phase := '''', st_TerminatedAt := None\<rparr>) (example_child ''c'' 30)"

definition example_exec_env :: exec_env where
  "example_exec_env = \<lparr>xe_node = ''n1'', xe_srv = quiet_exec_server, xe_vm = Inr (set_node ''n1'' zero_vm),
     xe_mkdtemp = Inr ''/tmp/imp-snapshot-1'', xe_snapshot = Inr (''/tmp/imp-snapshot-1/state'', ''/tmp/imp-snapshot-1/mem''),
     xe_mkdir = (\<lambda>_. None), xe_rename = (\<lambda>_ _. None), xe_push = (\<lambda>_ _. Inl ''''), xe_now = 40\<rparr>"


end
