(* ===== verification/Migration.thy ===== *)
theory Migration
  imports Snapshots
begin

text \<open>
  Migration of a VM to another node (impvmmigration\_controller.go): choice of the target, a snapshot of
  the source, a VM on the target node restored from it, and the removal of the source; and the
  migrations that a drained node triggers. The phases form a state machine. The reads of the API
  server are parameters.
\<close>

section \<open>Objects\<close>

record ImpVMMigrationSpec =
  ms_SourceVMName :: string
  ms_SourceVMNamespace :: string
  ms_TargetNode :: string

record ImpVMMigrationStatus =
  mt_Phase :: string
  mt_Message :: string
  mt_SelectedNode :: string
  mt_SnapshotRef :: string
  mt_TargetVMName :: string
  mt_CompletedAt :: "int option"
  mt_Conditions :: "condition list"

record ImpVMMigration =
  mg_Meta :: object_meta
  mg_Spec :: ImpVMMigrationSpec
  mg_Status :: ImpVMMigrationStatus

definition zero_migration_status :: ImpVMMigrationStatus where
  "zero_migration_status = \<lparr>mt_Phase = '''', mt_Message = '''', mt_SelectedNode = '''', mt_SnapshotRef = '''',
     mt_TargetVMName = '''', mt_CompletedAt = None, mt_Conditions = []\<rparr>"

definition mig_upd :: "(ImpVMMigrationStatus \<Rightarrow> ImpVMMigrationStatus) \<Rightarrow> ImpVMMigration \<Rightarrow> ImpVMMigration" where
  "mig_upd f mig = mig\<lparr>mg_Status := f (mg_Status mig)\<rparr>"

lemma mig_upd_sel [simp]:
  "mg_Meta (mig_upd f mig) = mg_Meta mig" "mg_Spec (mig_upd f mig) = mg_Spec mig"
  "mg_Status (mig_upd f mig) = f (mg_Status mig)"
  by (simp_all add: mig_upd_def)

abbreviation mig_phase :: "ImpVMMigration \<Rightarrow> string" where
  "mig_phase mig \<equiv> mt_Phase (mg_Status mig)"

datatype mig_effect =
    PatchMig ImpVMMigration ImpVMMigration
  | CreateMigSnapshot ImpVMSnapshot
  | CreateTargetVM ImpVM
  | DeleteSourceVM ImpVM
  | CreateMigration ImpVMMigration

type_synonym 'a mig_io = "(mig_effect, 'a) io"

text \<open>Reads: a VM by namespace and name, a snapshot by namespace and name, a node profile by name, the
  list of profiles with their names, a node, and the list of all VMs.\<close>

record mig_env =
  me_srv :: "(mig_effect, ImpVMMigration) server"
  me_now :: int
  me_vm :: "string \<Rightarrow> string \<Rightarrow> api_error + ImpVM"
  me_snap :: "string \<Rightarrow> string \<Rightarrow> api_error + ImpVMSnapshot"
  me_profile :: "string \<Rightarrow> api_error + ClusterImpNodeProfileSpec"
  me_profiles :: "api_error + (string \<times> ClusterImpNodeProfileSpec) list"
  me_node :: "string \<Rightarrow> api_error + node"
  me_vms :: "api_error + ImpVM list"

section \<open>The handlers\<close>

definition failMigration :: "mig_env \<Rightarrow> ImpVMMigration \<Rightarrow> string \<Rightarrow> ctrl_result mig_io" where
  "failMigration env mig msg =
     and_then (send (me_srv env) (PatchMig mig (mig_upd (\<lambda>s. s\<lparr>mt_Phase := ''Failed'', mt_Message := msg,
       mt_CompletedAt := Some (me_now env)\<rparr>) mig))) (\<lambda>_. ret no_requeue)"

definition selectMigrationTarget :: "mig_env \<Rightarrow> ImpVM \<Rightarrow> api_error + string" where
  "selectMigrationTarget env vm =
     (if vm_node vm = '''' then Inr ''''
      else case me_profile env (vm_node vm) of
        Inl e \<Rightarrow> Inr ''''
      | Inr source \<Rightarrow>
          (case me_profiles env of
             Inl e \<Rightarrow> Inl e
           | Inr profiles \<Rightarrow>
               (case find (\<lambda>p. fst p \<noteq> vm_node vm \<and> (np_CPUModel source = '''' \<or> np_CPUModel (snd p) = np_CPUModel source)) profiles of
                  None \<Rightarrow> Inr ''''
                | Some p \<Rightarrow> Inr (fst p))))"

definition handleEmpty :: "mig_env \<Rightarrow> ImpVMMigration \<Rightarrow> ctrl_result mig_io" where
  "handleEmpty env mig =
     and_then (send (me_srv env) (PatchMig mig (mig_upd (\<lambda>s. s\<lparr>mt_Phase := ''Pending''\<rparr>) mig)))
       (\<lambda>_. ret requeue_now)"

text \<open>The snapshot of the source, as the migration creates it.\<close>

definition migration_snapshot :: "ImpVMMigration \<Rightarrow> object_meta \<Rightarrow> ImpVMSnapshot" where
  "migration_snapshot mig meta = \<lparr>sn_Meta = meta,
     sn_Spec = zero_snapshot_spec\<lparr>sp_SourceVMName := ms_SourceVMName (mg_Spec mig),
       sp_SourceVMNamespace := ms_SourceVMNamespace (mg_Spec mig),
       sp_Storage := \<lparr>ss_Type = ''node-local'', ss_NodeLocal = None, ss_OCIRegistry = None\<rparr>\<rparr>,
     sn_Status = zero_snapshot_status\<rparr>"

definition begin_snapshot :: "mig_env \<Rightarrow> ImpVMMigration \<Rightarrow> ctrl_result mig_io" where
  "begin_snapshot env mig =
     (let meta = zero_meta\<lparr>om_Namespace := om_Namespace (mg_Meta mig), om_Name := ''mig-'' @ om_Name (mg_Meta mig)\<rparr> in
      case SetControllerReference ''ImpVMMigration'' (mg_Meta mig) meta of
        Inl e \<Rightarrow> fail e
      | Inr meta \<Rightarrow>
          and_then (send_ignoring (\<lambda>e. e = AlreadyExists) (me_srv env) (CreateMigSnapshot (migration_snapshot mig meta))) (\<lambda>_.
              and_then (send (me_srv env) (PatchMig mig (mig_upd (\<lambda>s. s\<lparr>mt_Phase := ''Snapshotting'',
                mt_SnapshotRef := ''mig-'' @ om_Name (mg_Meta mig)\<rparr>) mig))) (\<lambda>_. ret no_requeue)))"

definition select_node :: "mig_env \<Rightarrow> ImpVMMigration \<Rightarrow> string \<Rightarrow> ImpVMMigration mig_io" where
  "select_node env mig n =
     send (me_srv env) (PatchMig mig (mig_upd (\<lambda>s. s\<lparr>mt_SelectedNode := n\<rparr>) mig))"

definition handlePending :: "mig_env \<Rightarrow> ImpVMMigration \<Rightarrow> ctrl_result mig_io" where
  "handlePending env mig =
     (case me_vm env (ms_SourceVMNamespace (mg_Spec mig)) (ms_SourceVMName (mg_Spec mig)) of
        Inl e \<Rightarrow> if e = NotFound then failMigration env mig ''source VM not found'' else fail (Api e)
      | Inr vm \<Rightarrow>
          if mt_SelectedNode (mg_Status mig) \<noteq> '''' then begin_snapshot env mig
          else if ms_TargetNode (mg_Spec mig) \<noteq> '''' then
            and_then (select_node env mig (ms_TargetNode (mg_Spec mig))) (begin_snapshot env)
          else
            (case selectMigrationTarget env vm of
               Inl e \<Rightarrow> fail (Api e)
             | Inr selected \<Rightarrow>
                 if selected = '''' then
                   if vm_node vm = '''' then ret (requeue_after (seconds 10))
                   else failMigration env mig ''no CPU-compatible node available (NoCPUCompatibleNode)''
                 else and_then (select_node env mig selected) (begin_snapshot env)))"

definition createTargetVM :: "mig_env \<Rightarrow> ImpVMMigration \<Rightarrow> string \<Rightarrow> ctrl_result mig_io" where
  "createTargetVM env mig executionRef =
     (case me_vm env (ms_SourceVMNamespace (mg_Spec mig)) (ms_SourceVMName (mg_Spec mig)) of
        Inl e \<Rightarrow>
          if e = NotFound then failMigration env mig ''source VM disappeared before target could be created''
          else fail (Api e)
      | Inr srcVM \<Rightarrow>
          let name = ''mig-'' @ om_Name (mg_Meta mig) @ ''-target'';
              meta = zero_meta\<lparr>om_Namespace := vm_namespace srcVM, om_Name := name\<rparr> in
          (case SetControllerReference ''ImpVMMigration'' (mg_Meta mig) meta of
             Inl e \<Rightarrow> fail e
           | Inr meta \<Rightarrow>
               and_then (send_ignoring (\<lambda>e. e = AlreadyExists) (me_srv env) (CreateTargetVM \<lparr>vm_Meta = meta,
                   vm_Spec = (vm_Spec srcVM)\<lparr>vs_NodeName := mt_SelectedNode (mg_Status mig), vs_SnapshotRef := executionRef\<rparr>,
                   vm_Status = zero_vm_status\<rparr>)) (\<lambda>_.
                   and_then (send (me_srv env) (PatchMig mig (mig_upd (\<lambda>s. s\<lparr>mt_Phase := ''Restoring'',
                     mt_TargetVMName := name\<rparr>) mig))) (\<lambda>_. ret no_requeue))))"

definition handleSnapshotting :: "mig_env \<Rightarrow> ImpVMMigration \<Rightarrow> ctrl_result mig_io" where
  "handleSnapshotting env mig =
     (if mt_SnapshotRef (mg_Status mig) = '''' then
        failMigration env mig ''internal error: Snapshotting phase without SnapshotRef''
      else case me_snap env (om_Namespace (mg_Meta mig)) (mt_SnapshotRef (mg_Status mig)) of
        Inl e \<Rightarrow> if e = NotFound then ret (requeue_after (seconds 10)) else fail (Api e)
      | Inr snap \<Rightarrow>
          if \<not> snap_terminated snap then ret (requeue_after (seconds 10))
          else if st_Phase (sn_Status snap) \<noteq> ''Succeeded'' then
            failMigration env mig (''snapshot failed: phase='' @ st_Phase (sn_Status snap))
          else
            let executionRef = (case st_LastExecutionRef (sn_Status snap) of Some r \<Rightarrow> r | None \<Rightarrow> snap_name snap) in
            createTargetVM env mig executionRef)"

definition succeed_migration :: "mig_env \<Rightarrow> ImpVMMigration \<Rightarrow> ctrl_result mig_io" where
  "succeed_migration env mig =
     and_then (send (me_srv env) (PatchMig mig (mig_upd (\<lambda>s. s\<lparr>mt_Phase := ''Succeeded'',
       mt_CompletedAt := Some (me_now env)\<rparr>) mig))) (\<lambda>_. ret no_requeue)"

definition handleRestoring :: "mig_env \<Rightarrow> ImpVMMigration \<Rightarrow> ctrl_result mig_io" where
  "handleRestoring env mig =
     (case me_vm env (ms_SourceVMNamespace (mg_Spec mig)) (mt_TargetVMName (mg_Status mig)) of
        Inl e \<Rightarrow> if e = NotFound then ret (requeue_after (seconds 10)) else fail (Api e)
      | Inr targetVM \<Rightarrow>
          if vm_phase targetVM \<noteq> VMPhaseRunning then ret (requeue_after (seconds 10))
          else
            (case me_vm env (ms_SourceVMNamespace (mg_Spec mig)) (ms_SourceVMName (mg_Spec mig)) of
               Inr srcVM \<Rightarrow>
                 and_then (send_ignoring (\<lambda>e. e = NotFound) (me_srv env) (DeleteSourceVM srcVM)) (\<lambda>_. succeed_migration env mig)
             | Inl e \<Rightarrow> if e \<noteq> NotFound then fail (Api e) else succeed_migration env mig))"

definition mig_Reconcile :: "mig_env \<Rightarrow> api_error + ImpVMMigration \<Rightarrow> ctrl_result mig_io" where
  "mig_Reconcile env read =
     (case read of
        Inl e \<Rightarrow> (case ignoreNotFound e of Inl er \<Rightarrow> fail er | Inr _ \<Rightarrow> ret no_requeue)
      | Inr mig \<Rightarrow>
          if mig_phase mig = '''' then handleEmpty env mig
          else if mig_phase mig = ''Pending'' then handlePending env mig
          else if mig_phase mig = ''Snapshotting'' then handleSnapshotting env mig
          else if mig_phase mig = ''Restoring'' then handleRestoring env mig
          else ret no_requeue)"

text \<open>The errors of the drain mapper are logged; its list of requests is always empty.\<close>

definition drain_migration :: "ImpVM \<Rightarrow> ImpVMMigration" where
  "drain_migration vm = \<lparr>mg_Meta = zero_meta\<lparr>om_Name := ''drain-'' @ vm_name vm, om_Namespace := vm_namespace vm\<rparr>,
     mg_Spec = \<lparr>ms_SourceVMName = vm_name vm, ms_SourceVMNamespace = vm_namespace vm, ms_TargetNode = ''''\<rparr>,
     mg_Status = zero_migration_status\<rparr>"

definition nodeDrainMapper :: "mig_env \<Rightarrow> string \<Rightarrow> unit mig_io" where
  "nodeDrainMapper env name =
     (case me_node env name of
        Inl e \<Rightarrow> ret ()
      | Inr k8sNode \<Rightarrow>
          if \<not> list_ex (\<lambda>t. ta_Key t = ''node.kubernetes.io/unschedulable'') (nd_Taints k8sNode) then ret ()
          else
            (case me_vms env of
               Inl e \<Rightarrow> ret ()
             | Inr vms \<Rightarrow>
                 for_each (\<lambda>vm. and_then (try_send (me_srv env) (CreateMigration (drain_migration vm))) (\<lambda>_. ret ()))
                   (filter (\<lambda>vm. vm_node vm = name) vms)))"

section \<open>The phases\<close>

locale quiet_mig_api =
  fixes srv :: "(mig_effect, ImpVMMigration) server"
  assumes mig_answer: "srv tr (PatchMig b obj) = Inr r \<Longrightarrow> r = obj"
begin

lemma io_ok_mig_patch:
  "P (PatchMig b obj) \<Longrightarrow> Q obj \<Longrightarrow> io_ok P Q (send srv (PatchMig b obj))"
  by (rule io_ok_send) (auto dest: mig_answer)

end

fun quiet_mig_server :: "(mig_effect, ImpVMMigration) server" where
  "quiet_mig_server tr (PatchMig b obj) = Inr obj"
| "quiet_mig_server tr e = Inr \<lparr>mg_Meta = zero_meta, mg_Spec = \<lparr>ms_SourceVMName = '''', ms_SourceVMNamespace = '''',
     ms_TargetNode = ''''\<rparr>, mg_Status = zero_migration_status\<rparr>"

interpretation quiet_mig: quiet_mig_api quiet_mig_server
  by unfold_locales auto

text \<open>What each phase says of the status.\<close>

definition mig_wf :: "ImpVMMigration \<Rightarrow> bool" where
  "mig_wf mig \<longleftrightarrow>
     (let s = mg_Status mig in
      mt_Phase s \<in> set ['''', ''Pending'', ''Snapshotting'', ''Restoring'', ''Succeeded'', ''Failed''] \<and>
      (mt_Phase s = '''' \<longrightarrow> mt_SelectedNode s = '''') \<and>
      (mt_Phase s \<in> set ['''', ''Pending''] \<longrightarrow> mt_SnapshotRef s = '''') \<and>
      (mt_Phase s \<in> set ['''', ''Pending'', ''Snapshotting''] \<longrightarrow> mt_TargetVMName s = '''') \<and>
      (mt_Phase s \<in> set [''Snapshotting'', ''Restoring'', ''Succeeded''] \<longrightarrow>
         mt_SelectedNode s \<noteq> '''' \<and> mt_SnapshotRef s = ''mig-'' @ om_Name (mg_Meta mig)) \<and>
      (mt_Phase s \<in> set [''Restoring'', ''Succeeded''] \<longrightarrow>
         mt_TargetVMName s = ''mig-'' @ om_Name (mg_Meta mig) @ ''-target'') \<and>
      (mt_CompletedAt s \<noteq> None \<longleftrightarrow> mt_Phase s \<in> set [''Succeeded'', ''Failed'']) \<and>
      (mt_Message s \<noteq> '''' \<longleftrightarrow> mt_Phase s = ''Failed''))"

definition mig_rank :: "ImpVMMigration \<Rightarrow> nat" where
  "mig_rank mig =
     (let s = mg_Status mig in
      if mt_Phase s = '''' then 0
      else if mt_Phase s = ''Pending'' then (if mt_SelectedNode s = '''' then 1 else 2)
      else if mt_Phase s = ''Snapshotting'' then 3
      else if mt_Phase s = ''Restoring'' then 4
      else 5)"

definition mig_advances :: "ImpVMMigration \<Rightarrow> ImpVMMigration \<Rightarrow> bool" where
  "mig_advances mig mig' \<longleftrightarrow> mig_wf mig' \<and> mig_rank mig < mig_rank mig' \<and>
     mg_Meta mig' = mg_Meta mig \<and> mg_Spec mig' = mg_Spec mig"

fun mig_write :: "mig_env \<Rightarrow> ImpVMMigration \<Rightarrow> mig_effect \<Rightarrow> bool" where
  "mig_write env mig (PatchMig b m) = mig_advances mig m"
| "mig_write env mig (CreateMigSnapshot snap) =
     (mig_phase mig = ''Pending'' \<and> (\<exists>meta. snap = migration_snapshot mig meta \<and> om_Labels meta = [] \<and>
        om_Name meta = ''mig-'' @ om_Name (mg_Meta mig) \<and> om_Namespace meta = om_Namespace (mg_Meta mig)))"
| "mig_write env mig (CreateTargetVM vm) =
     (mig_phase mig = ''Snapshotting'' \<and>
      (\<exists>snap. me_snap env (om_Namespace (mg_Meta mig)) (mt_SnapshotRef (mg_Status mig)) = Inr snap \<and>
         snap_terminated snap \<and> st_Phase (sn_Status snap) = ''Succeeded'' \<and>
         vs_SnapshotRef (vm_Spec vm) = (case st_LastExecutionRef (sn_Status snap) of Some r \<Rightarrow> r | None \<Rightarrow> snap_name snap)) \<and>
      (\<exists>src. me_vm env (ms_SourceVMNamespace (mg_Spec mig)) (ms_SourceVMName (mg_Spec mig)) = Inr src \<and>
         vm_Spec vm = (vm_Spec src)\<lparr>vs_NodeName := mt_SelectedNode (mg_Status mig), vs_SnapshotRef := vs_SnapshotRef (vm_Spec vm)\<rparr> \<and>
         vm_namespace vm = vm_namespace src))"
| "mig_write env mig (DeleteSourceVM src) =
     (mig_phase mig = ''Restoring'' \<and>
      me_vm env (ms_SourceVMNamespace (mg_Spec mig)) (ms_SourceVMName (mg_Spec mig)) = Inr src \<and>
      (\<exists>t. me_vm env (ms_SourceVMNamespace (mg_Spec mig)) (mt_TargetVMName (mg_Status mig)) = Inr t \<and>
         vm_phase t = VMPhaseRunning))"
| "mig_write env mig (CreateMigration m) = False"

context quiet_mig_api
begin

lemma failMigration_writes:
  assumes "me_srv env = srv" "mig_wf mig" "mig_phase mig \<in> set [''Pending'', ''Snapshotting'']" "msg \<noteq> ''''"
  shows "io_ok (mig_write env mig) (\<lambda>_. True) (failMigration env mig msg)"
proof -
  have "mig_advances mig (mig_upd (\<lambda>s. s\<lparr>mt_Phase := ''Failed'', mt_Message := msg, mt_CompletedAt := Some (me_now env)\<rparr>) mig)"
    using assms(2-4) by (auto simp: mig_advances_def mig_wf_def mig_rank_def Let_def)
  then show ?thesis
    unfolding failMigration_def by (auto intro!: io_ok_seq io_ok_send_any io_ok_ret)
qed

lemma begin_snapshot_writes:
  assumes "me_srv env = srv" "mig_wf mig" "mig_phase mig = ''Pending''"
    and "mig1 = mig \<and> mt_SelectedNode (mg_Status mig) \<noteq> '''' \<or>
      (\<exists>n. n \<noteq> '''' \<and> mig1 = mig_upd (\<lambda>s. s\<lparr>mt_SelectedNode := n\<rparr>) mig)"
  shows "io_ok (mig_write env mig) (\<lambda>_. True) (begin_snapshot env mig1)"
proof -
  have same: "mg_Meta mig1 = mg_Meta mig" "mg_Spec mig1 = mg_Spec mig" using assms(4) by auto
  have "mig_advances mig (mig_upd (\<lambda>s. s\<lparr>mt_Phase := ''Snapshotting'', mt_SnapshotRef := ''mig-'' @ om_Name (mg_Meta mig)\<rparr>) mig1)"
    using assms(2-4) by (auto simp: mig_advances_def mig_wf_def mig_rank_def Let_def)
  moreover have "mig_write env mig (CreateMigSnapshot (migration_snapshot mig1 meta))"
    if "SetControllerReference ''ImpVMMigration'' (mg_Meta mig) (zero_meta\<lparr>om_Namespace := om_Namespace (mg_Meta mig),
      om_Name := ''mig-'' @ om_Name (mg_Meta mig)\<rparr>) = Inr meta" for meta
    using SetControllerReference_sel [OF that] assms(3) same
    by (auto simp: migration_snapshot_def zero_meta_def intro!: exI [of _ meta])
  ultimately show ?thesis
    unfolding begin_snapshot_def Let_def same
    by (auto intro!: io_ok_seq io_ok_send_any io_ok_send_ignoring io_ok_ret io_ok_fail split: sum.splits)
qed

lemma select_node_then:
  assumes "me_srv env = srv" "mig_wf mig" "mig_phase mig = ''Pending''" "mt_SelectedNode (mg_Status mig) = ''''" "n \<noteq> ''''"
  shows "io_ok (mig_write env mig) (\<lambda>_. True) (and_then (select_node env mig n) (begin_snapshot env))"
proof -
  let ?mig1 = "mig_upd (\<lambda>s. s\<lparr>mt_SelectedNode := n\<rparr>) mig"
  have "mig_advances mig ?mig1"
    using assms(2-5) by (auto simp: mig_advances_def mig_wf_def mig_rank_def Let_def)
  then have "io_ok (mig_write env mig) (\<lambda>m. m = ?mig1) (select_node env mig n)"
    unfolding select_node_def assms(1) by (intro io_ok_mig_patch) auto
  then show ?thesis
    using begin_snapshot_writes [OF assms(1-3)] assms(5) by (auto intro: io_ok_then)
qed

lemma handlePending_writes:
  assumes "me_srv env = srv" "mig_wf mig" "mig_phase mig = ''Pending''"
  shows "io_ok (mig_write env mig) (\<lambda>_. True) (handlePending env mig)"
  unfolding handlePending_def using assms(3)
  by (auto intro!: failMigration_writes [OF assms(1,2)] begin_snapshot_writes [OF assms] select_node_then [OF assms]
      io_ok_ret io_ok_fail split: sum.splits)

lemma createTargetVM_writes:
  assumes "me_srv env = srv" "mig_wf mig" "mig_phase mig = ''Snapshotting''"
    and "me_snap env (om_Namespace (mg_Meta mig)) (mt_SnapshotRef (mg_Status mig)) = Inr snap"
    and "snap_terminated snap" "st_Phase (sn_Status snap) = ''Succeeded''"
    and "ref = (case st_LastExecutionRef (sn_Status snap) of Some r \<Rightarrow> r | None \<Rightarrow> snap_name snap)"
  shows "io_ok (mig_write env mig) (\<lambda>_. True) (createTargetVM env mig ref)"
proof -
  have "mig_advances mig (mig_upd (\<lambda>s. s\<lparr>mt_Phase := ''Restoring'',
      mt_TargetVMName := ''mig-'' @ om_Name (mg_Meta mig) @ ''-target''\<rparr>) mig)"
    using assms(2,3) by (auto simp: mig_advances_def mig_wf_def mig_rank_def Let_def)
  then show ?thesis
    unfolding createTargetVM_def Let_def using assms(3-7)
    by (auto intro!: io_ok_seq io_ok_send_any io_ok_send_ignoring io_ok_ret io_ok_fail failMigration_writes [OF assms(1,2)]
        dest: SetControllerReference_sel(2) split: sum.splits)
qed

lemma handleSnapshotting_writes:
  assumes "me_srv env = srv" "mig_wf mig" "mig_phase mig = ''Snapshotting''"
  shows "io_ok (mig_write env mig) (\<lambda>_. True) (handleSnapshotting env mig)"
  unfolding handleSnapshotting_def Let_def using assms(3)
  by (auto intro!: failMigration_writes [OF assms(1,2)] createTargetVM_writes [OF assms] io_ok_ret io_ok_fail split: sum.splits)

lemma handleRestoring_writes:
  assumes "me_srv env = srv" "mig_wf mig" "mig_phase mig = ''Restoring''"
  shows "io_ok (mig_write env mig) (\<lambda>_. True) (handleRestoring env mig)"
proof -
  have "mig_advances mig (mig_upd (\<lambda>s. s\<lparr>mt_Phase := ''Succeeded'', mt_CompletedAt := Some (me_now env)\<rparr>) mig)"
    using assms(2,3) by (auto simp: mig_advances_def mig_wf_def mig_rank_def Let_def)
  then show ?thesis
    unfolding handleRestoring_def succeed_migration_def using assms(3)
    by (auto intro!: io_ok_seq io_ok_send_any io_ok_send_ignoring io_ok_ret io_ok_fail split: sum.splits)
qed

lemma mig_Reconcile_writes:
  assumes "me_srv env = srv" "mig_wf mig"
  shows "io_ok (mig_write env mig) (\<lambda>_. True) (mig_Reconcile env (Inr mig))"
proof -
  have "mig_advances mig (mig_upd (\<lambda>s. s\<lparr>mt_Phase := ''Pending''\<rparr>) mig)" if "mig_phase mig = ''''"
    using that assms(2) by (auto simp: mig_advances_def mig_wf_def mig_rank_def Let_def)
  then show ?thesis
    unfolding mig_Reconcile_def handleEmpty_def
    by (auto intro!: io_ok_seq io_ok_send_any io_ok_ret handlePending_writes [OF assms]
        handleSnapshotting_writes [OF assms] handleRestoring_writes [OF assms])
qed

end


text \<open>A reconcile of the stored migration, and its next stored version.\<close>

inductive mig_step :: "ImpVMMigration \<Rightarrow> ImpVMMigration \<Rightarrow> bool" where
  "quiet_mig_api (me_srv env) \<Longrightarrow> PatchMig b mig' \<in> set (snd (mig_Reconcile env (Inr mig) [])) \<Longrightarrow> mig_step mig mig'"

inductive_cases mig_stepE: "mig_step mig mig'"

lemma mig_step_advances:
  assumes "mig_step mig mig'" "mig_wf mig"
  shows "mig_advances mig mig'"
proof -
  obtain env b where env: "quiet_mig_api (me_srv env)" and e: "PatchMig b mig' \<in> set (snd (mig_Reconcile env (Inr mig) []))"
    using assms(1) by (rule mig_stepE)
  show ?thesis
    using io_okD [OF quiet_mig_api.mig_Reconcile_writes [OF env refl assms(2)] e] by simp
qed

lemma mig_steps_advance:
  "(mig_step ^^ n) mig mig' \<Longrightarrow> mig_wf mig \<Longrightarrow>
     mig_wf mig' \<and> mig_rank mig + n \<le> mig_rank mig' \<and> mg_Meta mig' = mg_Meta mig \<and> mg_Spec mig' = mg_Spec mig"
proof (induction n arbitrary: mig')
  case (Suc n)
  from Suc.prems(1) obtain m where m: "(mig_step ^^ n) mig m" "mig_step m mig'" by auto
  then show ?case
    using Suc.IH [OF m(1) Suc.prems(2)] mig_step_advances [OF m(2)] by (auto simp: mig_advances_def)
qed simp

text \<open>C21. The status of a migration is well typed in every phase, whatever the reads return: from a new
  migration, every version that reconciles write has a known phase with the fields that phase needs
  (node and snapshot from Snapshotting on, target from Restoring on, completion time exactly in the
  terminal phases, message exactly in Failed), the identity and the specification are kept, and there
  are at most five writes: the phases only move forward.\<close>

theorem migration_phases:
  assumes "mg_Status mig = zero_migration_status" and "(mig_step ^^ n) mig mig'"
  shows "mig_wf mig' \<and> n \<le> 5 \<and> mg_Meta mig' = mg_Meta mig \<and> mg_Spec mig' = mg_Spec mig"
proof -
  have "mig_wf mig" using assms(1) by (simp add: mig_wf_def zero_migration_status_def Let_def)
  moreover have "mig_rank mig' \<le> 5" by (simp add: mig_rank_def Let_def)
  ultimately show ?thesis using mig_steps_advance [OF assms(2)] by auto
qed

definition example_source :: ImpVM where
  "example_source = \<lparr>vm_Meta = zero_meta\<lparr>om_Name := ''vm'', om_Namespace := ''default''\<rparr>,
     vm_Spec = zero_vm_spec\<lparr>vs_NodeName := ''n1''\<rparr>, vm_Status = zero_vm_status\<lparr>vt_Phase := VMPhaseRunning\<rparr>\<rparr>"

definition example_migration :: ImpVMMigration where
  "example_migration = \<lparr>mg_Meta = zero_meta\<lparr>om_Name := ''m'', om_Namespace := ''default''\<rparr>,
     mg_Spec = \<lparr>ms_SourceVMName = ''vm'', ms_SourceVMNamespace = ''default'', ms_TargetNode = ''''\<rparr>,
     mg_Status = zero_migration_status\<rparr>"

definition example_profile :: ClusterImpNodeProfileSpec where
  "example_profile = \<lparr>np_CapacityFraction = '''', np_MaxImpVMs = 0, np_VCPUCapacity = 0, np_MemoryMiB = 0,
     np_CPUModel = ''zen4'', np_VTEPIP = '''', np_LANBindings = []\<rparr>"

definition example_mig_env :: mig_env where
  "example_mig_env = \<lparr>me_srv = quiet_mig_server, me_now = 7, me_vm = (\<lambda>ns n. Inr example_source),
     me_snap = (\<lambda>ns n. Inl NotFound), me_profile = (\<lambda>n. Inr example_profile),
     me_profiles = Inr [(''n1'', example_profile), (''n2'', example_profile)], me_node = (\<lambda>n. Inl NotFound), me_vms = Inr []\<rparr>"

definition example_pending :: ImpVMMigration where
  "example_pending = mig_upd (\<lambda>s. s\<lparr>mt_Phase := ''Pending''\<rparr>) example_migration"

definition example_snapshotting :: ImpVMMigration where
  "example_snapshotting = mig_upd (\<lambda>s. s\<lparr>mt_Phase := ''Snapshotting'', mt_SelectedNode := ''n2'', mt_SnapshotRef := ''mig-m''\<rparr>)
     example_migration"

lemma example_mig_srv [simp]: "me_srv example_mig_env = quiet_mig_server"
  by (simp add: example_mig_env_def)

lemma example_mig_steps: "(mig_step ^^ 2) example_migration example_snapshotting"
proof -
  have env: "quiet_mig_api (me_srv example_mig_env)" using quiet_mig.quiet_mig_api_axioms by simp
  have "PatchMig example_migration example_pending \<in> set (snd (mig_Reconcile example_mig_env (Inr example_migration) []))"
    by code_simp
  then have 1: "mig_step example_migration example_pending" by (rule mig_step.intros [OF env])
  have "PatchMig (mig_upd (\<lambda>s. s\<lparr>mt_SelectedNode := ''n2''\<rparr>) example_pending) example_snapshotting
      \<in> set (snd (mig_Reconcile example_mig_env (Inr example_pending) []))"
    by code_simp
  then have 2: "mig_step example_pending example_snapshotting" by (rule mig_step.intros [OF env])
  show ?thesis using 1 2 by (auto simp: numeral_2_eq_2)
qed

theorem migration_phases_witness:
  "mig_wf example_snapshotting \<and> mig_phase example_snapshotting = ''Snapshotting'' \<and>
   mg_Meta example_snapshotting = mg_Meta example_migration"
  using migration_phases [OF _ example_mig_steps]
  by (simp add: example_migration_def) (simp add: example_snapshotting_def)


definition example_restoring :: ImpVMMigration where
  "example_restoring = mig_upd (\<lambda>s. s\<lparr>mt_Phase := ''Restoring'', mt_TargetVMName := ''mig-m-target''\<rparr>) example_snapshotting"


section \<open>The snapshot of a migration\<close>

text \<open>The versions of a snapshot that the operator and the agents store.\<close>

inductive snap_step :: "ImpVMSnapshot \<Rightarrow> ImpVMSnapshot \<Rightarrow> bool" where
  operator: "quiet_snap_api (se_srv env) \<Longrightarrow> PatchSnapStatus b s' \<in> set (snd (snap_Reconcile env (Inr s) [])) \<Longrightarrow>
     snap_step s s'"
| agent: "PatchExecution b s' \<in> set (snd (agent_snap_Reconcile xenv (Inr s) [])) \<Longrightarrow> snap_step s s'"

lemma snap_step_same_parent:
  assumes "snap_step s s'" "str_get (om_Labels (sn_Meta s)) LabelSnapshotParent = ''''"
  shows "same_parent s s'"
  using assms(1)
proof cases
  case (operator env b)
  then show ?thesis using io_okD [OF quiet_snap_api.snap_Reconcile_writes [OF operator(1) refl] operator(2)] by simp
next
  case (agent b xenv)
  then show ?thesis using assms(2) by (simp add: agent_snap_Reconcile_def ret_def)
qed

lemma snap_steps_same_parent:
  "snap_step\<^sup>*\<^sup>* s s' \<Longrightarrow> str_get (om_Labels (sn_Meta s)) LabelSnapshotParent = '''' \<Longrightarrow> same_parent s s'"
proof (induction rule: rtranclp_induct)
  case (step y z)
  then show ?case using snap_step_same_parent [of y z] by (simp add: same_parent_def)
qed simp

text \<open>C23. A migration never gets past Snapshotting: the snapshot it creates is a parent, whose completion
  time neither the operator nor an agent ever sets, so every later reconcile only waits and writes
  nothing.\<close>

theorem migration_waits_forever:
  assumes "quiet_mig_api (me_srv env0)" and "mig_wf mig0"
    and "CreateMigSnapshot s \<in> set (snd (mig_Reconcile env0 (Inr mig0) []))" and "snap_step\<^sup>*\<^sup>* s s'"
    and "mig_phase mig = ''Snapshotting''" and "mt_SnapshotRef (mg_Status mig) = snap_name s" and "snap_name s \<noteq> ''''"
    and "me_snap env (om_Namespace (mg_Meta mig)) (snap_name s) = Inr s'"
  shows "mig_Reconcile env (Inr mig) [] = (Inr (requeue_after (seconds 10)), [])"
proof -
  obtain meta where s: "s = migration_snapshot mig0 meta" "om_Labels meta = []"
    using io_okD [OF quiet_mig_api.mig_Reconcile_writes [OF assms(1) refl assms(2)] assms(3)] by auto
  then have "same_parent s s'"
    using snap_steps_same_parent [OF assms(4)] by (simp add: migration_snapshot_def str_get_def)
  then have "\<not> snap_terminated s'"
    using s by (simp add: same_parent_def migration_snapshot_def zero_snapshot_status_def)
  then show ?thesis
    using assms(5-8) by (simp add: mig_Reconcile_def handleSnapshotting_def ret_def)
qed

definition example_mig_snapshot :: ImpVMSnapshot where
  "example_mig_snapshot = migration_snapshot example_pending (zero_meta\<lparr>om_Name := ''mig-m'', om_Namespace := ''default'',
     om_OwnerReferences := [\<lparr>or_Kind = ''ImpVMMigration'', or_Name = ''m'', or_UID = '''', or_Controller = Some True\<rparr>]\<rparr>)"

theorem migration_waits_forever_witness:
  "mig_Reconcile (example_mig_env\<lparr>me_snap := \<lambda>ns n. Inr example_mig_snapshot\<rparr>) (Inr example_snapshotting) [] =
     (Inr (requeue_after (seconds 10)), [])"
proof -
  have e: "CreateMigSnapshot example_mig_snapshot \<in> set (snd (mig_Reconcile example_mig_env (Inr example_pending) []))"
    by code_simp
  have wf: "mig_wf example_pending" by code_simp
  have mig: "mig_phase example_snapshotting = ''Snapshotting''"
      "mt_SnapshotRef (mg_Status example_snapshotting) = snap_name example_mig_snapshot" "snap_name example_mig_snapshot \<noteq> ''''"
    by code_simp+
  show ?thesis
    using migration_waits_forever [OF _ wf e rtranclp.rtrancl_refl mig] quiet_mig.quiet_mig_api_axioms by simp
qed

end
