(* ===== verification/Warm_Pool.thy ===== *)
theory Warm_Pool
  imports Snapshots
begin

text \<open>
  Pools of pre-booted VMs (impwarmpool\_controller.go): the controller counts the members of a pool and
  creates the missing ones from the elected base snapshot. The reads of the API server are
  parameters; counts are 32-bit integers.
\<close>

section \<open>Objects\<close>

record ImpWarmPoolSpec =
  wp_SnapshotRef :: string
  wp_Size :: int
  wp_TemplateName :: string
  wp_ExpireAfter :: "int option"

record ImpWarmPoolStatus =
  wt_ReadyCount :: int
  wt_Conditions :: "condition list"

record ImpWarmPool =
  wa_Meta :: object_meta
  wa_Spec :: ImpWarmPoolSpec
  wa_Status :: ImpWarmPoolStatus

datatype pool_effect =
    CreateMember ImpVM
  | PatchPoolStatus ImpWarmPool ImpWarmPool

type_synonym 'a pool_io = "(pool_effect, 'a) io"

text \<open>Reads: the snapshot and the template that the pool names, in the namespace of the pool, and the
  VMs there that carry the label of the pool.\<close>

record pool_env =
  we_srv :: "(pool_effect, unit) server"
  we_snap :: "api_error + ImpVMSnapshot"
  we_template :: "api_error + ImpVMTemplateSpec"
  we_vms :: "api_error + ImpVM list"

section \<open>The controller\<close>

fun count_members :: "ImpVM list \<Rightarrow> int \<Rightarrow> int \<Rightarrow> int \<times> int" where
  "count_members [] readyCount activeCount = (readyCount, activeCount)"
| "count_members (vm # vms) readyCount activeCount =
     (if vm_phase vm = VMPhaseRunning then count_members vms (wrap32 (readyCount + 1)) (wrap32 (activeCount + 1))
      else if vm_phase vm \<in> {VMPhaseFailed, VMPhaseRetryExhausted, VMPhaseSucceeded} then count_members vms readyCount activeCount
      else count_members vms readyCount (wrap32 (activeCount + 1)))"

definition pool_member :: "ImpWarmPool \<Rightarrow> ImpVMTemplateSpec \<Rightarrow> string \<Rightarrow> ImpVM" where
  "pool_member pool tpl baseSnapshot =
     \<lparr>vm_Meta = zero_meta\<lparr>om_GenerateName := om_Name (wa_Meta pool) @ ''-'', om_Namespace := om_Namespace (wa_Meta pool),
        om_Labels := [(LabelWarmPool, om_Name (wa_Meta pool))]\<rparr>,
      vm_Spec = zero_vm_spec\<lparr>vs_ClassRef := Some (ts_ClassRef tpl), vs_Image := ts_Image tpl, vs_SnapshotRef := baseSnapshot,
        vs_NetworkRef := ts_NetworkRef tpl, vs_RestartPolicy := ts_RestartPolicy tpl, vs_Probes := ts_Probes tpl,
        vs_GuestAgent := ts_GuestAgent tpl, vs_NetworkGroup := ts_NetworkGroup tpl,
        vs_ExpireAfter := (case wp_ExpireAfter (wa_Spec pool) of Some d \<Rightarrow> Some d | None \<Rightarrow> ts_ExpireAfter tpl)\<rparr>,
      vm_Status = zero_vm_status\<rparr>"

definition createPoolMember :: "pool_env \<Rightarrow> ImpWarmPool \<Rightarrow> ImpVMTemplateSpec \<Rightarrow> string \<Rightarrow> unit pool_io" where
  "createPoolMember env pool tpl baseSnapshot =
     (let vm = pool_member pool tpl baseSnapshot in
      case SetControllerReference ''ImpWarmPool'' (wa_Meta pool) (vm_Meta vm) of
        Inl e \<Rightarrow> fail e
      | Inr meta \<Rightarrow> send (we_srv env) (CreateMember (vm\<lparr>vm_Meta := meta\<rparr>)))"

fun create_members :: "pool_env \<Rightarrow> ImpWarmPool \<Rightarrow> ImpVMTemplateSpec \<Rightarrow> string \<Rightarrow> nat \<Rightarrow> unit pool_io" where
  "create_members env pool tpl baseSnapshot 0 = ret ()"
| "create_members env pool tpl baseSnapshot (Suc n) =
     and_then (createPoolMember env pool tpl baseSnapshot) (\<lambda>_. create_members env pool tpl baseSnapshot n)"

definition to_create :: "ImpWarmPool \<Rightarrow> int \<Rightarrow> int" where
  "to_create pool activeCount =
     (let toCreate = wrap32 (wp_Size (wa_Spec pool) - activeCount) in if toCreate < 0 then 0 else toCreate)"

definition pool_Reconcile :: "pool_env \<Rightarrow> api_error + ImpWarmPool \<Rightarrow> ctrl_result pool_io" where
  "pool_Reconcile env read =
     (case read of
        Inl e \<Rightarrow> (case ignoreNotFound e of Inl er \<Rightarrow> fail er | Inr _ \<Rightarrow> ret no_requeue)
      | Inr pool \<Rightarrow>
          (case we_snap env of
             Inl e \<Rightarrow> if e = NotFound then ret (requeue_after (seconds 30)) else fail (Api e)
           | Inr snap \<Rightarrow>
               let baseSnapshot = st_BaseSnapshot (sn_Status snap) in
               if baseSnapshot = '''' then ret (requeue_after (seconds 30))
               else
                 (case we_template env of
                    Inl e \<Rightarrow> if e = NotFound then ret (requeue_after (seconds 30)) else fail (Api e)
                  | Inr tpl \<Rightarrow>
                      and_then (lift (we_vms env)) (\<lambda>vms.
                        let (readyCount, activeCount) = count_members vms 0 0 in
                        and_then (create_members env pool tpl baseSnapshot (nat (to_create pool activeCount))) (\<lambda>_.
                        and_then (send (we_srv env) (PatchPoolStatus pool
                          (pool\<lparr>wa_Status := (wa_Status pool)\<lparr>wt_ReadyCount := readyCount\<rparr>\<rparr>))) (\<lambda>_.
                          ret (requeue_after (seconds 30))))))))"

section \<open>Convergence\<close>

definition running_vms :: "ImpVM list \<Rightarrow> nat" where
  "running_vms vms = length (filter (\<lambda>vm. vm_phase vm = VMPhaseRunning) vms)"

definition active_vms :: "ImpVM list \<Rightarrow> nat" where
  "active_vms vms = length (filter (\<lambda>vm. vm_phase vm \<notin> {VMPhaseFailed, VMPhaseRetryExhausted, VMPhaseSucceeded}) vms)"

lemma running_le_active: "running_vms vms \<le> active_vms vms"
  unfolding running_vms_def active_vms_def by (induction vms) auto

lemma active_le_length: "active_vms vms \<le> length vms"
  by (simp add: active_vms_def)

lemma count_members_eq:
  assumes "0 \<le> r" "r + int (length vms) < 2 ^ 31" "0 \<le> a" "a + int (length vms) < 2 ^ 31"
  shows "count_members vms r a = (r + int (running_vms vms), a + int (active_vms vms))"
  using assms
proof (induction vms arbitrary: r a)
  case (Cons vm vms)
  have "wrap32 (r + 1) = r + 1" "wrap32 (a + 1) = a + 1" using Cons.prems by (auto intro!: wrap32_id)
  then show ?case
    using Cons.IH [of "r + 1" "a + 1"] Cons.IH [of r a] Cons.IH [of r "a + 1"] Cons.prems
    by (auto simp: running_vms_def active_vms_def)
qed (simp add: running_vms_def active_vms_def)

lemma count_members_exact:
  "length vms < 2 ^ 31 \<Longrightarrow> count_members vms 0 0 = (int (running_vms vms), int (active_vms vms))"
  using count_members_eq [of 0 vms 0] by simp

lemma to_create_eq:
  assumes "0 \<le> wp_Size (wa_Spec pool)" "wp_Size (wa_Spec pool) < 2 ^ 31" "a < 2 ^ 31"
  shows "nat (to_create pool (int a)) = nat (wp_Size (wa_Spec pool)) - a"
proof -
  have "wrap32 (wp_Size (wa_Spec pool) - int a) = wp_Size (wa_Spec pool) - int a"
    using assms by (intro wrap32_id) auto
  then show ?thesis using assms(1) by (auto simp: to_create_def nat_diff_distrib)
qed

lemma create_members_run:
  assumes "accepting (we_srv env)"
    and "SetControllerReference ''ImpWarmPool'' (wa_Meta pool) (vm_Meta (pool_member pool tpl b)) = Inr meta"
  shows "create_members env pool tpl b n tr =
     (Inr (), tr @ replicate n (CreateMember ((pool_member pool tpl b)\<lparr>vm_Meta := meta\<rparr>)))"
proof (induction n arbitrary: tr)
  case (Suc n)
  then show ?case
    using assms by (simp add: createPoolMember_def accepting_unit io_run replicate_append_same)
qed (simp add: io_run)


definition example_pool :: ImpWarmPool where
  "example_pool = \<lparr>wa_Meta = zero_meta\<lparr>om_Name := ''p'', om_Namespace := ''default''\<rparr>,
     wa_Spec = \<lparr>wp_SnapshotRef = ''nightly'', wp_Size = 2, wp_TemplateName = ''t'', wp_ExpireAfter = None\<rparr>,
     wa_Status = \<lparr>wt_ReadyCount = 0, wt_Conditions = []\<rparr>\<rparr>"

definition example_pool_template :: ImpVMTemplateSpec where
  "example_pool_template = \<lparr>ts_ClassRef = ''small'', ts_NetworkRef = None, ts_Image = ''img'', ts_Probes = None, ts_GuestAgent = None,
     ts_RestartPolicy = None, ts_NetworkGroup = '''', ts_RunnerLayer = '''', ts_CiliumLayer = '''', ts_ExpireAfter = None\<rparr>"

definition example_pool_env :: pool_env where
  "example_pool_env = \<lparr>we_srv = (\<lambda>_ _. Inr ()),
     we_snap = Inr (snap_upd_status (\<lambda>s. s\<lparr>st_BaseSnapshot := ''c''\<rparr>) example_parent), we_template = Inr example_pool_template,
     we_vms = Inr [upd_status (\<lambda>s. s\<lparr>vt_Phase := VMPhaseFailed\<rparr>) zero_vm, upd_status (\<lambda>s. s\<lparr>vt_Phase := VMPhaseRunning\<rparr>) zero_vm]\<rparr>"


end
