(* ===== verification/Pressure.thy ===== *)
theory Pressure
  imports Scheduler
begin

text \<open>
  The pressure lifecycle controller (pressure\_controller.go): on every imp node under memory pressure
  one running VM is suspended. Reads are parameters; the VMs are listed once per node of the sweep.
\<close>

section \<open>The controller\<close>

definition annotationPressureSuspended :: string where
  "annotationPressureSuspended = ''imp.dev/pressure-suspended''"

definition annotationPressureRestore :: string where
  "annotationPressureRestore = ''imp.dev/pressure-restore-state''"

definition pressureRequeueInterval :: int where
  "pressureRequeueInterval = seconds 30"

text \<open>The text of the event is formatted from the node and the name and namespace of the VM; the event
  has these instead.\<close>

datatype pressure_effect =
    PatchVictim ImpVM ImpVM
  | SuspendedEvent string string string
  | CountSuspension string

type_synonym 'a pressure_io = "(pressure_effect, 'a) io"

record pressure_env =
  pe_srv :: "(pressure_effect, ImpVM) server"
  pe_vms :: "string \<Rightarrow> api_error + ImpVM list"
  pe_client :: vm_client
  pe_sort :: sorter
  pe_recorder :: bool
  pe_meter :: bool

definition nodeHasMemoryPressure :: "node \<Rightarrow> bool" where
  "nodeHasMemoryPressure nd = list_ex (\<lambda>c. c = (NodeMemoryPressure, ConditionTrue)) (nd_Conditions nd)"

definition isSafePressureVictim :: "ImpVM \<Rightarrow> bool" where
  "isSafePressureVictim vm =
     (vm_phase vm = VMPhaseRunning \<and> vs_DesiredState (vm_Spec vm) = VMDesiredStateRunning \<and>
      \<not> has_key (om_Annotations (vm_Meta vm)) annotationPressureSuspended \<and>
      \<not> list_ex (has_key (om_Annotations (vm_Meta vm))) [''imp.dev/snapshot-in-progress'', ''imp.dev/migration-in-progress''])"

text \<open>A candidate with the memory of its class, zero when the class cannot be read, and whether it is a
  member of a warm pool.\<close>

record scored =
  sc_vm :: ImpVM
  sc_memMiB :: int
  sc_warm :: bool

definition score :: "vm_client \<Rightarrow> ImpVM \<Rightarrow> scored" where
  "score cl vm = \<lparr>sc_vm = vm,
     sc_memMiB = (case resolveClassSpec cl vm of Inl _ \<Rightarrow> 0 | Inr spec \<Rightarrow> cs_MemoryMiB spec),
     sc_warm = has_key (om_Labels (vm_Meta vm)) LabelWarmPool\<rparr>"

definition candidates :: "vm_client \<Rightarrow> string \<Rightarrow> ImpVM list \<Rightarrow> scored list" where
  "candidates cl nodeName vms = map (score cl) (filter (\<lambda>vm. \<not> (vm_node vm \<noteq> nodeName \<or> \<not> isSafePressureVictim vm)) vms)"

definition victim_before :: "scored \<Rightarrow> scored \<Rightarrow> bool" where
  "victim_before a b =
     (if sc_warm a \<noteq> sc_warm b then \<not> sc_warm a
      else if sc_memMiB a \<noteq> sc_memMiB b then sc_memMiB a > sc_memMiB b
      else time_before (om_CreationTimestamp (vm_Meta (sc_vm a))) (om_CreationTimestamp (vm_Meta (sc_vm b))))"

definition electVictim :: "pressure_env \<Rightarrow> string \<Rightarrow> api_error + ImpVM option" where
  "electVictim env nodeName =
     (case pe_vms env nodeName of
        Inl e \<Rightarrow> Inl e
      | Inr vms \<Rightarrow>
          let cands = candidates (pe_client env) nodeName vms in
          Inr (if cands = [] then None else Some (sc_vm (sort_slice (pe_sort env) victim_before cands ! 0))))"

definition suspended :: "ImpVM \<Rightarrow> ImpVM" where
  "suspended vm =
     upd_spec (\<lambda>s. s\<lparr>vs_DesiredState := VMDesiredStateSuspended\<rparr>)
       (set_annotation annotationPressureSuspended ''from-running''
         (set_annotation annotationPressureRestore ''Running'' vm))"

definition suspendVictim :: "pressure_env \<Rightarrow> string \<Rightarrow> ImpVM \<Rightarrow> unit pressure_io" where
  "suspendVictim env nodeName vm =
     and_then (send (pe_srv env) (PatchVictim vm (suspended vm))) (\<lambda>vm.
     and_then (when_io (pe_recorder env) (emit (SuspendedEvent nodeName (vm_name vm) (vm_namespace vm)))) (\<lambda>_.
       when_io (pe_meter env) (emit (CountSuspension nodeName))))"

fun sweep_nodes :: "pressure_env \<Rightarrow> node list \<Rightarrow> bool \<Rightarrow> bool pressure_io" where
  "sweep_nodes env [] act = ret act"
| "sweep_nodes env (nd # nds) act =
     (if \<not> nodeHasMemoryPressure nd then sweep_nodes env nds act
      else and_then (lift (electVictim env (nd_Name nd))) (\<lambda>victim.
        case victim of
          None \<Rightarrow> sweep_nodes env nds act
        | Some vm \<Rightarrow> and_then (suspendVictim env (nd_Name nd) vm) (\<lambda>_. sweep_nodes env nds True)))"

definition pressure_Reconcile :: "pressure_env \<Rightarrow> ctrl_result pressure_io" where
  "pressure_Reconcile env =
     and_then (lift (cl_nodes (pe_client env) [(labelImpEnabled, ''true'')])) (\<lambda>nodes.
     and_then (sweep_nodes env nodes False) (\<lambda>act.
       ret (if act then requeue_after pressureRequeueInterval else no_requeue)))"

section \<open>One safe victim per node\<close>

lemma victim_before_weak: "weak_order_on A victim_before"
  unfolding weak_order_on_def victim_before_def
  by (auto split: if_splits dest: time_before_asym time_before_trans)

text \<open>A VM that the policy may choose on a node: safe, and no other safe VM of the node goes first.\<close>

definition best_victim :: "pressure_env \<Rightarrow> string \<Rightarrow> ImpVM \<Rightarrow> bool" where
  "best_victim env n vm \<longleftrightarrow>
     (\<exists>vms. pe_vms env n = Inr vms \<and> vm \<in> set vms \<and> vm_node vm = n \<and> vm_phase vm = VMPhaseRunning \<and>
        vs_DesiredState (vm_Spec vm) = VMDesiredStateRunning \<and>
        (\<forall>a\<in>{annotationPressureSuspended, ''imp.dev/snapshot-in-progress'', ''imp.dev/migration-in-progress''}.
           \<not> has_key (om_Annotations (vm_Meta vm)) a) \<and>
        (\<forall>w\<in>set vms. vm_node w = n \<and> isSafePressureVictim w \<longrightarrow>
           \<not> victim_before (score (pe_client env) w) (score (pe_client env) vm)))"

definition has_victim :: "pressure_env \<Rightarrow> string \<Rightarrow> bool" where
  "has_victim env n \<longleftrightarrow> (\<exists>vms. pe_vms env n = Inr vms \<and> list_ex (\<lambda>vm. vm_node vm = n \<and> isSafePressureVictim vm) vms)"

lemma electVictim_best:
  assumes "slice_sort (pe_sort env)" and "pe_vms env n = Inr vms"
  shows "(\<exists>vm. electVictim env n = Inr (Some vm) \<and> best_victim env n vm \<and> has_victim env n) \<or>
    electVictim env n = Inr None \<and> \<not> has_victim env n"
proof (cases "candidates (pe_client env) n vms = []")
  case True
  then show ?thesis
    using assms(2) by (auto simp: electVictim_def has_victim_def candidates_def filter_empty_conv list_ex_iff)
next
  case False
  let ?cands = "candidates (pe_client env) n vms" and ?sorted = "sort_slice (pe_sort env) victim_before (candidates (pe_client env) n vms)"
  note hd = slice_sort.sort_slice_hd [OF assms(1) victim_before_weak False]
  have first: "?sorted ! 0 = hd ?sorted"
    using slice_sort.sort_slice_Nil [OF assms(1), of victim_before ?cands] False by (simp add: hd_conv_nth)
  obtain vm where vm: "hd ?sorted = score (pe_client env) vm" "vm \<in> set vms" "vm_node vm = n" "isSafePressureVictim vm"
    using hd(1) by (auto simp: candidates_def)
  then have "sc_vm (?sorted ! 0) = vm" using first by (simp add: score_def)
  then have "electVictim env n = Inr (Some vm)" using False assms(2) by (simp add: electVictim_def)
  moreover have "best_victim env n vm"
    using vm assms(2) hd(2) by (force simp: best_victim_def candidates_def isSafePressureVictim_def)
  moreover have "has_victim env n"
    using vm(2-4) assms(2) by (auto simp: has_victim_def list_ex_iff)
  ultimately show ?thesis by blast
qed

lemma suspended_not_safe: "\<not> isSafePressureVictim (suspended vm)"
  by (simp add: isSafePressureVictim_def suspended_def)

fun is_suspension :: "pressure_effect \<Rightarrow> bool" where
  "is_suspension (PatchVictim b v) = True"
| "is_suspension e = False"

definition to_relieve :: "pressure_env \<Rightarrow> node list \<Rightarrow> string list" where
  "to_relieve env nodes = map nd_Name (filter (\<lambda>nd. nodeHasMemoryPressure nd \<and> has_victim env (nd_Name nd)) nodes)"

lemma suspendVictim_run:
  assumes "accepting (pe_srv env)"
  shows "\<exists>new. suspendVictim env n vm tr = (Inr (), tr @ new) \<and>
    filter is_suspension new = [PatchVictim vm (suspended vm)]"
proof -
  obtain r where "pe_srv env tr (PatchVictim vm (suspended vm)) = Inr r"
    using assms unfolding accepting_def by blast
  then show ?thesis by (auto simp: suspendVictim_def io_run)
qed

lemma sweep_run:
  assumes "slice_sort (pe_sort env)" "accepting (pe_srv env)" "\<And>nd. nd \<in> set nodes \<Longrightarrow> \<exists>vms. pe_vms env (nd_Name nd) = Inr vms"
  shows "\<exists>new victims. sweep_nodes env nodes act tr = (Inr (act \<or> victims \<noteq> []), tr @ new) \<and>
    filter is_suspension new = map (\<lambda>vm. PatchVictim vm (suspended vm)) victims \<and>
    list_all2 (best_victim env) (to_relieve env nodes) victims"
  using assms(3)
proof (induction nodes arbitrary: act tr)
  case (Cons nd nodes)
  have IH: "\<exists>new victims. sweep_nodes env nodes act tr = (Inr (act \<or> victims \<noteq> []), tr @ new) \<and>
      filter is_suspension new = map (\<lambda>vm. PatchVictim vm (suspended vm)) victims \<and>
      list_all2 (best_victim env) (to_relieve env nodes) victims" for act tr
    using Cons by simp
  obtain vms where vms: "pe_vms env (nd_Name nd) = Inr vms" using Cons.prems [of nd] by auto
  consider (skip) "\<not> nodeHasMemoryPressure nd \<or> electVictim env (nd_Name nd) = Inr None \<and> \<not> has_victim env (nd_Name nd)"
    | (victim) vm where "nodeHasMemoryPressure nd" "electVictim env (nd_Name nd) = Inr (Some vm)"
        "best_victim env (nd_Name nd) vm" "has_victim env (nd_Name nd)"
    using electVictim_best [OF assms(1) vms] by blast
  then show ?case
  proof cases
    case skip
    then show ?thesis using IH [of act tr] by (auto simp: io_run to_relieve_def)
  next
    case (victim vm)
    obtain new where new: "suspendVictim env (nd_Name nd) vm tr = (Inr (), tr @ new)"
        "filter is_suspension new = [PatchVictim vm (suspended vm)]"
      using suspendVictim_run [OF assms(2)] by blast
    obtain new2 victims where rest: "sweep_nodes env nodes True (tr @ new) = (Inr True, tr @ new @ new2)"
        "filter is_suspension new2 = map (\<lambda>vm. PatchVictim vm (suspended vm)) victims"
        "list_all2 (best_victim env) (to_relieve env nodes) victims"
      using IH [of True "tr @ new"] by auto
    show ?thesis
      using victim new rest by (intro exI [of _ "new @ new2"] exI [of _ "vm # victims"]) (simp add: io_run to_relieve_def)
  qed
qed (simp add: io_run to_relieve_def)



definition example_victim :: "string \<Rightarrow> int \<Rightarrow> ImpVM" where
  "example_victim n t = \<lparr>vm_Meta = zero_meta\<lparr>om_Name := n, om_CreationTimestamp := Some t\<rparr>,
     vm_Spec = zero_vm_spec\<lparr>vs_NodeName := ''n1'', vs_DesiredState := VMDesiredStateRunning\<rparr>,
     vm_Status = zero_vm_status\<lparr>vt_Phase := VMPhaseRunning\<rparr>\<rparr>"

definition example_pressure_env :: pressure_env where
  "example_pressure_env = \<lparr>pe_srv = (\<lambda>_ _. Inr zero_vm), pe_vms = (\<lambda>_. Inr [example_victim ''a'' 5, example_victim ''b'' 3]),
     pe_client = example_client\<lparr>cl_nodes := \<lambda>_. Inr [(example_node ''n1'')\<lparr>nd_Conditions := [(NodeMemoryPressure, ConditionTrue)]\<rparr>]\<rparr>,
     pe_sort = insertion_sort, pe_recorder = False, pe_meter = False\<rparr>"


end
