(* ===== verification/Scale_To_Zero.thy ===== *)
theory Scale_To_Zero
  imports ImpVM_Base Net_Addr
begin

text \<open>
  Scale to zero on a node (scaletozero.go): the registry of suspended VMs that wait for a packet, and the
  detector of idle traffic. Mutexes make every operation atomic, so a history is a sequence of
  operations; the channel of wake events is a bounded queue whose other end the controller reads.
  The byte counters of interfaces and the packets are inputs.
\<close>

section \<open>The wake registry\<close>

type_synonym nn = "string \<times> string"

definition object_key :: "ImpVM \<Rightarrow> nn" where
  "object_key vm = (vm_namespace vm, vm_name vm)"

record wakeRegistry =
  wr_keyByIP :: "string \<rightharpoonup> nn"
  wr_ipByKey :: "nn \<rightharpoonup> string"
  wr_objByKey :: "nn \<rightharpoonup> ImpVM"
  wr_signalled :: "nn \<rightharpoonup> bool"
  wr_events :: "ImpVM list"
  wr_capacity :: nat

definition newWakeRegistry :: "int \<Rightarrow> wakeRegistry" where
  "newWakeRegistry bufSize =
     \<lparr>wr_keyByIP = Map.empty, wr_ipByKey = Map.empty, wr_objByKey = Map.empty, wr_signalled = Map.empty,
      wr_events = [], wr_capacity = nat (if bufSize \<le> 0 then 1024 else bufSize)\<rparr>"

definition register :: "string \<Rightarrow> ImpVM \<Rightarrow> wakeRegistry \<Rightarrow> wakeRegistry" where
  "register ip vm w =
     (let key = object_key vm;
          w = (case wr_ipByKey w key of Some old \<Rightarrow> w\<lparr>wr_keyByIP := (wr_keyByIP w)(old := None)\<rparr> | None \<Rightarrow> w) in
      w\<lparr>wr_keyByIP := (wr_keyByIP w)(ip \<mapsto> key), wr_ipByKey := (wr_ipByKey w)(key \<mapsto> ip),
        wr_objByKey := (wr_objByKey w)(key \<mapsto> vm)\<rparr>)"

definition signalled :: "wakeRegistry \<Rightarrow> nn \<Rightarrow> bool" where
  "signalled w key = (case wr_signalled w key of Some b \<Rightarrow> b | None \<Rightarrow> False)"

text \<open>The object is nil for a key without one; a registered key always has one.\<close>

definition onDstIP :: "string \<Rightarrow> wakeRegistry \<Rightarrow> wakeRegistry" where
  "onDstIP ip w =
     (case wr_keyByIP w ip of
        None \<Rightarrow> w
      | Some key \<Rightarrow>
          if signalled w key then w
          else if length (wr_events w) < wr_capacity w then
            w\<lparr>wr_events := wr_events w @ [case wr_objByKey w key of Some obj \<Rightarrow> obj | None \<Rightarrow> zero_vm],
              wr_signalled := (wr_signalled w)(key \<mapsto> True)\<rparr>
          else w)"

definition wake_pending :: "nn \<Rightarrow> wakeRegistry \<Rightarrow> bool" where
  "wake_pending key w = signalled w key"

definition clear_key :: "nn \<Rightarrow> wakeRegistry \<Rightarrow> wakeRegistry" where
  "clear_key key w =
     (let w = (case wr_ipByKey w key of Some ip \<Rightarrow> w\<lparr>wr_keyByIP := (wr_keyByIP w)(ip := None)\<rparr> | None \<Rightarrow> w) in
      w\<lparr>wr_ipByKey := (wr_ipByKey w)(key := None), wr_objByKey := (wr_objByKey w)(key := None),
        wr_signalled := (wr_signalled w)(key := None)\<rparr>)"

text \<open>The address a captured frame reports: the destination of an IPv4 packet behind the 14 bytes of the
  Ethernet header; bytes are numbers below 256.\<close>

definition ethTypeIPv4 :: nat where
  "ethTypeIPv4 = 2048"

definition frame_dst :: "nat list \<Rightarrow> string option" where
  "frame_dst buf =
     (if length buf < 34 then None
      else if buf ! 12 * 256 + buf ! 13 \<noteq> ethTypeIPv4 then None
      else Some (ip_string (of_octets (buf ! 30) (buf ! 31) (buf ! 32) (buf ! 33))))"

section \<open>The idle detector\<close>

record idleSample =
  is_bytes :: int
  is_since :: int

type_synonym samples = "nn \<rightharpoonup> idleSample"

definition defaultIdleTimeout :: int where
  "defaultIdleTimeout = seconds 300"

text \<open>A new sample is stored when the counter changed; the answer has the idle flag and the time of the
  last activity.\<close>

definition observe :: "string + int \<Rightarrow> nn \<Rightarrow> int \<Rightarrow> int \<Rightarrow> samples \<Rightarrow> (string + bool \<times> int) \<times> samples" where
  "observe stats key idleTimeout now samples =
     (case stats of
        Inl e \<Rightarrow> (Inl e, samples)
      | Inr b \<Rightarrow>
          (case samples key of
             None \<Rightarrow> (Inr (False, now), samples(key \<mapsto> \<lparr>is_bytes = b, is_since = now\<rparr>))
           | Some prev \<Rightarrow>
               if b \<noteq> is_bytes prev then (Inr (False, now), samples(key \<mapsto> \<lparr>is_bytes = b, is_since = now\<rparr>))
               else (Inr (idleTimeout \<le> time_sub now (is_since prev), is_since prev), samples)))"

definition idleTimeoutOrDefault :: "ImpVM \<Rightarrow> int" where
  "idleTimeoutOrDefault vm =
     (case vs_IdleTimeout (vm_Spec vm) of Some d \<Rightarrow> if 0 < d then d else defaultIdleTimeout | None \<Rightarrow> defaultIdleTimeout)"

definition resetIdle :: "nn \<Rightarrow> samples \<Rightarrow> samples" where
  "resetIdle key samples = samples(key := None)"

section \<open>Wake-ups\<close>

text \<open>The operations of a node: registration on suspend, packets, clearing on resume, and the controller
  taking an event from the channel.\<close>

datatype wake_op = Register string ImpVM | Packet string | Clear nn | Take

fun wake_step :: "wake_op \<Rightarrow> wakeRegistry \<Rightarrow> wakeRegistry" where
  "wake_step (Register ip vm) w = register ip vm w"
| "wake_step (Packet ip) w = onDstIP ip w"
| "wake_step (Clear key) w = clear_key key w"
| "wake_step Take w = w\<lparr>wr_events := tl (wr_events w)\<rparr>"

text \<open>The wake events of a VM since its registration was last cleared.\<close>

fun wakes :: "nn \<Rightarrow> wake_op list \<Rightarrow> wakeRegistry \<Rightarrow> nat \<Rightarrow> nat" where
  "wakes key [] w n = n"
| "wakes key (op # ops) w n =
     (let w' = wake_step op w in
      wakes key ops w'
        (case op of
           Packet ip \<Rightarrow> n + length (filter (\<lambda>vm. object_key vm = key) (drop (length (wr_events w)) (wr_events w')))
         | Clear k \<Rightarrow> if k = key then 0 else n
         | _ \<Rightarrow> n))"

definition registry_ok :: "wakeRegistry \<Rightarrow> bool" where
  "registry_ok w \<longleftrightarrow>
     (\<forall>ip key. wr_keyByIP w ip = Some key \<longrightarrow> wr_ipByKey w key = Some ip) \<and>
     (\<forall>key. wr_ipByKey w key \<noteq> None \<longrightarrow> (\<exists>vm. wr_objByKey w key = Some vm \<and> object_key vm = key))"

lemma registry_ok_new: "registry_ok (newWakeRegistry n)"
  by (simp add: registry_ok_def newWakeRegistry_def)

lemma registry_ok_step:
  assumes "registry_ok w"
  shows "registry_ok (wake_step op w)"
proof (cases op)
  case (Register ip vm)
  then show ?thesis
    using assms by (auto simp: registry_ok_def register_def Let_def simp del: split_paired_All split: option.splits if_splits)
next
  case (Packet ip)
  then show ?thesis
    using assms by (auto simp: registry_ok_def onDstIP_def simp del: split_paired_All split: option.splits)
next
  case (Clear key)
  then show ?thesis
    using assms by (auto simp: registry_ok_def clear_key_def Let_def simp del: split_paired_All split: option.splits if_splits)
qed (use assms in \<open>simp add: registry_ok_def\<close>)

definition wake_run :: "wake_op list \<Rightarrow> wakeRegistry \<Rightarrow> wakeRegistry" where
  "wake_run ops w = fold wake_step ops w"

lemma registry_ok_run: "registry_ok w \<Longrightarrow> registry_ok (wake_run ops w)"
  unfolding wake_run_def by (induction ops arbitrary: w) (simp_all add: registry_ok_step)

lemma wakes_step:
  assumes "registry_ok w" and "n = (if signalled w key then 1 else 0)"
  shows "(case op of
      Packet ip \<Rightarrow> n + length (filter (\<lambda>vm. object_key vm = key) (drop (length (wr_events w)) (wr_events (wake_step op w))))
    | Clear k \<Rightarrow> if k = key then 0 else n | _ \<Rightarrow> n) = (if signalled (wake_step op w) key then 1 else 0)"
proof (cases op)
  case (Packet ip)
  show ?thesis
  proof (cases "wr_keyByIP w ip")
    case (Some k)
    then obtain vm where "wr_objByKey w k = Some vm" "object_key vm = k"
      using assms(1) unfolding registry_ok_def by (metis option.simps(3))
    then show ?thesis using Packet Some assms(2) by (simp add: onDstIP_def signalled_def)
  qed (use Packet assms(2) in \<open>simp add: onDstIP_def\<close>)
qed (use assms(2) in \<open>auto simp: register_def clear_key_def signalled_def Let_def split: option.splits\<close>)

lemma wakes_eq:
  "registry_ok w \<Longrightarrow> n = (if signalled w key then 1 else 0) \<Longrightarrow>
     wakes key ops w n = (if signalled (wake_run ops w) key then 1 else 0)"
proof (induction ops arbitrary: w n)
  case (Cons op ops)
  have "wakes key (op # ops) w n = wakes key ops (wake_step op w) (if signalled (wake_step op w) key then 1 else 0)"
    using wakes_step [OF Cons.prems, of op] by (simp add: Let_def)
  then show ?case
    using Cons.IH [OF registry_ok_step [OF Cons.prems(1)] refl] by (simp add: wake_run_def)
qed (simp add: wake_run_def)



text \<open>A VM is called idle only when its counter has kept the value of a sample for the whole window.\<close>

lemma observe_idle:
  assumes "observe (Inr b) key idleTimeout now samples = (Inr (True, t), samples')"
  shows "samples' = samples \<and> samples key = Some \<lparr>is_bytes = b, is_since = t\<rparr> \<and> idleTimeout \<le> time_sub now t"
  using assms by (auto simp: observe_def split: option.splits if_splits)


text \<open>Addresses are unique per network only, while the registry is keyed by the address alone: of two
  suspended VMs with the same address in different networks the second registration takes the
  address, and clearing the first VM then removes it, so that no packet wakes the second.\<close>

lemma wake_lost_on_shared_ip:
  assumes "object_key a \<noteq> object_key b"
  shows "\<not> wake_pending (object_key b)
    (wake_run [Register ip a, Register ip b, Clear (object_key a), Packet ip] (newWakeRegistry bufSize))"
  using assms by (simp add: wake_run_def newWakeRegistry_def register_def clear_key_def onDstIP_def wake_pending_def
      signalled_def Let_def)

end
