(* ===== verification/Agent.thy ===== *)
theory Agent
  imports Scale_To_Zero Device_Names IP_Allocator Snapshots
begin

text \<open>
  The node agent's VM reconciler (agent/reconciler.go) and its forwarding table (agent/impnetwork\_reconciler.go):
  one handler per phase, over the interface VMDriver (agent/driver.go). The driver, the API server,
  the file system and the network manager are parameters; their calls are the trace of a run, a
  refused or failed call leaves no entry. Metrics, tracing and logging are not modelled. A runner
  handoff runs in its own goroutine: the reconciler starts it, and its end is a separate run.
\<close>

section \<open>Calls\<close>

record VMState =
  st_Running :: bool
  st_IP :: string
  st_PID :: int

datatype agent_effect =
    PatchAgentVM ImpVM ImpVM
  | PatchVTEPs ImpNetwork ImpNetwork
  | DriverStart ImpVM int
  | DriverStop ImpVM
  | AgentSnapshot ImpVM string
  | DriverReattach ImpVM
  | MkdirAllDir string
  | RemoveAllDir string
  | ReserveIP string string
  | EnsureVXLAN nat string string string
  | SyncFDB string "(string \<times> string) list"
  | AgentEvent event_type string string
  | LaunchRunner string ImpVM
  | StoreSample nn idleSample
  | ResetIdle nn
  | RegisterWake string ImpVM
  | ClearWake nn

type_synonym 'a agent_io = "(agent_effect, 'a) io"

text \<open>The driver answers from the calls so far; \<open>dr_vsock\<close> is None for a driver without the lookup.\<close>

record vm_driver =
  dr_Start :: "agent_effect list \<Rightarrow> ImpVM \<Rightarrow> string + int"
  dr_Stop :: "agent_effect list \<Rightarrow> ImpVM \<Rightarrow> string + unit"
  dr_Inspect :: "agent_effect list \<Rightarrow> ImpVM \<Rightarrow> string + VMState"
  dr_Snapshot :: "agent_effect list \<Rightarrow> ImpVM \<Rightarrow> string \<Rightarrow> string + unit"
  dr_IsAlive :: "agent_effect list \<Rightarrow> int \<Rightarrow> bool"
  dr_Reattach :: "agent_effect list \<Rightarrow> ImpVM \<Rightarrow> string + unit"
  dr_vsock :: "(agent_effect list \<Rightarrow> string \<Rightarrow> string option) option"

text \<open>The optional scale-to-zero feature: poll interval, byte counter of an interface, samples and wake
  registry as the reconcile finds them.\<close>

record scale_to_zero =
  sz_interval :: int
  sz_stats :: "string \<Rightarrow> string + int"
  sz_samples :: samples
  sz_reg :: wakeRegistry

record agent_env =
  ae_NodeName :: string
  ae_NodeIP :: string
  ae_driver :: vm_driver
  ae_srv :: "(agent_effect, ImpVM) server"
  ae_netsrv :: "(agent_effect, unit) server"
  ae_net :: "agent_effect list \<Rightarrow> nat \<Rightarrow> string \<Rightarrow> string \<Rightarrow> api_error + ImpNetwork"
  ae_attempts :: nat
  ae_backoff_attempts :: nat
  ae_manager :: "(agent_effect list \<Rightarrow> agent_effect \<Rightarrow> string option) option"
  ae_alloc :: bool
  ae_mkdir :: "string \<Rightarrow> string option"
  ae_StartTimeout :: int
  ae_RetryInterval :: int
  ae_recorder :: bool
  ae_SuspendDir :: string
  ae_sz :: "scale_to_zero option"
  ae_now :: int

text \<open>A call of the driver or the network manager, recorded when it succeeds.\<close>

definition driver_call :: "(agent_effect list \<Rightarrow> string + 'a) \<Rightarrow> ('a \<Rightarrow> agent_effect) \<Rightarrow> 'a agent_io" where
  "driver_call f e = (\<lambda>tr. case f tr of Inl m \<Rightarrow> (Inl (Err m), tr) | Inr x \<Rightarrow> (Inr x, tr @ [e x]))"

definition driver_read :: "(agent_effect list \<Rightarrow> string + 'a) \<Rightarrow> 'a agent_io" where
  "driver_read f = (\<lambda>tr. case f tr of Inl m \<Rightarrow> (Inl (Err m), tr) | Inr x \<Rightarrow> (Inr x, tr))"

definition manager_call :: "(agent_effect list \<Rightarrow> agent_effect \<Rightarrow> string option) \<Rightarrow> agent_effect \<Rightarrow> unit agent_io" where
  "manager_call f e = (\<lambda>tr. case f tr e of Some m \<Rightarrow> (Inl (Err m), tr) | None \<Rightarrow> (Inr (), tr @ [e]))"

text \<open>A step whose error is only logged.\<close>

definition best_effort :: "'a agent_io \<Rightarrow> unit agent_io" where
  "best_effort m = (\<lambda>tr. (Inr (), snd (m tr)))"

text \<open>A status patch; a conflict ends the reconcile with an immediate requeue.\<close>

definition patch_or_requeue :: "agent_env \<Rightarrow> ImpVM \<Rightarrow> ImpVM \<Rightarrow> (ImpVM \<Rightarrow> ctrl_result agent_io) \<Rightarrow> ctrl_result agent_io" where
  "patch_or_requeue env base obj k =
     (\<lambda>tr. case ae_srv env tr (PatchAgentVM base obj) of
        Inl e \<Rightarrow> if e = Conflict then (Inr requeue_now, tr) else (Inl (Api e), tr)
      | Inr vm \<Rightarrow> k vm (tr @ [PatchAgentVM base obj]))"

text \<open>retry.RetryOnConflict: at most the given number of attempts, the next one only after a conflict.\<close>

fun retry_on_conflict :: "nat \<Rightarrow> (nat \<Rightarrow> unit agent_io) \<Rightarrow> unit agent_io" where
  "retry_on_conflict 0 f = fail (Err ''timed out waiting for the condition'')"
| "retry_on_conflict (Suc n) f =
     (\<lambda>tr. case f n tr of
        (Inl (Api e), tr') \<Rightarrow> if e = Conflict \<and> n \<noteq> 0 then retry_on_conflict n f tr' else (Inl (Api e), tr')
      | r \<Rightarrow> r)"

section \<open>Small parts\<close>

definition suspendBaseDir :: "agent_env \<Rightarrow> string" where
  "suspendBaseDir env = (if ae_SuspendDir env \<noteq> '''' then ae_SuspendDir env else ''/var/lib/imp/suspend'')"

definition suspendDirFor :: "agent_env \<Rightarrow> ImpVM \<Rightarrow> string" where
  "suspendDirFor env vm = path_join [suspendBaseDir env, vm_namespace vm @ ''_'' @ vm_name vm]"

definition startTimeout :: "agent_env \<Rightarrow> int" where
  "startTimeout env = (if 0 < ae_StartTimeout env then ae_StartTimeout env else seconds 300)"

definition retryInterval :: "agent_env \<Rightarrow> int" where
  "retryInterval env = (if 0 < ae_RetryInterval env then ae_RetryInterval env else seconds 5)"

definition vmLifecycleOrDefault :: "ImpVM \<Rightarrow> VMLifecycle" where
  "vmLifecycleOrDefault vm =
     (if vs_Lifecycle (vm_Spec vm) = VMLifecycleUnset then VMLifecycleEphemeral else vs_Lifecycle (vm_Spec vm))"

definition vmKey :: "ImpVM \<Rightarrow> string" where
  "vmKey vm = vm_namespace vm @ ''/'' @ vm_name vm"

definition agent_event :: "agent_env \<Rightarrow> event_type \<Rightarrow> string \<Rightarrow> string \<Rightarrow> unit agent_io" where
  "agent_event env t reason msg = when_io (ae_recorder env) (emit (AgentEvent t reason msg))"

section \<open>Terminal phases\<close>

definition succeeded_vm :: "ImpVM \<Rightarrow> ImpVM" where
  "succeeded_vm = upd_status (\<lambda>s. s\<lparr>vt_Phase := VMPhaseSucceeded, vt_StartedAt := None, vt_IP := '''', vt_RuntimePID := 0\<rparr>)"

definition failed_vm :: "ImpVM \<Rightarrow> ImpVM" where
  "failed_vm = upd_status (\<lambda>s. s\<lparr>vt_Phase := VMPhaseFailed, vt_StartedAt := None\<rparr>)"

definition finishSucceeded :: "agent_env \<Rightarrow> ImpVM \<Rightarrow> ctrl_result agent_io" where
  "finishSucceeded env vm =
     and_then (send (ae_srv env) (PatchAgentVM vm (succeeded_vm vm))) (\<lambda>_.
     and_then (agent_event env EventNormal ''Completed'' ''VM exited and was marked Succeeded'') (\<lambda>_. ret no_requeue))"

definition finishFailed :: "agent_env \<Rightarrow> ImpVM \<Rightarrow> ctrl_result agent_io" where
  "finishFailed env vm =
     and_then (send (ae_srv env) (PatchAgentVM vm (failed_vm vm))) (\<lambda>_.
     and_then (agent_event env EventWarning ''ProcessExited'' ''VM process exited and was marked Failed'') (\<lambda>_. ret no_requeue))"

definition clearOwnership :: "agent_env \<Rightarrow> ImpVM \<Rightarrow> ctrl_result agent_io" where
  "clearOwnership env vm =
     and_then (send (ae_srv env) (PatchAgentVM vm
       (upd_status (\<lambda>s. s\<lparr>vt_NodeName := '''', vt_IP := '''', vt_RuntimePID := 0\<rparr>) vm))) (\<lambda>_. ret no_requeue)"

text \<open>The two ends of a runner handoff read the VM anew on each attempt.\<close>

definition terminal_patch :: "agent_env \<Rightarrow> (nat \<Rightarrow> api_error + ImpVM) \<Rightarrow> (ImpVM \<Rightarrow> ImpVM) \<Rightarrow> unit agent_io" where
  "terminal_patch env latest f =
     retry_on_conflict (ae_attempts env) (\<lambda>n.
       case latest n of
         Inl e \<Rightarrow> (case ignoreNotFound e of Inl er \<Rightarrow> fail er | Inr _ \<Rightarrow> ret ())
       | Inr vm \<Rightarrow>
           if vm_phase vm \<in> {VMPhaseFailed, VMPhaseSucceeded, VMPhaseTerminating} then ret ()
           else and_then (send (ae_srv env) (PatchAgentVM vm (f vm))) (\<lambda>_. ret ()))"

definition finishRunnerLaunchSucceeded :: "agent_env \<Rightarrow> (nat \<Rightarrow> api_error + ImpVM) \<Rightarrow> unit agent_io" where
  "finishRunnerLaunchSucceeded env latest = terminal_patch env latest succeeded_vm"

definition finishRunnerLaunchFailed :: "agent_env \<Rightarrow> (nat \<Rightarrow> api_error + ImpVM) \<Rightarrow> unit agent_io" where
  "finishRunnerLaunchFailed env latest = terminal_patch env latest failed_vm"

section \<open>The overlay table\<close>

definition read_net :: "agent_env \<Rightarrow> nat \<Rightarrow> ImpVM \<Rightarrow> ImpNetwork agent_io" where
  "read_net env n vm =
     (\<lambda>tr. lift (ae_net env tr n (vm_namespace vm) (case vs_NetworkRef (vm_Spec vm) of Some r \<Rightarrow> r | None \<Rightarrow> '''')) tr)"

definition upd_vteps :: "(VTEPEntry list \<Rightarrow> VTEPEntry list) \<Rightarrow> ImpNetwork \<Rightarrow> ImpNetwork" where
  "upd_vteps f net = net\<lparr>net_Status := (net_Status net)\<lparr>nt_VTEPTable := f (nt_VTEPTable (net_Status net))\<rparr>\<rparr>"

fun put_vtep :: "VTEPEntry \<Rightarrow> VTEPEntry list \<Rightarrow> VTEPEntry list" where
  "put_vtep v [] = [v]"
| "put_vtep v (e # es) = (if ve_VMIP e = ve_VMIP v then v # es else e # put_vtep v es)"

definition registerVTEP :: "agent_env \<Rightarrow> ImpVM \<Rightarrow> string \<Rightarrow> string \<Rightarrow> unit agent_io" where
  "registerVTEP env vm vmIP vmMAC =
     retry_on_conflict (ae_backoff_attempts env) (\<lambda>n.
       and_then (read_net env n vm) (\<lambda>impNet.
         if list_ex (\<lambda>e. ve_VMIP e = vmIP \<and> ve_VMMAC e = vmMAC \<and> ve_NodeIP e = ae_NodeIP env) (nt_VTEPTable (net_Status impNet))
         then ret ()
         else send (ae_netsrv env) (PatchVTEPs impNet
           (upd_vteps (put_vtep \<lparr>ve_NodeIP = ae_NodeIP env, ve_VMIP = vmIP, ve_VMMAC = vmMAC\<rparr>) impNet))))"

definition deregisterVTEP :: "agent_env \<Rightarrow> ImpVM \<Rightarrow> unit agent_io" where
  "deregisterVTEP env vm =
     (\<lambda>tr. case read_net env 0 vm tr of
        (Inl (Api e), tr') \<Rightarrow> (case ignoreNotFound e of Inl er \<Rightarrow> (Inl er, tr') | Inr _ \<Rightarrow> (Inr (), tr'))
      | (Inl er, tr') \<Rightarrow> (Inl er, tr')
      | (Inr impNet, tr') \<Rightarrow>
          let net' = upd_vteps (filter (\<lambda>e. ve_VMIP e \<noteq> vt_IP (vm_Status vm))) impNet in
          if length (nt_VTEPTable (net_Status net')) = length (nt_VTEPTable (net_Status impNet)) then (Inr (), tr')
          else send (ae_netsrv env) (PatchVTEPs impNet net') tr')"

definition syncNetworkFDB :: "ImpNetwork \<Rightarrow> string \<Rightarrow> (agent_effect list \<Rightarrow> agent_effect \<Rightarrow> string option) option \<Rightarrow> unit agent_io" where
  "syncNetworkFDB netObj nodeIP mgr =
     (case mgr of
        None \<Rightarrow> ret ()
      | Some m \<Rightarrow>
          if nodeIP = '''' then ret ()
          else
            let netKey = om_Namespace (net_Meta netObj) @ ''/'' @ om_Name (net_Meta netObj);
                (vni, ifaceName) = VXLANParams (om_UID (net_Meta netObj)) in
            and_then (manager_call m (EnsureVXLAN vni ifaceName nodeIP (BridgeName netKey))) (\<lambda>_.
              manager_call m (SyncFDB ifaceName
                (map (\<lambda>e. (ve_VMMAC e, ve_NodeIP e)) (filter (\<lambda>e. ve_NodeIP e \<noteq> nodeIP) (nt_VTEPTable (net_Status netObj)))))))"

definition syncFDB :: "agent_env \<Rightarrow> ImpVM \<Rightarrow> unit agent_io" where
  "syncFDB env vm =
     (if ae_manager env = None \<or> ae_NodeIP env = '''' then ret ()
      else (\<lambda>tr. case read_net env 0 vm tr of
          (Inl (Api e), tr') \<Rightarrow> (case ignoreNotFound e of Inl er \<Rightarrow> (Inl er, tr') | Inr _ \<Rightarrow> (Inr (), tr'))
        | (Inl er, tr') \<Rightarrow> (Inl er, tr')
        | (Inr impNet, tr') \<Rightarrow> syncNetworkFDB impNet (ae_NodeIP env) (ae_manager env) tr'))"

text \<open>Registration and table in one; the first error is logged and ends the step.\<close>

definition register_and_sync :: "agent_env \<Rightarrow> ImpVM \<Rightarrow> string \<Rightarrow> unit agent_io" where
  "register_and_sync env vm ip =
     best_effort (and_then (registerVTEP env vm ip (MACAddr (vmKey vm))) (\<lambda>_. syncFDB env vm))"

definition ensureVTEPAndFDB :: "agent_env \<Rightarrow> ImpVM \<Rightarrow> string \<Rightarrow> unit agent_io" where
  "ensureVTEPAndFDB env vm ip =
     (if vs_NetworkRef (vm_Spec vm) = None \<or> ip = '''' \<or> ae_NodeIP env = '''' then ret ()
      else register_and_sync env vm ip)"

text \<open>The reconciler of networks on the node.\<close>

definition agent_net_Reconcile :: "agent_env \<Rightarrow> api_error + ImpNetwork \<Rightarrow> api_error + ImpVM list \<Rightarrow> ctrl_result agent_io" where
  "agent_net_Reconcile env read vms =
     (case read of
        Inl e \<Rightarrow> (case ignoreNotFound e of Inl er \<Rightarrow> fail er | Inr _ \<Rightarrow> ret no_requeue)
      | Inr impNet \<Rightarrow>
          and_then (lift vms) (\<lambda>vmList.
            if \<not> list_ex (\<lambda>vm. vm_node vm = ae_NodeName env \<and> vs_NetworkRef (vm_Spec vm) = Some (om_Name (net_Meta impNet)) \<and>
                vm_phase vm = VMPhaseRunning) vmList
            then ret no_requeue
            else and_then (syncNetworkFDB impNet (ae_NodeIP env) (ae_manager env)) (\<lambda>_. ret no_requeue)))"

section \<open>The phase handlers\<close>

definition handleStarting :: "agent_env \<Rightarrow> ImpVM \<Rightarrow> ctrl_result agent_io" where
  "handleStarting env vm =
     (case vt_StartedAt (vm_Status vm) of
        Some t \<Rightarrow> if startTimeout env < time_sub (ae_now env) t then finishFailed env vm else ret (requeue_after (retryInterval env))
      | None \<Rightarrow> ret (requeue_after (retryInterval env)))"

text \<open>The failures of the lookup mark the VM, read anew, as failed; otherwise the handoff starts.\<close>

definition maybeLaunchRunner :: "agent_env \<Rightarrow> (nat \<Rightarrow> api_error + ImpVM) \<Rightarrow> ImpVM \<Rightarrow> unit agent_io" where
  "maybeLaunchRunner env latest vm =
     (if vs_RunnerConfigSecret (vm_Spec vm) = '''' then ret ()
      else (\<lambda>tr. case dr_vsock (ae_driver env) of
          None \<Rightarrow> best_effort (finishRunnerLaunchFailed env latest) tr
        | Some vsock \<Rightarrow>
            (case vsock tr (vmKey vm) of
               None \<Rightarrow> best_effort (finishRunnerLaunchFailed env latest) tr
             | Some sockPath \<Rightarrow> emit (LaunchRunner sockPath vm) tr)))"

record launch_result =
  lr_HandoffDone :: bool
  lr_ExitCode :: int
  lr_Err :: "string option"

definition runner_goroutine :: "agent_env \<Rightarrow> (nat \<Rightarrow> api_error + ImpVM) \<Rightarrow> launch_result \<Rightarrow> unit agent_io" where
  "runner_goroutine env latest res =
     (case lr_Err res of
        Some m \<Rightarrow>
          and_then (best_effort (finishRunnerLaunchFailed env latest)) (\<lambda>_. agent_event env EventWarning ''RunnerLaunchFailed'' m)
      | None \<Rightarrow>
          when_io (lr_HandoffDone res \<and> lr_ExitCode res = 0) (best_effort (finishRunnerLaunchSucceeded env latest)))"

definition started_vm :: "VMState \<Rightarrow> int \<Rightarrow> ImpVM \<Rightarrow> ImpVM" where
  "started_vm state pid = upd_status (\<lambda>s. s\<lparr>vt_Phase := VMPhaseRunning, vt_StartedAt := None, vt_IP := st_IP state, vt_RuntimePID := pid\<rparr>)"

definition handleScheduled :: "agent_env \<Rightarrow> (nat \<Rightarrow> api_error + ImpVM) \<Rightarrow> ImpVM \<Rightarrow> ctrl_result agent_io" where
  "handleScheduled env latest vm =
     patch_or_requeue env vm (upd_status (\<lambda>s. s\<lparr>vt_Phase := VMPhaseStarting, vt_StartedAt := Some (ae_now env)\<rparr>) vm) (\<lambda>vm.
     and_then (driver_call (\<lambda>tr. dr_Start (ae_driver env) tr vm) (DriverStart vm)) (\<lambda>pid.
     and_then (driver_read (\<lambda>tr. dr_Inspect (ae_driver env) tr vm)) (\<lambda>state.
     patch_or_requeue env vm (started_vm state pid vm) (\<lambda>vm.
     and_then (ensureVTEPAndFDB env vm (st_IP state)) (\<lambda>_.
     and_then (maybeLaunchRunner env latest vm) (\<lambda>_. ret no_requeue))))))"


definition runningResult :: "agent_env \<Rightarrow> ImpVM \<Rightarrow> ctrl_result" where
  "runningResult env vm =
     (case ae_sz env of
        Some sz \<Rightarrow> if vs_DesiredState (vm_Spec vm) = VMDesiredStateScaleToZero then requeue_after (sz_interval sz) else no_requeue
      | None \<Rightarrow> no_requeue)"

text \<open>The answer is whether the VM goes to Suspending, with the object: a conflict leaves its local change.\<close>

definition maybeSuspendIdle :: "agent_env \<Rightarrow> scale_to_zero \<Rightarrow> ImpVM \<Rightarrow> (bool \<times> ImpVM) agent_io" where
  "maybeSuspendIdle env sz vm =
     (let key = object_key vm;
          (obs, samples') = observe (sz_stats sz (TAPName (vmKey vm))) key (idleTimeoutOrDefault vm) (ae_now env) (sz_samples sz) in
      and_then (case samples' key of
          Some s \<Rightarrow> when_io (sz_samples sz key \<noteq> Some s) (emit (StoreSample key s))
        | None \<Rightarrow> ret ()) (\<lambda>_.
      case obs of
        Inl m \<Rightarrow> fail (Err m)
      | Inr (idle, lastActivity) \<Rightarrow>
          if \<not> idle then ret (False, vm)
          else
            let vm' = upd_status (\<lambda>s. s\<lparr>vt_LastActivityTime := Some lastActivity, vt_Phase := VMPhaseSuspending\<rparr>) vm in
            (\<lambda>tr. case ae_srv env tr (PatchAgentVM vm vm') of
               Inl e \<Rightarrow> if e = Conflict then (Inr (False, vm'), tr) else (Inl (Api e), tr)
             | Inr r \<Rightarrow> (Inr (True, r), tr @ [PatchAgentVM vm vm']))))"

text \<open>The process died or cannot be taken over.\<close>

definition process_exited :: "agent_env \<Rightarrow> ImpVM \<Rightarrow> ctrl_result agent_io" where
  "process_exited env vm =
     (if vmLifecycleOrDefault vm = VMLifecycleEphemeral then finishSucceeded env vm else finishFailed env vm)"

definition reattach_or_exit :: "agent_env \<Rightarrow> ImpVM \<Rightarrow> ctrl_result agent_io" where
  "reattach_or_exit env vm =
     (\<lambda>tr. let pid = vt_RuntimePID (vm_Status vm) in
       if \<not> (0 < pid \<and> dr_IsAlive (ae_driver env) tr pid) then process_exited env vm tr
       else case dr_Reattach (ae_driver env) tr vm of
           Inl m \<Rightarrow> process_exited env vm tr
         | Inr _ \<Rightarrow>
             and_then (emit (DriverReattach vm)) (\<lambda>_.
             and_then (when_io (ae_alloc env \<and> vs_NetworkRef (vm_Spec vm) \<noteq> None \<and> vt_IP (vm_Status vm) \<noteq> '''')
               (emit (ReserveIP (vm_namespace vm @ ''/'' @ the (vs_NetworkRef (vm_Spec vm))) (vt_IP (vm_Status vm))))) (\<lambda>_.
             and_then (ensureVTEPAndFDB env vm (vt_IP (vm_Status vm))) (\<lambda>_. ret no_requeue))) tr)"

definition check_liveness :: "agent_env \<Rightarrow> ImpVM \<Rightarrow> ctrl_result agent_io" where
  "check_liveness env vm =
     and_then (driver_read (\<lambda>tr. dr_Inspect (ae_driver env) tr vm)) (\<lambda>state.
       if st_Running state then ret (runningResult env vm) else reattach_or_exit env vm)"

definition handleRunning :: "agent_env \<Rightarrow> (nat \<Rightarrow> api_error + ImpVM) \<Rightarrow> ImpVM \<Rightarrow> ctrl_result agent_io" where
  "handleRunning env latest vm =
     and_then (maybeLaunchRunner env latest vm) (\<lambda>_.
       if vs_DesiredState (vm_Spec vm) = VMDesiredStateSuspended then
         patch_or_requeue env vm (upd_status (\<lambda>s. s\<lparr>vt_Phase := VMPhaseSuspending\<rparr>) vm) (\<lambda>_. ret no_requeue)
       else if vs_DesiredState (vm_Spec vm) = VMDesiredStateScaleToZero \<and> ae_sz env \<noteq> None then
         (\<lambda>tr. case maybeSuspendIdle env (the (ae_sz env)) vm tr of
            (Inl e, tr') \<Rightarrow> (Inr (requeue_after (sz_interval (the (ae_sz env)))), tr')
          | (Inr (suspended, vm'), tr') \<Rightarrow>
              if suspended then (Inr no_requeue, tr') else check_liveness env vm' tr')
       else check_liveness env vm)"

definition handleTerminating :: "agent_env \<Rightarrow> ImpVM \<Rightarrow> ctrl_result agent_io" where
  "handleTerminating env vm =
     and_then (driver_call (\<lambda>tr. dr_Stop (ae_driver env) tr vm) (\<lambda>_. DriverStop vm)) (\<lambda>_.
     and_then (when_io (vs_NetworkRef (vm_Spec vm) \<noteq> None \<and> vt_IP (vm_Status vm) \<noteq> '''') (best_effort (deregisterVTEP env vm))) (\<lambda>_.
     and_then (emit (RemoveAllDir (suspendDirFor env vm))) (\<lambda>_.
       clearOwnership env vm)))"

definition suspended_vm :: "agent_env \<Rightarrow> ImpVM \<Rightarrow> ImpVM" where
  "suspended_vm env vm = upd_status (\<lambda>s. s\<lparr>vt_Phase := VMPhaseSuspended, vt_SuspendSnapshotPath := suspendDirFor env vm,
     vt_SuspendedAt := Some (ae_now env), vt_RuntimePID := 0\<rparr>) vm"

definition handleSuspending :: "agent_env \<Rightarrow> ImpVM \<Rightarrow> ctrl_result agent_io" where
  "handleSuspending env vm =
     (let destDir = suspendDirFor env vm in
      case ae_mkdir env destDir of
        Some m \<Rightarrow> fail (Err m)
      | None \<Rightarrow>
          and_then (emit (MkdirAllDir destDir)) (\<lambda>_.
          and_then (driver_call (\<lambda>tr. dr_Snapshot (ae_driver env) tr vm destDir) (\<lambda>_. AgentSnapshot vm destDir)) (\<lambda>_.
          and_then (when_io (vs_NetworkRef (vm_Spec vm) \<noteq> None \<and> vt_IP (vm_Status vm) \<noteq> '''' \<and>
              vs_DesiredState (vm_Spec vm) \<noteq> VMDesiredStateScaleToZero) (best_effort (deregisterVTEP env vm))) (\<lambda>_.
          and_then (driver_call (\<lambda>tr. dr_Stop (ae_driver env) tr vm) (\<lambda>_. DriverStop vm)) (\<lambda>_.
          patch_or_requeue env vm (suspended_vm env vm) (\<lambda>vm.
          and_then (when_io (vs_DesiredState (vm_Spec vm) = VMDesiredStateScaleToZero \<and> ae_sz env \<noteq> None \<and> vt_IP (vm_Status vm) \<noteq> '''')
            (and_then (emit (RegisterWake (vt_IP (vm_Status vm)) vm)) (\<lambda>_. emit (ResetIdle (object_key vm))))) (\<lambda>_.
            ret no_requeue)))))))"

definition handleSuspended :: "agent_env \<Rightarrow> ImpVM \<Rightarrow> ctrl_result agent_io" where
  "handleSuspended env vm =
     (if vs_DesiredState (vm_Spec vm) = VMDesiredStateSuspended \<or>
         vs_DesiredState (vm_Spec vm) = VMDesiredStateScaleToZero \<and>
           (case ae_sz env of None \<Rightarrow> True | Some sz \<Rightarrow> \<not> wake_pending (object_key vm) (sz_reg sz))
      then ret no_requeue
      else patch_or_requeue env vm (upd_status (\<lambda>s. s\<lparr>vt_Phase := VMPhaseResuming\<rparr>) vm) (\<lambda>_. ret no_requeue))"

definition resumed_vm :: "VMState \<Rightarrow> int \<Rightarrow> ImpVM \<Rightarrow> ImpVM" where
  "resumed_vm state pid = upd_status (\<lambda>s. s\<lparr>vt_Phase := VMPhaseRunning, vt_IP := st_IP state, vt_RuntimePID := pid,
     vt_SuspendSnapshotPath := '''', vt_SuspendedAt := None\<rparr>)"

definition handleResuming :: "agent_env \<Rightarrow> ImpVM \<Rightarrow> ctrl_result agent_io" where
  "handleResuming env vm =
     and_then (driver_call (\<lambda>tr. dr_Start (ae_driver env) tr vm) (DriverStart vm)) (\<lambda>pid.
     and_then (driver_read (\<lambda>tr. dr_Inspect (ae_driver env) tr vm)) (\<lambda>state.
     patch_or_requeue env vm (resumed_vm state pid vm) (\<lambda>vm.
     and_then (when_io (ae_sz env \<noteq> None)
       (and_then (emit (ClearWake (object_key vm))) (\<lambda>_. emit (ResetIdle (object_key vm))))) (\<lambda>_.
     and_then (ensureVTEPAndFDB env vm (st_IP state)) (\<lambda>_. ret no_requeue)))))"

definition agent_Reconcile :: "agent_env \<Rightarrow> (nat \<Rightarrow> api_error + ImpVM) \<Rightarrow> api_error + ImpVM \<Rightarrow> ctrl_result agent_io" where
  "agent_Reconcile env latest read =
     (case read of
        Inl e \<Rightarrow> (case ignoreNotFound e of Inl er \<Rightarrow> fail er | Inr _ \<Rightarrow> ret no_requeue)
      | Inr vm \<Rightarrow>
          if vm_node vm \<noteq> ae_NodeName env then ret no_requeue
          else (case vm_phase vm of
              VMPhaseTerminating \<Rightarrow> handleTerminating env vm
            | VMPhaseScheduled \<Rightarrow> handleScheduled env latest vm
            | VMPhaseRunning \<Rightarrow> handleRunning env latest vm
            | VMPhaseStarting \<Rightarrow> handleStarting env vm
            | VMPhaseSuspending \<Rightarrow> handleSuspending env vm
            | VMPhaseSuspended \<Rightarrow> handleSuspended env vm
            | VMPhaseResuming \<Rightarrow> handleResuming env vm
            | _ \<Rightarrow> ret no_requeue))"


section \<open>The order of calls\<close>

lemma triple_driver_call [triple_rules]:
  "(\<And>tr x. P tr \<Longrightarrow> Q x (tr @ [e x])) \<Longrightarrow> (\<And>tr. P tr \<Longrightarrow> E tr) \<Longrightarrow> triple P (driver_call f e) Q E"
  by (auto simp: triple_def driver_call_def split: sum.splits)

lemma triple_driver_read [triple_rules]:
  "(\<And>tr x. P tr \<Longrightarrow> Q x tr) \<Longrightarrow> (\<And>tr. P tr \<Longrightarrow> E tr) \<Longrightarrow> triple P (driver_read f) Q E"
  by (auto simp: triple_def driver_read_def split: sum.splits)

lemma triple_manager_call [triple_rules]:
  "(\<And>tr. P tr \<Longrightarrow> Q () (tr @ [e])) \<Longrightarrow> (\<And>tr. P tr \<Longrightarrow> E tr) \<Longrightarrow> triple P (manager_call f e) Q E"
  by (auto simp: triple_def manager_call_def split: option.splits)

lemma triple_best_effort:
  "triple P m (\<lambda>_. Q ()) (Q ()) \<Longrightarrow> triple P (best_effort m) Q E"
  unfolding triple_def best_effort_def by (fastforce split: prod.splits sum.splits)

lemma triple_retry:
  assumes "\<And>n. triple P (f n) (\<lambda>_. P) P"
  shows "triple P (retry_on_conflict n f) (\<lambda>_. P) P"
proof (induction n)
  case (Suc n)
  show ?case
    unfolding triple_def retry_on_conflict.simps
  proof (intro allI impI)
    fix tr assume "P tr"
    obtain r tr' where run: "f n tr = (r, tr')" by fastforce
    then have "P tr'" using triple_run [OF assms [of n] \<open>P tr\<close>] by (simp split: sum.splits)
    then have "case retry_on_conflict n f tr' of (Inl e, tr'') \<Rightarrow> P tr'' | (Inr x, tr'') \<Rightarrow> P tr''"
      by (rule triple_run [OF Suc])
    then show "case case f n tr of (Inl (Api e), tr') \<Rightarrow> if e = Conflict \<and> n \<noteq> 0 then retry_on_conflict n f tr' else (Inl (Api e), tr')
        | r \<Rightarrow> r of (Inl e, tr') \<Rightarrow> P tr' | (Inr x, tr') \<Rightarrow> P tr'"
      using run \<open>P tr'\<close> by (auto split: sum.splits error.splits)
  qed
qed (simp add: triple_fail)

text \<open>The phase changes an agent makes, and what must come before a call in the run that handles \<open>vm\<close>.\<close>

definition agent_transition :: "VMPhase \<Rightarrow> VMPhase \<Rightarrow> bool" where
  "agent_transition p q \<longleftrightarrow>
     (p, q) \<in> {(VMPhaseScheduled, VMPhaseStarting), (VMPhaseStarting, VMPhaseRunning), (VMPhaseRunning, VMPhaseSuspending),
       (VMPhaseSuspending, VMPhaseSuspended), (VMPhaseSuspended, VMPhaseResuming), (VMPhaseResuming, VMPhaseRunning),
       (VMPhaseTerminating, VMPhaseTerminating), (VMPhaseRunning, VMPhaseSucceeded), (VMPhaseSuspending, VMPhaseSucceeded)} \<or>
     q = VMPhaseFailed \<and> p \<notin> {VMPhaseFailed, VMPhaseSucceeded, VMPhaseTerminating}"

fun justified :: "ImpVM \<Rightarrow> agent_effect list \<Rightarrow> agent_effect \<Rightarrow> bool" where
  "justified vm pre (PatchAgentVM b v) \<longleftrightarrow>
     vm_Meta v = vm_Meta b \<and> vm_Spec v = vm_Spec b \<and> agent_transition (vm_phase b) (vm_phase v) \<and>
     (vm_phase v = VMPhaseRunning \<longrightarrow> DriverStart b (vt_RuntimePID (vm_Status v)) \<in> set pre) \<and>
     (vm_phase v = VMPhaseSuspended \<longrightarrow>
        AgentSnapshot vm (vt_SuspendSnapshotPath (vm_Status v)) \<in> set pre \<and> DriverStop vm \<in> set pre) \<and>
     (vt_NodeName (vm_Status v) \<noteq> vt_NodeName (vm_Status b) \<longrightarrow>
        vm_phase b = VMPhaseTerminating \<and> DriverStop vm \<in> set pre)"
| "justified vm pre (DriverStop v) \<longleftrightarrow>
     v = vm \<and> (vm_phase vm = VMPhaseTerminating \<or>
       vm_phase vm = VMPhaseSuspending \<and> (\<exists>dir. AgentSnapshot vm dir \<in> set pre))"
| "justified vm pre (RegisterWake ip v) \<longleftrightarrow> (\<exists>b. PatchAgentVM b v \<in> set pre \<and> vm_phase v = VMPhaseSuspended)"
| "justified vm pre e \<longleftrightarrow> True"

definition lawful :: "ImpVM \<Rightarrow> agent_effect list \<Rightarrow> bool" where
  "lawful vm tr \<longleftrightarrow> (\<forall>i<length tr. justified vm (take i tr) (tr ! i))"

lemma lawful_Nil [simp]: "lawful vm []"
  by (simp add: lawful_def)

lemma lawful_snoc [simp]: "lawful vm (tr @ [e]) \<longleftrightarrow> lawful vm tr \<and> justified vm tr e"
proof -
  have "(\<forall>i<length (tr @ [e]). justified vm (take i (tr @ [e])) ((tr @ [e]) ! i)) \<longleftrightarrow>
      (\<forall>i<length tr. justified vm (take i (tr @ [e])) ((tr @ [e]) ! i)) \<and> justified vm tr e"
    by (simp add: All_less_Suc conj_commute)
  moreover have "(\<forall>i<length tr. justified vm (take i (tr @ [e])) ((tr @ [e]) ! i)) \<longleftrightarrow> lawful vm tr"
    unfolding lawful_def by (intro all_cong) (simp add: nth_append)
  ultimately show ?thesis unfolding lawful_def by blast
qed

text \<open>A lawful trace that holds some calls.\<close>

definition reached :: "ImpVM \<Rightarrow> agent_effect set \<Rightarrow> agent_effect list \<Rightarrow> bool" where
  "reached vm S tr \<longleftrightarrow> lawful vm tr \<and> S \<subseteq> set tr"

lemma reached_snoc: "reached vm S tr \<Longrightarrow> justified vm tr e \<Longrightarrow> reached vm (insert e S) (tr @ [e])"
  by (auto simp: reached_def)

lemma reached_less: "reached vm S tr \<Longrightarrow> T \<subseteq> S \<Longrightarrow> reached vm T tr"
  by (auto simp: reached_def)

locale quiet_agent_api =
  fixes srv :: "(agent_effect, ImpVM) server"
  assumes agent_answer: "srv tr (PatchAgentVM b obj) = Inr r \<Longrightarrow> r = obj"
begin

lemma patch_or_requeue_triple:
  assumes "ae_srv env = srv" "\<And>tr. P tr \<Longrightarrow> I tr" "triple (\<lambda>tr. \<exists>tr0. tr = tr0 @ [PatchAgentVM b v] \<and> P tr0) (k v) (\<lambda>_. I) I"
  shows "triple P (patch_or_requeue env b v k) (\<lambda>_. I) I"
proof -
  have "I (snd (k r (tr @ [PatchAgentVM b v])))" if "P tr" "srv tr (PatchAgentVM b v) = Inr r" for tr r
    using tripleD [OF assms(3), of "tr @ [PatchAgentVM b v]"] that agent_answer by blast
  then show ?thesis
    by (intro tripleI) (simp add: patch_or_requeue_def assms(1,2) split: sum.split)
qed

text \<open>A patch in a lawful run: the rest of the handler starts with the patch done.\<close>

lemma patch_reached:
  assumes "ae_srv env = srv" "\<And>tr. reached vm S tr \<Longrightarrow> justified vm tr (PatchAgentVM b v)"
    and "triple (reached vm (insert (PatchAgentVM b v) S)) (k v) (\<lambda>_. reached vm {}) (reached vm {})"
  shows "triple (reached vm S) (patch_or_requeue env b v k) (\<lambda>_. reached vm {}) (reached vm {})"
  by (rule patch_or_requeue_triple [OF assms(1)], blast intro: reached_less,
      rule triple_weaken [OF assms(3)]) (auto intro: reached_snoc assms(2))

lemma send_reached:
  assumes "ae_srv env = srv" "\<And>tr. reached vm S tr \<Longrightarrow> justified vm tr (PatchAgentVM b v)"
  shows "triple (reached vm S) (send (ae_srv env) (PatchAgentVM b v)) (\<lambda>_. reached vm {}) (reached vm {})"
  by (intro triple_send) (blast intro: reached_less reached_snoc assms(2))+

end

text \<open>Calls that are always in order.\<close>

fun harmless :: "agent_effect \<Rightarrow> bool" where
  "harmless (PatchAgentVM b v) = False"
| "harmless (DriverStop v) = False"
| "harmless (RegisterWake ip v) = False"
| "harmless e = True"

lemma harmless_justified: "harmless e \<Longrightarrow> justified vm tr e"
  by (cases e) simp_all

lemma harmless_reached: "harmless e \<Longrightarrow> reached vm S tr \<Longrightarrow> reached vm S (tr @ [e])"
  by (simp add: reached_def harmless_justified subset_insertI2)

text \<open>The calls on the overlay are harmless.\<close>

fun overlay :: "agent_effect \<Rightarrow> bool" where
  "overlay (PatchVTEPs b n) = True"
| "overlay (EnsureVXLAN vni i ip br) = True"
| "overlay (SyncFDB i es) = True"
| "overlay e = False"

lemma overlay_reached:
  assumes "io_ok overlay (\<lambda>_. True) m"
  shows "triple (reached vm S) m (\<lambda>_. reached vm S) (reached vm S)"
proof (rule tripleI)
  fix tr assume tr: "reached vm S tr"
  obtain new where new: "snd (m tr) = tr @ new" "list_all overlay new" using assms unfolding io_ok_def by blast
  have "reached vm S (tr @ new)"
    using new(2)
  proof (induction new rule: rev_induct)
    case (snoc e new)
    then have "harmless e" by (cases e) simp_all
    then show ?case using snoc harmless_reached [of e vm S "tr @ new"] by simp
  qed (simp add: tr)
  then show "reached vm S (snd (m tr))" using new(1) by simp
qed

lemma io_ok_retry:
  assumes "\<And>n. io_ok P (\<lambda>_. True) (f n)"
  shows "io_ok P (\<lambda>_. True) (retry_on_conflict n f)"
proof (induction n)
  case (Suc n)
  show ?case
    unfolding io_ok_def
  proof
    fix tr
    obtain r tr' where run: "f n tr = (r, tr')" by fastforce
    then obtain new where new: "tr' = tr @ new" "list_all P new" using assms [of n] unfolding io_ok_def by (metis snd_conv)
    obtain more where more: "snd (retry_on_conflict n f tr') = tr' @ more" "list_all P more" using Suc unfolding io_ok_def by blast
    have "snd (retry_on_conflict (Suc n) f tr) = tr @ new \<or> snd (retry_on_conflict (Suc n) f tr) = tr @ (new @ more)"
      using run new more by (auto split: sum.split error.split)
    then show "\<exists>new. snd (retry_on_conflict (Suc n) f tr) = tr @ new \<and> list_all P new \<and>
        (\<forall>x. fst (retry_on_conflict (Suc n) f tr) = Inr x \<longrightarrow> True)"
      using new(2) more(2) by (metis list_all_append)
  qed
qed (simp add: io_ok_fail)

lemma io_ok_best_effort: "io_ok P (\<lambda>_. True) m \<Longrightarrow> io_ok P (\<lambda>_. True) (best_effort m)"
  by (simp add: io_ok_def best_effort_def)

lemma io_ok_manager_call: "P e \<Longrightarrow> io_ok P (\<lambda>_. True) (manager_call f e)"
  by (auto simp: io_ok_def manager_call_def split: option.split)

lemma read_net_overlay: "io_ok overlay (\<lambda>_. True) (read_net env n v)"
  by (simp add: io_ok_def read_net_def lift_def ret_def fail_def split: sum.split)

lemma registerVTEP_overlay: "io_ok overlay (\<lambda>_. True) (registerVTEP env v ip mac)"
  unfolding registerVTEP_def by (auto intro!: io_ok_retry io_ok_seq [OF read_net_overlay] io_ok_ret io_ok_send_any)

lemma deregisterVTEP_overlay: "io_ok overlay (\<lambda>_. True) (deregisterVTEP env v)"
  unfolding io_ok_def deregisterVTEP_def read_net_def lift_def
  by (auto simp: io_run Let_def ignoreNotFound_def split: sum.split)

lemma syncNetworkFDB_overlay: "io_ok overlay (\<lambda>_. True) (syncNetworkFDB net ip mgr)"
  unfolding syncNetworkFDB_def
  by (auto intro!: io_ok_ret io_ok_seq io_ok_manager_call split: option.split prod.split)

lemma syncFDB_overlay: "io_ok overlay (\<lambda>_. True) (syncFDB env v)"
  using syncNetworkFDB_overlay unfolding io_ok_def syncFDB_def read_net_def lift_def
  by (auto simp: io_run ignoreNotFound_def split: sum.split)

lemma ensureVTEP_overlay: "io_ok overlay (\<lambda>_. True) (ensureVTEPAndFDB env v ip)"
  unfolding ensureVTEPAndFDB_def register_and_sync_def
  by (auto intro!: io_ok_ret io_ok_best_effort io_ok_seq [OF registerVTEP_overlay] syncFDB_overlay)

lemmas ensureVTEP_reached = overlay_reached [OF ensureVTEP_overlay]
lemmas deregisterVTEP_reached = overlay_reached [OF deregisterVTEP_overlay]

context quiet_agent_api
begin

lemma terminal_reached:
  assumes "ae_srv env = srv"
  shows "triple (reached vm S) (finishRunnerLaunchFailed env latest) (\<lambda>_. reached vm S) (reached vm S)"
  unfolding finishRunnerLaunchFailed_def terminal_patch_def
proof (rule triple_retry)
  fix n
  have "justified vm tr (PatchAgentVM v (failed_vm v))" if "vm_phase v \<notin> {VMPhaseFailed, VMPhaseSucceeded, VMPhaseTerminating}" for v tr
    using that by (simp add: failed_vm_def agent_transition_def)
  then have "triple (reached vm S) (send (ae_srv env) (PatchAgentVM v (failed_vm v))) (\<lambda>_. reached vm S) (reached vm S)"
    if "vm_phase v \<notin> {VMPhaseFailed, VMPhaseSucceeded, VMPhaseTerminating}" for v
    using that by (intro triple_send) (blast intro: reached_less reached_snoc)+
  then show "triple (reached vm S)
      (case latest n of Inl e \<Rightarrow> (case ignoreNotFound e of Inl er \<Rightarrow> fail er | Inr _ \<Rightarrow> ret ())
       | Inr v \<Rightarrow> if vm_phase v \<in> {VMPhaseFailed, VMPhaseSucceeded, VMPhaseTerminating} then ret ()
           else and_then (send (ae_srv env) (PatchAgentVM v (failed_vm v))) (\<lambda>_. ret ())) (\<lambda>_. reached vm S) (reached vm S)"
    by (auto intro!: triple_ret triple_fail triple_then [where R = "\<lambda>_. reached vm S"] split: sum.split)
qed

lemma maybeLaunchRunner_reached:
  assumes "ae_srv env = srv"
  shows "triple (reached vm S) (maybeLaunchRunner env latest v) (\<lambda>_. reached vm S) (reached vm S)"
proof (rule tripleI)
  fix tr assume tr: "reached vm S tr"
  have "reached vm S (snd (best_effort (finishRunnerLaunchFailed env latest) tr))"
    using tripleD [OF terminal_reached [OF assms] tr] by (simp add: best_effort_def)
  then show "reached vm S (snd (maybeLaunchRunner env latest v tr))"
    using tr by (auto simp: maybeLaunchRunner_def io_run intro: harmless_reached split: option.splits)
qed

lemma finish_reached:
  assumes "ae_srv env = srv" "agent_transition (vm_phase v) VMPhaseFailed"
  shows "triple (reached vm S) (finishFailed env v) (\<lambda>_. reached vm {}) (reached vm {})"
    "vm_phase v \<in> {VMPhaseRunning, VMPhaseSuspending} \<Longrightarrow>
       triple (reached vm S) (finishSucceeded env v) (\<lambda>_. reached vm {}) (reached vm {})"
proof -
  have event: "triple (reached vm {}) (and_then (agent_event env t r m) (\<lambda>_. ret no_requeue)) (\<lambda>_. reached vm {}) (reached vm {})" for t r m
    unfolding agent_event_def
    by (auto intro!: triple_then [where R = "\<lambda>_. reached vm {}"] triple_when triple_emit triple_ret harmless_reached)
  show "triple (reached vm S) (finishFailed env v) (\<lambda>_. reached vm {}) (reached vm {})"
    unfolding finishFailed_def using assms
    by (intro triple_then [OF send_reached] event) (simp_all add: failed_vm_def)
  show "triple (reached vm S) (finishSucceeded env v) (\<lambda>_. reached vm {}) (reached vm {})"
    if "vm_phase v \<in> {VMPhaseRunning, VMPhaseSuspending}"
    unfolding finishSucceeded_def using assms(1) that
    by (intro triple_then [OF send_reached] event) (auto simp: succeeded_vm_def agent_transition_def)
qed

end

lemma triple_then_reached:
  "triple (reached vm S) m (\<lambda>x. reached vm (R x)) (reached vm S') \<Longrightarrow> (\<And>x. triple (reached vm (R x)) (f x) (\<lambda>_. reached vm {}) (reached vm {})) \<Longrightarrow>
     triple (reached vm S) (and_then m f) (\<lambda>_. reached vm {}) (reached vm {})"
  by (rule triple_then [where R = "\<lambda>x. reached vm (R x)"], erule triple_weaken) (auto intro: reached_less)

lemma call_reached:
  assumes "\<And>tr x. reached vm S tr \<Longrightarrow> justified vm tr (e x)"
  shows "triple (reached vm S) (driver_call f e) (\<lambda>x. reached vm (insert (e x) S)) (reached vm S)"
  by (intro triple_driver_call) (auto intro: reached_snoc assms)

lemma read_reached: "triple (reached vm S) (driver_read f) (\<lambda>_. reached vm S) (reached vm S)"
  by (intro triple_driver_read)

lemma ret_reached: "triple (reached vm S) (ret x) (\<lambda>_. reached vm {}) (reached vm {})"
  by (intro triple_ret) (auto intro: reached_less)

lemma emit_reached: "harmless e \<Longrightarrow> triple (reached vm S) (emit e) (\<lambda>_. reached vm S) (reached vm S)"
  by (intro triple_emit harmless_reached)

context quiet_agent_api
begin

lemma handleStarting_reached:
  assumes "ae_srv env = srv" "vm_phase vm = VMPhaseStarting"
  shows "triple (reached vm {}) (handleStarting env vm) (\<lambda>_. reached vm {}) (reached vm {})"
  unfolding handleStarting_def using assms
  by (auto intro!: ret_reached finish_reached(1) simp: agent_transition_def split: option.split)

lemma handleScheduled_reached:
  assumes "ae_srv env = srv" "vm_phase vm = VMPhaseScheduled"
  shows "triple (reached vm {}) (handleScheduled env latest vm) (\<lambda>_. reached vm {}) (reached vm {})"
proof -
  let ?vm1 = "upd_status (\<lambda>s. s\<lparr>vt_Phase := VMPhaseStarting, vt_StartedAt := Some (ae_now env)\<rparr>) vm"
  have second: "justified vm tr (PatchAgentVM ?vm1 (started_vm state pid ?vm1))"
    if "reached vm (insert (DriverStart ?vm1 pid) S) tr" for tr state pid S
    using that by (auto simp: started_vm_def agent_transition_def reached_def)
  show ?thesis
    unfolding handleScheduled_def
    by (intro patch_reached [OF assms(1)] triple_then_reached [OF call_reached] triple_then_reached [OF read_reached]
        triple_then_reached [OF ensureVTEP_reached] triple_then_reached [OF maybeLaunchRunner_reached [OF assms(1)]] ret_reached second)
      (simp_all add: assms(2) agent_transition_def)
qed

lemma handleResuming_reached:
  assumes "ae_srv env = srv" "vm_phase vm = VMPhaseResuming"
  shows "triple (reached vm {}) (handleResuming env vm) (\<lambda>_. reached vm {}) (reached vm {})"
proof -
  have patch: "justified vm tr (PatchAgentVM vm (resumed_vm state pid vm))"
    if "reached vm (insert (DriverStart vm pid) S) tr" for tr state pid S
    using that assms(2) by (auto simp: resumed_vm_def agent_transition_def reached_def)
  have wake: "triple (reached vm S) (when_io b (and_then (emit (ClearWake k)) (\<lambda>_. emit (ResetIdle k)))) (\<lambda>_. reached vm S) (reached vm S)" for b S k
    by (auto intro!: triple_when triple_then [where R = "\<lambda>_. reached vm S"] emit_reached)
  show ?thesis
    unfolding handleResuming_def
    by (intro patch_reached [OF assms(1)] triple_then_reached [OF call_reached] triple_then_reached [OF read_reached]
        triple_then_reached [OF ensureVTEP_reached] triple_then_reached [OF wake] ret_reached patch) simp_all
qed

lemma handleSuspended_reached:
  assumes "ae_srv env = srv" "vm_phase vm = VMPhaseSuspended"
  shows "triple (reached vm {}) (handleSuspended env vm) (\<lambda>_. reached vm {}) (reached vm {})"
  unfolding handleSuspended_def using assms(2)
  by (auto intro!: ret_reached patch_reached [OF assms(1)] simp: agent_transition_def)

lemma handleTerminating_reached:
  assumes "ae_srv env = srv" "vm_phase vm = VMPhaseTerminating"
  shows "triple (reached vm {}) (handleTerminating env vm) (\<lambda>_. reached vm {}) (reached vm {})"
proof -
  have dereg: "triple (reached vm S) (when_io b (best_effort (deregisterVTEP env v))) (\<lambda>_. reached vm S) (reached vm S)" for b v S
    by (auto intro!: triple_when triple_best_effort deregisterVTEP_reached)
  have clear: "triple (reached vm {DriverStop vm}) (clearOwnership env vm) (\<lambda>_. reached vm {}) (reached vm {})"
    unfolding clearOwnership_def
    by (intro triple_then [OF send_reached] ret_reached) (auto simp: assms agent_transition_def reached_def)
  show ?thesis
    unfolding handleTerminating_def
    by (intro triple_then_reached [OF call_reached] triple_then_reached [OF dereg] triple_then_reached [OF emit_reached] clear)
      (simp_all add: assms(2))
qed

lemma handleSuspending_reached:
  assumes "ae_srv env = srv" "vm_phase vm = VMPhaseSuspending"
  shows "triple (reached vm {}) (handleSuspending env vm) (\<lambda>_. reached vm {}) (reached vm {})"
proof -
  let ?snap = "AgentSnapshot vm (suspendDirFor env vm)" and ?vm1 = "suspended_vm env vm"
  have dereg: "triple (reached vm S) (when_io b (best_effort (deregisterVTEP env v))) (\<lambda>_. reached vm S) (reached vm S)" for b v S
    by (auto intro!: triple_when triple_best_effort deregisterVTEP_reached)
  have stop: "justified vm tr (DriverStop vm)" if "reached vm {?snap} tr" for tr
    using that assms(2) by (auto simp: reached_def)
  have patch: "justified vm tr (PatchAgentVM vm ?vm1)" if "reached vm {DriverStop vm, ?snap} tr" for tr
    using that assms(2) by (auto simp: suspended_vm_def agent_transition_def reached_def)
  have register: "reached vm {} (tr @ [RegisterWake ip ?vm1])" if "reached vm (insert (PatchAgentVM vm ?vm1) S) tr" for tr ip S
    using that by (auto simp: reached_def suspended_vm_def)
  have wake: "triple (reached vm (insert (PatchAgentVM vm ?vm1) S))
      (and_then (when_io b (and_then (emit (RegisterWake ip ?vm1)) (\<lambda>_. emit (ResetIdle k)))) (\<lambda>_. ret no_requeue))
      (\<lambda>_. reached vm {}) (reached vm {})" for b ip k S
    by (intro triple_then [where R = "\<lambda>_. reached vm {}"] triple_when triple_emit ret_reached)
      (auto intro: register harmless_reached reached_less)
  show ?thesis
    unfolding handleSuspending_def Let_def
    by (auto intro!: triple_fail triple_then_reached [OF emit_reached] triple_then_reached [OF call_reached]
        triple_then_reached [OF dereg] patch_reached [OF assms(1)] wake stop patch split: option.split)
qed

lemma reattach_reached:
  assumes "ae_srv env = srv" "vm_phase v \<in> {VMPhaseRunning, VMPhaseSuspending}"
  shows "triple (reached vm {}) (reattach_or_exit env v) (\<lambda>_. reached vm {}) (reached vm {})"
proof (rule tripleI)
  fix tr assume tr: "reached vm {} tr"
  have "triple (reached vm {}) (process_exited env v) (\<lambda>_. reached vm {}) (reached vm {})"
    unfolding process_exited_def using assms(2)
    by (auto intro!: finish_reached [OF assms(1)] simp: agent_transition_def)
  from tripleD [OF this tr] have exit: "reached vm {} (snd (process_exited env v tr))" .
  have go: "triple (reached vm {}) (and_then (emit (DriverReattach v)) (\<lambda>_. and_then (when_io b (emit (ReserveIP k ip)))
      (\<lambda>_. and_then (ensureVTEPAndFDB env v i) (\<lambda>_. ret no_requeue)))) (\<lambda>_. reached vm {}) (reached vm {})" for b k ip i
    by (intro triple_then_reached [OF emit_reached] triple_then_reached [OF ensureVTEP_reached] ret_reached
        triple_then [where R = "\<lambda>_. reached vm {}"] triple_when emit_reached) auto
  have "reached vm {} (snd (and_then (emit (DriverReattach v)) (\<lambda>_. and_then (when_io b (emit (ReserveIP k ip)))
      (\<lambda>_. and_then (ensureVTEPAndFDB env v i) (\<lambda>_. ret no_requeue))) tr))" for b k ip i
    by (rule tripleD [OF go tr])
  with exit show "reached vm {} (snd (reattach_or_exit env v tr))"
    unfolding reattach_or_exit_def Let_def by (simp split: sum.split)
qed

lemma maybeSuspendIdle_reached:
  assumes "ae_srv env = srv" "vm_phase vm = VMPhaseRunning"
  shows "triple (reached vm {}) (maybeSuspendIdle env sz vm)
    (\<lambda>r tr. reached vm {} tr \<and> (vm_phase (snd r) = VMPhaseRunning \<or> vm_phase (snd r) = VMPhaseSuspending)) (reached vm {})"
proof -
  have sample: "triple (reached vm {}) (case s of Some x \<Rightarrow> when_io (b x) (emit (StoreSample k x)) | None \<Rightarrow> ret ())
      (\<lambda>_. reached vm {}) (reached vm {})" for s b k
    by (auto intro!: triple_when emit_reached triple_ret split: option.split)
  have "reached vm {} (tr @ [PatchAgentVM vm (upd_status (\<lambda>s. s\<lparr>vt_LastActivityTime := t, vt_Phase := VMPhaseSuspending\<rparr>) vm)])"
    if "reached vm {} tr" for tr t
    using that assms(2) by (simp add: reached_def agent_transition_def)
  then have patch: "triple (reached vm {}) (\<lambda>tr. case ae_srv env tr (PatchAgentVM vm
      (upd_status (\<lambda>s. s\<lparr>vt_LastActivityTime := Some t, vt_Phase := VMPhaseSuspending\<rparr>) vm)) of
        Inl e \<Rightarrow> if e = Conflict then (Inr (False, upd_status (\<lambda>s. s\<lparr>vt_LastActivityTime := Some t, vt_Phase := VMPhaseSuspending\<rparr>) vm), tr)
          else (Inl (Api e), tr)
      | Inr r \<Rightarrow> (Inr (True, r), tr @ [PatchAgentVM vm (upd_status (\<lambda>s. s\<lparr>vt_LastActivityTime := Some t, vt_Phase := VMPhaseSuspending\<rparr>) vm)]))
    (\<lambda>r tr. reached vm {} tr \<and> (vm_phase (snd r) = VMPhaseRunning \<or> vm_phase (snd r) = VMPhaseSuspending)) (reached vm {})" for t
    unfolding triple_def assms(1) by (auto split: sum.split dest: agent_answer)
  show ?thesis
    unfolding maybeSuspendIdle_def Let_def
    by (auto intro!: triple_then [OF sample] triple_fail triple_ret patch simp: assms(2) split: prod.split sum.split)
qed

lemma handleRunning_reached:
  assumes "ae_srv env = srv" "vm_phase vm = VMPhaseRunning"
  shows "triple (reached vm {}) (handleRunning env latest vm) (\<lambda>_. reached vm {}) (reached vm {})"
proof -
  have live: "triple (reached vm {}) (check_liveness env v) (\<lambda>_. reached vm {}) (reached vm {})"
    if "vm_phase v \<in> {VMPhaseRunning, VMPhaseSuspending}" for v
    unfolding check_liveness_def
    by (intro triple_then_reached [OF read_reached]) (auto intro: ret_reached reattach_reached [OF assms(1) that])
  have zero: "triple (reached vm {}) (\<lambda>tr. case maybeSuspendIdle env sz vm tr of
      (Inl e, tr') \<Rightarrow> (Inr (requeue_after d), tr')
    | (Inr (suspended, vm'), tr') \<Rightarrow> if suspended then (Inr no_requeue, tr') else check_liveness env vm' tr')
      (\<lambda>_. reached vm {}) (reached vm {})" for sz d
  proof (rule tripleI)
    fix tr assume tr: "reached vm {} tr"
    show "reached vm {} (snd (case maybeSuspendIdle env sz vm tr of (Inl e, tr') \<Rightarrow> (Inr (requeue_after d), tr')
        | (Inr (suspended, vm'), tr') \<Rightarrow> if suspended then (Inr no_requeue, tr') else check_liveness env vm' tr'))"
      using triple_run [OF maybeSuspendIdle_reached [OF assms] tr, of sz] tripleD [OF live]
      by (auto split: prod.splits sum.splits)
  qed
  show ?thesis
    unfolding handleRunning_def using assms(2)
    by (intro triple_then_reached [OF maybeLaunchRunner_reached [OF assms(1)]])
      (auto intro!: patch_reached [OF assms(1)] ret_reached live zero simp: agent_transition_def)
qed

lemma agent_Reconcile_reached:
  assumes "ae_srv env = srv"
  shows "triple (reached vm {}) (agent_Reconcile env latest (Inr vm)) (\<lambda>_. reached vm {}) (reached vm {})"
  unfolding agent_Reconcile_def sum.case
  by (auto intro!: ret_reached handleStarting_reached handleScheduled_reached handleRunning_reached handleTerminating_reached
      handleSuspending_reached handleSuspended_reached handleResuming_reached assms split: VMPhase.split)

end

text \<open>C27. The agent's calls come in a safe order, whatever the reads, the driver and the other services answer.
  It handles only VMs of its node, changes nothing but the status, and follows the phases; a VM becomes
  Running only with the process that the driver started before; in a suspension the process is
  stopped only after its snapshot succeeded, and Suspended is written only after both, with the
  directory of that snapshot; ownership of the node is given up only by a terminating VM whose
  process was stopped before; a wake-up is registered only for a VM stored as Suspended.\<close>

theorem agent_calls_in_order:
  assumes "quiet_agent_api (ae_srv env)" and "snd (agent_Reconcile env latest (Inr vm) []) = pre @ e # post"
  shows "justified vm pre e \<and> vm_node vm = ae_NodeName env"
proof -
  have "triple (reached vm {}) (agent_Reconcile env latest (Inr vm)) (\<lambda>_. reached vm {}) (reached vm {})"
    by (rule quiet_agent_api.agent_Reconcile_reached [OF assms(1) refl])
  from tripleD [OF this, of "[]"] have "lawful vm (pre @ e # post)" using assms(2) by (simp add: reached_def)
  then have "justified vm (take (length pre) (pre @ e # post)) ((pre @ e # post) ! length pre)"
    unfolding lawful_def by (metis add_Suc_right length_Cons length_append less_add_Suc1)
  moreover have "vm_node vm = ae_NodeName env"
    using assms(2) by (cases "vm_node vm = ae_NodeName env") (auto simp: agent_Reconcile_def ret_def)
  ultimately show ?thesis by simp
qed

end
