(* ===== verification/Stub_Driver.thy ===== *)
theory Stub_Driver
  imports Agent
begin

text \<open>
  The stub driver (agent/stub\_driver.go), the contract of a driver as the locale \<open>vm_driver_law\<close> with its
  interpretation on it, and what the agent's cycles achieve over such a driver: a VM that is
  suspended and resumed runs again, and a suspension that is interrupted between stopping the
  process and storing the result cannot be finished.
\<close>

section \<open>The stub driver\<close>

text \<open>agent/stub\_driver.go: VMs are entries of a map, with a process id from a counter and an address from
  it. The map after a sequence of calls starts empty. The errors that tests inject are not modelled.\<close>

definition stub_ip :: "int \<Rightarrow> string" where
  "stub_ip pid = ''192.168.100.'' @ itoa (nat (pid mod 254 + 1))"

fun stub_states :: "agent_effect list \<Rightarrow> string \<rightharpoonup> int \<times> string" where
  "stub_states [] = Map.empty"
| "stub_states (e # tr) =
     (case e of
        DriverStop vm \<Rightarrow> (stub_states tr)(vmKey vm := None)
      | DriverStart vm pid \<Rightarrow> (stub_states tr)(vmKey vm \<mapsto> (pid, stub_ip pid))
      | _ \<Rightarrow> stub_states tr)"

fun is_start :: "agent_effect \<Rightarrow> bool" where
  "is_start (DriverStart vm pid) = True"
| "is_start e = False"

definition stub_driver :: "bool \<Rightarrow> vm_driver" where
  "stub_driver isAliveResult =
     \<lparr>dr_Start = (\<lambda>tr vm. Inr (int (length (filter is_start tr)) + 1 + 10000)),
      dr_Stop = (\<lambda>tr vm. Inr ()),
      dr_Inspect = (\<lambda>tr vm. Inr (case stub_states (rev tr) (vmKey vm) of
          None \<Rightarrow> \<lparr>st_Running = False, st_IP = '''', st_PID = 0\<rparr>
        | Some (pid, ip) \<Rightarrow> \<lparr>st_Running = True, st_IP = ip, st_PID = pid\<rparr>)),
      dr_Snapshot = (\<lambda>tr vm dir. case stub_states (rev tr) (vmKey vm) of
          None \<Rightarrow> Inl (''VM '' @ vm_namespace vm @ ''/'' @ vm_name vm @ '' is not running'')
        | Some _ \<Rightarrow> Inr ()),
      dr_IsAlive = (\<lambda>tr pid. isAliveResult),
      dr_Reattach = (\<lambda>tr vm. Inr ()),
      dr_vsock = None\<rparr>"

text \<open>What the agent may expect of a driver (the comments of driver.go).\<close>

locale vm_driver_law =
  fixes d :: vm_driver and running :: "agent_effect list \<Rightarrow> string \<Rightarrow> bool"
  assumes start_ok: "\<exists>pid. dr_Start d tr vm = Inr pid"
    and stop_ok: "dr_Stop d tr vm = Inr ()"
    and inspect_ok: "\<exists>st. dr_Inspect d tr vm = Inr st \<and> (st_Running st \<longleftrightarrow> running tr (vmKey vm))"
    and snapshot_ok: "running tr (vmKey vm) \<Longrightarrow> dr_Snapshot d tr vm dir = Inr ()"
    and snapshot_stopped: "\<not> running tr (vmKey vm) \<Longrightarrow> \<exists>m. dr_Snapshot d tr vm dir = Inl m"
    and running_start [simp]: "running (tr @ [DriverStart vm pid]) k \<longleftrightarrow> k = vmKey vm \<or> running tr k"
    and running_stop [simp]: "running (tr @ [DriverStop vm]) k \<longleftrightarrow> k \<noteq> vmKey vm \<and> running tr k"
    and running_other: "\<not> is_start e \<Longrightarrow> (\<And>vm. e \<noteq> DriverStop vm) \<Longrightarrow> running (tr @ [e]) k = running tr k"

interpretation stub: vm_driver_law "stub_driver isAliveResult" "\<lambda>tr k. stub_states (rev tr) k \<noteq> None"
proof unfold_locales
  fix e :: agent_effect and tr k assume "\<not> is_start e" "\<And>vm. e \<noteq> DriverStop vm"
  then show "(stub_states (rev (tr @ [e])) k \<noteq> None) = (stub_states (rev tr) k \<noteq> None)" by (cases e) auto
qed (auto simp: stub_driver_def split: option.splits)


section \<open>Suspend and resume\<close>

fun quiet_agent_server :: "(agent_effect, ImpVM) server" where
  "quiet_agent_server tr (PatchAgentVM b v) = Inr v"
| "quiet_agent_server tr e = Inr zero_vm"

interpretation quiet_agent: quiet_agent_api quiet_agent_server
  by unfold_locales simp

text \<open>The VM as it is stored after some calls, and a reconcile of the stored VM that goes on from the calls
  so far.\<close>

fun stored_vm :: "ImpVM \<Rightarrow> agent_effect list \<Rightarrow> ImpVM" where
  "stored_vm vm [] = vm"
| "stored_vm vm (e # tr) = (case e of PatchAgentVM b v \<Rightarrow> stored_vm v tr | _ \<Rightarrow> stored_vm vm tr)"

definition agent_cycle :: "agent_env \<Rightarrow> ImpVM \<times> agent_effect list \<Rightarrow> ImpVM \<times> agent_effect list" where
  "agent_cycle env s =
     (let tr' = snd (agent_Reconcile env (\<lambda>_. Inl NotFound) (Inr (fst s)) (snd s)) in
      (stored_vm (fst s) (drop (length (snd s)) tr'), tr'))"

lemma stored_vm_append [simp]: "stored_vm vm (xs @ ys) = stored_vm (stored_vm vm xs) ys"
  by (induction xs arbitrary: vm) (auto split: agent_effect.split)

lemma stored_vm_overlay: "list_all overlay xs \<Longrightarrow> stored_vm vm xs = vm"
proof (induction xs)
  case (Cons e xs)
  then show ?case by (cases e) simp_all
qed simp

definition set_desired :: "VMDesiredState \<Rightarrow> ImpVM \<Rightarrow> ImpVM" where
  "set_desired d = upd_spec (\<lambda>s. s\<lparr>vs_DesiredState := d\<rparr>)"

lemma dereg_run:
  "\<exists>new. when_io b (best_effort (deregisterVTEP env v)) tr = (Inr (), tr @ new) \<and> list_all overlay new"
proof -
  obtain new where "snd (deregisterVTEP env v tr) = tr @ new" "list_all overlay new"
    using deregisterVTEP_overlay unfolding io_ok_def by blast
  then show ?thesis by (cases b) (auto simp: io_run best_effort_def intro: exI [of _ "[]"])
qed

lemma ensure_run: "\<exists>new. ensureVTEPAndFDB env v ip tr = (Inr (), tr @ new) \<and> list_all overlay new"
proof -
  obtain new where new: "snd (ensureVTEPAndFDB env v ip tr) = tr @ new" "list_all overlay new"
    using ensureVTEP_overlay unfolding io_ok_def by blast
  moreover have "fst (ensureVTEPAndFDB env v ip tr) = Inr ()"
    by (simp add: ensureVTEPAndFDB_def register_and_sync_def best_effort_def ret_def)
  ultimately show ?thesis by (metis prod.collapse)
qed

context vm_driver_law
begin

lemma running_overlay: "list_all overlay new \<Longrightarrow> running (tr @ new) k = running tr k"
proof (induction new rule: rev_induct)
  case (snoc e new)
  then have "\<not> is_start e" "\<And>vm. e \<noteq> DriverStop vm" by (cases e; simp)+
  then show ?case using snoc running_other [of e "tr @ new"] by simp
qed simp

lemma suspend_cycle:
  assumes "ae_srv env = quiet_agent_server" "ae_driver env = d" "ae_mkdir env (suspendDirFor env vm) = None" "ae_sz env = None"
    and "vm_node vm = ae_NodeName env" "vm_phase vm = VMPhaseSuspending" "running tr (vmKey vm)"
  shows "\<exists>tr'. agent_cycle env (vm, tr) = (suspended_vm env vm, tr') \<and> \<not> running tr' (vmKey vm)"
proof -
  let ?dir = "suspendDirFor env vm"
  let ?tr1 = "tr @ [MkdirAllDir ?dir, AgentSnapshot vm ?dir]"
  have up: "running (tr @ [MkdirAllDir ?dir]) (vmKey vm)" "running ?tr1 (vmKey vm)"
    using assms(7) running_other [of "MkdirAllDir ?dir" tr] running_other [of "AgentSnapshot vm ?dir" "tr @ [MkdirAllDir ?dir]"] by simp_all
  obtain new where new: "when_io (vs_NetworkRef (vm_Spec vm) \<noteq> None \<and> vt_IP (vm_Status vm) \<noteq> '''' \<and>
      vs_DesiredState (vm_Spec vm) \<noteq> VMDesiredStateScaleToZero) (best_effort (deregisterVTEP env vm)) ?tr1 = (Inr (), ?tr1 @ new)"
      "list_all overlay new"
    using dereg_run by blast
  have run: "agent_Reconcile env (\<lambda>_. Inl NotFound) (Inr vm) tr =
      (Inr no_requeue, ?tr1 @ new @ [DriverStop vm, PatchAgentVM vm (suspended_vm env vm)])"
    using new(1) up assms(1-6) snapshot_ok [OF up(1)] stop_ok
    by (simp add: agent_Reconcile_def handleSuspending_def Let_def io_run driver_call_def patch_or_requeue_def)
  have "\<not> running ((?tr1 @ new) @ [DriverStop vm] @ [PatchAgentVM vm (suspended_vm env vm)]) (vmKey vm)"
    using running_other [of "PatchAgentVM vm (suspended_vm env vm)" "(?tr1 @ new) @ [DriverStop vm]"] running_stop [of "?tr1 @ new"] by simp
  then show ?thesis
    using run stored_vm_overlay [OF new(2)] by (simp add: agent_cycle_def)
qed

lemma resume_cycle:
  assumes "ae_srv env = quiet_agent_server" "ae_driver env = d" "ae_sz env = None"
    and "vm_node vm = ae_NodeName env" "vm_phase vm = VMPhaseResuming"
  shows "\<exists>state pid tr'. agent_cycle env (vm, tr) = (resumed_vm state pid vm, tr') \<and> running tr' (vmKey vm) \<and> st_Running state"
proof -
  obtain pid where pid: "dr_Start d tr vm = Inr pid" using start_ok by blast
  let ?tr1 = "tr @ [DriverStart vm pid]"
  obtain state where state: "dr_Inspect d ?tr1 vm = Inr state" "st_Running state" using inspect_ok [of ?tr1 vm] by auto
  let ?vm = "resumed_vm state pid vm"
  let ?tr2 = "?tr1 @ [PatchAgentVM vm ?vm]"
  obtain new where new: "ensureVTEPAndFDB env ?vm (st_IP state) ?tr2 = (Inr (), ?tr2 @ new)" "list_all overlay new"
    using ensure_run by blast
  have "agent_Reconcile env (\<lambda>_. Inl NotFound) (Inr vm) tr = (Inr no_requeue, ?tr2 @ new)"
    using pid state new(1) assms
    by (simp add: agent_Reconcile_def handleResuming_def io_run driver_call_def driver_read_def patch_or_requeue_def)
  moreover have "running (?tr2 @ new) (vmKey vm)"
    using running_overlay [OF new(2), of ?tr2] running_other [of "PatchAgentVM vm ?vm" ?tr1] running_start [of tr] by simp
  ultimately show ?thesis
    using state(2) stored_vm_overlay [OF new(2)] by (auto simp: agent_cycle_def)
qed

lemma flip_cycle:
  assumes "ae_srv env = quiet_agent_server" "ae_driver env = d" "vm_node vm = ae_NodeName env"
    and "vm_phase vm = VMPhaseRunning \<and> vs_DesiredState (vm_Spec vm) = VMDesiredStateSuspended \<and>
        vs_RunnerConfigSecret (vm_Spec vm) = '''' \<and> p = VMPhaseSuspending \<or>
      vm_phase vm = VMPhaseSuspended \<and> vs_DesiredState (vm_Spec vm) = VMDesiredStateRunning \<and> p = VMPhaseResuming"
  shows "\<exists>tr'. agent_cycle env (vm, tr) = (upd_status (\<lambda>s. s\<lparr>vt_Phase := p\<rparr>) vm, tr') \<and> (\<forall>k. running tr' k = running tr k)"
proof -
  let ?e = "PatchAgentVM vm (upd_status (\<lambda>s. s\<lparr>vt_Phase := p\<rparr>) vm)"
  have "agent_Reconcile env (\<lambda>_. Inl NotFound) (Inr vm) tr = (Inr no_requeue, tr @ [?e])"
    using assms by (auto simp: agent_Reconcile_def handleRunning_def handleSuspended_def maybeLaunchRunner_def io_run patch_or_requeue_def)
  then show ?thesis using running_other [of ?e tr] by (simp add: agent_cycle_def)
qed

lemma suspend_resume:
  assumes "ae_srv env = quiet_agent_server" "ae_driver env = d" "ae_mkdir env (suspendDirFor env vm) = None" "ae_sz env = None"
    and "vm_node vm = ae_NodeName env" "vm_phase vm = VMPhaseRunning" "vs_DesiredState (vm_Spec vm) = VMDesiredStateSuspended"
    and "vs_RunnerConfigSecret (vm_Spec vm) = ''''" "vt_SuspendSnapshotPath (vm_Status vm) = ''''" "vt_SuspendedAt (vm_Status vm) = None"
    and "running tr (vmKey vm)"
    and "s2 = agent_cycle env (agent_cycle env (vm, tr))"
    and "s4 = agent_cycle env (agent_cycle env (set_desired VMDesiredStateRunning (fst s2), snd s2))"
  shows "vm_phase (fst s2) = VMPhaseSuspended \<and> \<not> running (snd s2) (vmKey vm) \<and> running (snd s4) (vmKey vm) \<and>
    (\<exists>ip pid. fst s4 = upd_status (\<lambda>s. s\<lparr>vt_IP := ip, vt_RuntimePID := pid\<rparr>) (set_desired VMDesiredStateRunning vm))"
proof -
  let ?vm1 = "upd_status (\<lambda>s. s\<lparr>vt_Phase := VMPhaseSuspending\<rparr>) vm"
  have same: "suspendDirFor env ?vm1 = suspendDirFor env vm" "vmKey ?vm1 = vmKey vm" by (simp_all add: suspendDirFor_def vmKey_def)
  obtain tr1 where 1: "agent_cycle env (vm, tr) = (?vm1, tr1)" "running tr1 (vmKey vm)"
    using flip_cycle [OF assms(1,2,5)] assms(6-8,11) by blast
  obtain tr2 where 2: "s2 = (suspended_vm env ?vm1, tr2)" "\<not> running tr2 (vmKey vm)"
    using suspend_cycle [OF assms(1,2), of ?vm1 tr1] assms(3-5,12) 1 same by auto
  let ?vm2 = "set_desired VMDesiredStateRunning (suspended_vm env ?vm1)"
  let ?vm3 = "upd_status (\<lambda>s. s\<lparr>vt_Phase := VMPhaseResuming\<rparr>) ?vm2"
  have vm2: "vm_node ?vm2 = ae_NodeName env" "vm_phase ?vm2 = VMPhaseSuspended" "vs_DesiredState (vm_Spec ?vm2) = VMDesiredStateRunning"
    "vm_node ?vm3 = ae_NodeName env" "vm_phase ?vm3 = VMPhaseResuming" "vmKey ?vm3 = vmKey vm"
    using assms(5) by (simp_all add: set_desired_def suspended_vm_def vmKey_def)
  obtain tr3 where 3: "agent_cycle env (?vm2, tr2) = (?vm3, tr3)"
    using flip_cycle [OF assms(1,2) vm2(1)] vm2(2,3) by blast
  obtain state pid tr4 where 4: "s4 = (resumed_vm state pid ?vm3, tr4)" "running tr4 (vmKey vm)"
    using resume_cycle [OF assms(1,2,4) vm2(4,5), of tr3] 2(1) 3 assms(13) vm2(6) by auto
  have "resumed_vm state pid ?vm3 =
      upd_status (\<lambda>s. s\<lparr>vt_IP := st_IP state, vt_RuntimePID := pid\<rparr>) (set_desired VMDesiredStateRunning vm)"
    using assms(6,9,10) by (simp add: resumed_vm_def set_desired_def suspended_vm_def upd_status_def upd_spec_def)
  then show ?thesis using 2 4 vm2(2) by (auto simp: set_desired_def)
qed

lemma suspending_stuck:
  assumes "ae_driver env = d" "vm_node vm = ae_NodeName env" "vm_phase vm = VMPhaseSuspending" "\<not> running tr (vmKey vm)"
  shows "fst ((agent_cycle env ^^ n) (vm, tr)) = vm \<and> \<not> running (snd ((agent_cycle env ^^ n) (vm, tr))) (vmKey vm)"
proof (induction n)
  case (Suc n)
  obtain tr1 where tr1: "(agent_cycle env ^^ n) (vm, tr) = (vm, tr1)" "\<not> running tr1 (vmKey vm)"
    using Suc by (metis prod.collapse)
  let ?tr2 = "tr1 @ [MkdirAllDir (suspendDirFor env vm)]"
  have "\<not> running ?tr2 (vmKey vm)" using tr1(2) running_other [of "MkdirAllDir (suspendDirFor env vm)" tr1] by simp
  moreover obtain m where "dr_Snapshot d ?tr2 vm (suspendDirFor env vm) = Inl m" using snapshot_stopped calculation by blast
  ultimately have "fst (agent_cycle env (vm, tr1)) = vm \<and> \<not> running (snd (agent_cycle env (vm, tr1))) (vmKey vm)"
    using tr1(2) assms(1-3)
    by (auto simp: agent_cycle_def agent_Reconcile_def handleSuspending_def Let_def io_run driver_call_def split: option.split)
  then show ?case using tr1(1) by simp
qed (simp add: assms(4))

lemma interrupted_suspend:
  assumes "ae_driver env = d" "ae_mkdir env (suspendDirFor env vm) = None"
    and "vm_node vm = ae_NodeName env" "vm_phase vm = VMPhaseSuspending" "running tr (vmKey vm)"
    and "\<And>t. \<exists>er. ae_srv env t (PatchAgentVM vm (suspended_vm env vm)) = Inl er"
  shows "fst ((agent_cycle (env\<lparr>ae_srv := srv\<rparr>) ^^ n) (agent_cycle env (vm, tr))) = vm"
proof -
  let ?dir = "suspendDirFor env vm"
  let ?tr1 = "tr @ [MkdirAllDir ?dir, AgentSnapshot vm ?dir]"
  have up: "running (tr @ [MkdirAllDir ?dir]) (vmKey vm)" "running ?tr1 (vmKey vm)"
    using assms(5) running_other [of "MkdirAllDir ?dir" tr] running_other [of "AgentSnapshot vm ?dir" "tr @ [MkdirAllDir ?dir]"] by simp_all
  obtain new where new: "when_io (vs_NetworkRef (vm_Spec vm) \<noteq> None \<and> vt_IP (vm_Status vm) \<noteq> '''' \<and>
      vs_DesiredState (vm_Spec vm) \<noteq> VMDesiredStateScaleToZero) (best_effort (deregisterVTEP env vm)) ?tr1 = (Inr (), ?tr1 @ new)"
      "list_all overlay new"
    using dereg_run by blast
  let ?tr2 = "(?tr1 @ new) @ [DriverStop vm]"
  obtain er where "ae_srv env ?tr2 (PatchAgentVM vm (suspended_vm env vm)) = Inl er" using assms(6) by blast
  then have "snd (agent_Reconcile env (\<lambda>_. Inl NotFound) (Inr vm) tr) = ?tr2"
    using new(1) up assms(1-4) snapshot_ok [OF up(1)] stop_ok
    by (simp add: agent_Reconcile_def handleSuspending_def Let_def io_run driver_call_def patch_or_requeue_def)
  then have "agent_cycle env (vm, tr) = (vm, ?tr2)" using stored_vm_overlay [OF new(2)] by (simp add: agent_cycle_def)
  moreover have "\<not> running ?tr2 (vmKey vm)" using running_stop [of "?tr1 @ new" vm] by blast
  ultimately show ?thesis using suspending_stuck [of "env\<lparr>ae_srv := srv\<rparr>" vm ?tr2 n] assms(1,3,4) by simp
qed

end



definition example_agent_env :: agent_env where
  "example_agent_env = \<lparr>ae_NodeName = ''n1'', ae_NodeIP = '''', ae_driver = stub_driver False, ae_srv = quiet_agent_server,
     ae_netsrv = (\<lambda>_ _. Inr ()), ae_net = (\<lambda>_ _ _ _. Inl NotFound), ae_attempts = 5, ae_backoff_attempts = 4, ae_manager = None,
     ae_alloc = True, ae_mkdir = (\<lambda>_. None), ae_StartTimeout = 0, ae_RetryInterval = 0, ae_recorder = False, ae_SuspendDir = '''',
     ae_sz = None, ae_now = 0\<rparr>"

definition example_agent_vm :: "VMPhase \<Rightarrow> ImpVM" where
  "example_agent_vm p = \<lparr>vm_Meta = zero_meta\<lparr>om_Name := ''vm'', om_Namespace := ''default''\<rparr>,
     vm_Spec = zero_vm_spec\<lparr>vs_NodeName := ''n1'', vs_DesiredState := VMDesiredStateSuspended\<rparr>,
     vm_Status = zero_vm_status\<lparr>vt_Phase := p, vt_NodeName := ''n1''\<rparr>\<rparr>"




theorem agent_calls_in_order_witness:
  "\<exists>pre post. snd (agent_Reconcile example_agent_env (\<lambda>_. Inl NotFound) (Inr (example_agent_vm VMPhaseTerminating)) []) =
      pre @ DriverStop (example_agent_vm VMPhaseTerminating) # post \<and>
    justified (example_agent_vm VMPhaseTerminating) pre (DriverStop (example_agent_vm VMPhaseTerminating))"
proof -
  have run: "snd (agent_Reconcile example_agent_env (\<lambda>_. Inl NotFound) (Inr (example_agent_vm VMPhaseTerminating)) []) =
      [] @ DriverStop (example_agent_vm VMPhaseTerminating) #
        tl (snd (agent_Reconcile example_agent_env (\<lambda>_. Inl NotFound) (Inr (example_agent_vm VMPhaseTerminating)) []))"
    by (simp add: agent_Reconcile_def handleTerminating_def clearOwnership_def example_agent_env_def example_agent_vm_def
        stub_driver_def io_run driver_call_def zero_vm_spec_def)
  have "quiet_agent_api (ae_srv example_agent_env)"
    using quiet_agent.quiet_agent_api_axioms by (simp add: example_agent_env_def)
  then show ?thesis using agent_calls_in_order [OF _ run] run by blast
qed

end
