(* ===== verification/Webhooks.thy ===== *)
theory Webhooks
  imports ImpVM_Controller
begin

text \<open>
  The admission webhooks of ImpVM, ImpVMClass and ImpVMTemplate (webhook/v1alpha1): defaults, validation on
  create and on update, and an API server that asks them. A webhook's client is None when it was
  built without one; field errors are pairs of the path and the message.
\<close>

section \<open>ImpVM\<close>

type_synonym field_errors = "(string \<times> string) list"

record webhook_client =
  wc_template :: "string \<Rightarrow> string \<Rightarrow> api_error + ImpVMTemplateSpec"
  wc_class :: "string \<Rightarrow> api_error + ImpVMClassSpec"

definition mergeExpireAfter :: "webhook_client option \<Rightarrow> ImpVM \<Rightarrow> ImpVM" where
  "mergeExpireAfter c vm =
     (case (vs_ExpireAfter (vm_Spec vm), vs_TemplateRef (vm_Spec vm), c) of
        (None, Some t, Some cl) \<Rightarrow>
          (case wc_template cl (vm_namespace vm) t of
             Inl _ \<Rightarrow> vm
           | Inr tpl \<Rightarrow> (case ts_ExpireAfter tpl of Some d \<Rightarrow> upd_spec (\<lambda>s. s\<lparr>vs_ExpireAfter := Some d\<rparr>) vm | None \<Rightarrow> vm))
      | _ \<Rightarrow> vm)"

definition set_policy :: "RestartPolicy option \<Rightarrow> ImpVM \<Rightarrow> ImpVM" where
  "set_policy p = upd_spec (\<lambda>s. s\<lparr>vs_RestartPolicy := p\<rparr>)"

definition mergeRestartPolicy :: "webhook_client option \<Rightarrow> ImpVM \<Rightarrow> ImpVM" where
  "mergeRestartPolicy c vm =
     (case (vs_RestartPolicy (vm_Spec vm), c) of
        (None, Some cl) \<Rightarrow>
          (case vs_TemplateRef (vm_Spec vm) of
             Some t \<Rightarrow>
               (case wc_template cl (vm_namespace vm) t of
                  Inl _ \<Rightarrow> vm
                | Inr tpl \<Rightarrow>
                    (case ts_RestartPolicy tpl of
                       Some p \<Rightarrow> set_policy (Some p) vm
                     | None \<Rightarrow>
                         (case wc_class cl (ts_ClassRef tpl) of Inl _ \<Rightarrow> vm | Inr cls \<Rightarrow> set_policy (cs_RestartPolicy cls) vm)))
           | None \<Rightarrow>
               (case vs_ClassRef (vm_Spec vm) of
                  Some n \<Rightarrow> (case wc_class cl n of Inl _ \<Rightarrow> vm | Inr cls \<Rightarrow> set_policy (cs_RestartPolicy cls) vm)
                | None \<Rightarrow> vm))
      | _ \<Rightarrow> vm)"

definition vm_Default :: "webhook_client option \<Rightarrow> ImpVM \<Rightarrow> ImpVM" where
  "vm_Default c vm =
     mergeRestartPolicy c (mergeExpireAfter c
       (if vs_Lifecycle (vm_Spec vm) = VMLifecycleUnset
        then upd_spec (\<lambda>s. s\<lparr>vs_Lifecycle := VMLifecycleEphemeral\<rparr>) vm else vm))"

definition expire_errors :: "int option \<Rightarrow> field_errors" where
  "expire_errors e =
     (case e of
        Some d \<Rightarrow> if d < 0 \<or> 0 < d \<and> d < seconds 60
          then [(''spec.expireAfter'', ''expireAfter must be 0 (disabled) or at least 60s'')] else []
      | None \<Rightarrow> [])"

definition validateImpVM :: "ImpVM \<Rightarrow> field_errors" where
  "validateImpVM vm =
     (let hasTemplate = vs_TemplateRef (vm_Spec vm) \<noteq> None; hasClass = vs_ClassRef (vm_Spec vm) \<noteq> None in
      (if hasTemplate \<and> hasClass then [(''spec.classRef'', ''classRef and templateRef are mutually exclusive'')]
       else if \<not> hasTemplate \<and> \<not> hasClass then [(''spec.classRef'', ''exactly one of classRef or templateRef must be set'')]
       else if hasClass \<and> \<not> hasTemplate \<and> vs_Image (vm_Spec vm) = ''''
         then [(''spec.image'', ''image is required when classRef is set without templateRef'')]
       else []) @
      expire_errors (vs_ExpireAfter (vm_Spec vm)) @
      (case vs_IdleTimeout (vm_Spec vm) of
         Some d \<Rightarrow> if d < seconds 10 then [(''spec.idleTimeout'', ''idleTimeout must be at least 10s'')] else []
       | None \<Rightarrow> []))"

definition scaleToZeroWarnings :: "ImpVM \<Rightarrow> string list" where
  "scaleToZeroWarnings vm =
     (if vs_DesiredState (vm_Spec vm) = VMDesiredStateScaleToZero
      then [''desiredState=ScaleToZero is experimental: the wake-on-traffic path is not yet hardware-validated and requires the agent's IMP_SCALE_TO_ZERO opt-in'']
      else [])"

definition vm_ValidateCreate :: "ImpVM \<Rightarrow> string list \<times> field_errors" where
  "vm_ValidateCreate vm = (scaleToZeroWarnings vm, validateImpVM vm)"

definition vm_ValidateUpdate :: "ImpVM \<Rightarrow> ImpVM \<Rightarrow> string list \<times> field_errors" where
  "vm_ValidateUpdate oldVM newVM =
     (scaleToZeroWarnings newVM,
      validateImpVM newVM @
      (if vm_node oldVM \<noteq> '''' \<and> vm_node newVM \<noteq> vm_node oldVM
       then [(''spec.nodeName'', ''nodeName is immutable once set'')] else []))"

definition vm_ValidateDelete :: "ImpVM \<Rightarrow> string list \<times> field_errors" where
  "vm_ValidateDelete vm = ([], [])"

section \<open>ImpVMTemplate and ImpVMClass\<close>

definition validateImpVMTemplate :: "ImpVMTemplateSpec \<Rightarrow> field_errors" where
  "validateImpVMTemplate tmpl =
     (if ts_ClassRef tmpl = '''' then [(''spec.classRef.name'', ''classRef.name is required'')] else []) @
     expire_errors (ts_ExpireAfter tmpl)"

definition template_ValidateCreate :: "ImpVMTemplateSpec \<Rightarrow> string list \<times> field_errors" where
  "template_ValidateCreate tmpl = ([], validateImpVMTemplate tmpl)"

definition template_ValidateUpdate :: "ImpVMTemplateSpec \<Rightarrow> ImpVMTemplateSpec \<Rightarrow> string list \<times> field_errors" where
  "template_ValidateUpdate oldTmpl newTmpl = ([], validateImpVMTemplate newTmpl)"

definition class_ValidateUpdate :: "ImpVMClassSpec \<Rightarrow> ImpVMClassSpec \<Rightarrow> string list \<times> field_errors" where
  "class_ValidateUpdate oldClass newClass = ([], [])"

section \<open>Defaults\<close>

lemma validate_expire_agrees:
  "expire_errors e = [] \<longleftrightarrow> (case e of None \<Rightarrow> True | Some d \<Rightarrow> d = 0 \<or> seconds 60 \<le> d)"
  by (auto simp: expire_errors_def seconds_def split: option.split)


lemma set_policy_sel [simp]:
  "vs_RestartPolicy (vm_Spec (set_policy p vm)) = p" "vs_TemplateRef (vm_Spec (set_policy p vm)) = vs_TemplateRef (vm_Spec vm)"
  "vs_ExpireAfter (vm_Spec (set_policy p vm)) = vs_ExpireAfter (vm_Spec vm)" "vm_Meta (set_policy p vm) = vm_Meta vm"
  by (simp_all add: set_policy_def)

lemma mergeExpireAfter_sel [simp]:
  "vs_RestartPolicy (vm_Spec (mergeExpireAfter c vm)) = vs_RestartPolicy (vm_Spec vm)"
  "vs_TemplateRef (vm_Spec (mergeExpireAfter c vm)) = vs_TemplateRef (vm_Spec vm)"
  "vs_ClassRef (vm_Spec (mergeExpireAfter c vm)) = vs_ClassRef (vm_Spec vm)"
  "vs_Lifecycle (vm_Spec (mergeExpireAfter c vm)) = vs_Lifecycle (vm_Spec vm)"
  "vm_Meta (mergeExpireAfter c vm) = vm_Meta vm"
  by (simp_all add: mergeExpireAfter_def split: option.split sum.split)

lemma mergeRestartPolicy_cases:
  "mergeRestartPolicy c vm = vm \<or> vs_RestartPolicy (vm_Spec vm) = None \<and> (\<exists>p. mergeRestartPolicy c vm = set_policy p vm)"
  by (cases "vs_RestartPolicy (vm_Spec vm)"; cases c; cases "vs_TemplateRef (vm_Spec vm)")
    (auto simp: mergeRestartPolicy_def split: option.split sum.split)

lemma mergeExpireAfter_cases:
  assumes "\<forall>cl ns n t. c = Some cl \<longrightarrow> wc_template cl ns n = Inr t \<longrightarrow> validateImpVMTemplate t = []"
  shows "mergeExpireAfter c vm = vm \<or> (\<exists>d. expire_errors (Some d) = [] \<and>
           mergeExpireAfter c vm = upd_spec (\<lambda>s. s\<lparr>vs_ExpireAfter := Some d\<rparr>) vm)"
proof (cases "\<exists>cl t. c = Some cl \<and> vs_TemplateRef (vm_Spec vm) = Some t")
  case True
  then obtain cl t where "c = Some cl" "vs_TemplateRef (vm_Spec vm) = Some t" by blast
  then show ?thesis using assms [rule_format, of cl "vm_namespace vm" t]
    by (simp add: mergeExpireAfter_def validateImpVMTemplate_def split: option.split sum.split) metis
next
  case False
  then show ?thesis by (auto simp: mergeExpireAfter_def split: option.split)
qed

text \<open>A VM that passes validation before the defaults passes it afterwards, if the templates it can
  inherit from passed theirs; and a webhook without a client inherits nothing.\<close>

lemma defaults_keep_validity:
  assumes "validateImpVM vm = []"
    and tpl: "\<forall>cl ns n t. c = Some cl \<longrightarrow> wc_template cl ns n = Inr t \<longrightarrow> validateImpVMTemplate t = []"
  shows "validateImpVM (vm_Default c vm) = []"
proof -
  have policy: "validateImpVM (mergeRestartPolicy c v) = validateImpVM v" for v
  proof -
    have "validateImpVM (set_policy p v) = validateImpVM v" for p by (simp add: validateImpVM_def set_policy_def Let_def cong: if_cong)
    then show ?thesis using mergeRestartPolicy_cases [of c v] by metis
  qed
  have expire: "validateImpVM v = [] \<Longrightarrow> validateImpVM (mergeExpireAfter c v) = []" for v
  proof -
    assume "validateImpVM v = []"
    then have "expire_errors (Some d) = [] \<Longrightarrow> validateImpVM (upd_spec (\<lambda>s. s\<lparr>vs_ExpireAfter := Some d\<rparr>) v) = []" for d
      by (simp add: validateImpVM_def Let_def cong: if_cong)
    with \<open>validateImpVM v = []\<close> mergeExpireAfter_cases [OF tpl, of v] show ?thesis by fastforce
  qed
  have "validateImpVM (upd_spec (\<lambda>s. s\<lparr>vs_Lifecycle := VMLifecycleEphemeral\<rparr>) vm) = []"
    using assms(1) by (simp add: validateImpVM_def Let_def cong: if_cong)
  then show ?thesis using assms(1) by (simp add: vm_Default_def policy expire)
qed

lemma no_client_no_inheritance:
  "vs_RestartPolicy (vm_Spec (vm_Default None vm)) = vs_RestartPolicy (vm_Spec vm)"
  "vs_ExpireAfter (vm_Spec (vm_Default None vm)) = vs_ExpireAfter (vm_Spec vm)"
  by (simp_all add: vm_Default_def mergeRestartPolicy_def mergeExpireAfter_def split: option.split)

section \<open>The operator behind the webhook\<close>

text \<open>An API server that asks the validating webhook for every write of a VM object; writes of the
  status subresource are not covered by its rules.\<close>

fun admission :: "vm_server \<Rightarrow> vm_server" where
  "admission srv tr (PatchVM base obj) =
     (if snd (vm_ValidateUpdate base obj) = [] then srv tr (PatchVM base obj)
      else Inl (OtherErr ''admission webhook denied the request''))"
| "admission srv tr e = srv tr e"

lemma clearing_refused:
  "vm_node vm \<noteq> '''' \<Longrightarrow> admission srv tr (PatchVM vm (set_node '''' vm)) = Inl (OtherErr ''admission webhook denied the request'')"
  by (simp add: vm_ValidateUpdate_def set_node_def)


definition example_valid_failed :: ImpVM where
  "example_valid_failed = upd_spec (\<lambda>s. s\<lparr>vs_ClassRef := Some ''small'', vs_Image := ''img'',
     vs_Lifecycle := VMLifecycleEphemeral\<rparr>) example_failed_vm"

lemma example_valid_failed_sel [simp]:
  "vs_RestartPolicy (vm_Spec example_valid_failed) = Some example_policy"
  "vt_RestartCount (vm_Status example_valid_failed) = 0" "vt_NextRetryAfter (vm_Status example_valid_failed) = None"
  "vs_Lifecycle (vm_Spec example_valid_failed) = VMLifecycleEphemeral" "vm_node example_valid_failed = ''n1''"
  by (simp_all add: example_valid_failed_def) (simp add: example_failed_vm_def)


end
