(* ===== verification/Attachments.thy ===== *)
theory Attachments
  imports Webhooks Device_Names Net_Addr
begin

text \<open>
  Attachments of VMs to physical networks: the types of impnetworkattachment\_types.go, the subject
  allowlist of clusterimpconfig\_types.go, the admission webhook and the controller that authorizes an
  attachment. Reads are functions of an environment, writes are effects of a run.
\<close>

section \<open>Types\<close>

definition AttachmentModeAccess :: string where "AttachmentModeAccess = ''access''"
definition AnnotationRequester :: string where "AnnotationRequester = ''imp.dev/requester''"
definition AnnotationRequesterGroups :: string where "AnnotationRequesterGroups = ''imp.dev/requester-groups''"
definition AnnotationForceDelete :: string where "AnnotationForceDelete = ''imp.dev/force-delete''"
definition SandboxOwnerLabel :: string where "SandboxOwnerLabel = ''sandbox.imp.dev/owner''"
definition ConditionAttachmentAuthorized :: string where "ConditionAttachmentAuthorized = ''Authorized''"

lemmas annotation_defs = AnnotationRequester_def AnnotationRequesterGroups_def AnnotationForceDelete_def

datatype AttachmentPhase = AttachmentPhaseUnset | AttachmentPhasePending | AttachmentPhaseAuthorized
  | AttachmentPhaseDenied | AttachmentPhaseFailed

text \<open>DHCPRequestSpec has the single field Enabled.\<close>

record ImpNetworkAttachmentSpec =
  as_VMRef :: string
  as_AttachmentRef :: string
  as_Mode :: string
  as_DHCP :: "bool option"
  as_IP :: string

record ImpNetworkAttachmentStatus =
  at_Phase :: AttachmentPhase
  at_Requester :: string
  at_Node :: string
  at_MACAddress :: string
  at_AssignedIP :: string
  at_Conditions :: "condition list"

record ImpNetworkAttachment =
  na_Meta :: object_meta
  na_Spec :: ImpNetworkAttachmentSpec
  na_Status :: ImpNetworkAttachmentStatus

abbreviation att_annotation :: "ImpNetworkAttachment \<Rightarrow> string \<Rightarrow> string" where
  "att_annotation att k \<equiv> str_get (om_Annotations (na_Meta att)) k"

definition upd_att :: "(ImpNetworkAttachmentStatus \<Rightarrow> ImpNetworkAttachmentStatus) \<Rightarrow> ImpNetworkAttachment \<Rightarrow> ImpNetworkAttachment" where
  "upd_att f att = att\<lparr>na_Status := f (na_Status att)\<rparr>"

lemma upd_att_sel [simp]:
  "na_Status (upd_att f att) = f (na_Status att)" "na_Spec (upd_att f att) = na_Spec att"
  "na_Meta (upd_att f att) = na_Meta att"
  by (simp_all add: upd_att_def)

section \<open>The subject allowlist\<close>

definition subject_matches :: "string \<Rightarrow> string list \<Rightarrow> string \<Rightarrow> bool" where
  "subject_matches username groups subj =
     (if has_prefix subj ''user:'' then drop (length ''user:'') subj = username
      else if has_prefix subj ''group:'' then list_ex (\<lambda>have. have = drop (length ''group:'') subj) groups
      else False)"

definition Permits :: "LANAttachmentSpec \<Rightarrow> string \<Rightarrow> string list \<Rightarrow> bool" where
  "Permits s username groups =
     (if la_AllowedSubjects s = [] then True
      else if username = '''' then False
      else list_ex (subject_matches username groups) (la_AllowedSubjects s))"

lemma Permits_iff:
  "Permits s u gs \<longleftrightarrow> la_AllowedSubjects s = [] \<or>
     u \<noteq> '''' \<and> (''user:'' @ u \<in> set (la_AllowedSubjects s) \<or> (\<exists>g\<in>set gs. ''group:'' @ g \<in> set (la_AllowedSubjects s)))"
proof -
  have prefix: "subj = p @ t \<longleftrightarrow> has_prefix subj p \<and> drop (length p) subj = t" for subj p t :: string
    unfolding has_prefix_def by (metis append_eq_conv_conj)
  have matches: "subject_matches u gs subj \<longleftrightarrow> subj = ''user:'' @ u \<or> (\<exists>g\<in>set gs. subj = ''group:'' @ g)" for subj
    unfolding prefix by (cases subj) (auto simp: subject_matches_def list_ex_iff has_prefix_def)
  show ?thesis unfolding Permits_def list_ex_iff matches by (simp del: append_Cons append_Nil) blast
qed

section \<open>The admission webhook\<close>

record admission_request =
  ar_Create :: bool
  ar_Username :: string
  ar_Groups :: "string list"

record att_client =
  ac_vm :: "string \<Rightarrow> string \<Rightarrow> api_error + ImpVM"
  ac_config :: "api_error + ClusterImpConfigSpec"

fun join :: "char \<Rightarrow> string list \<Rightarrow> string" where
  "join c [] = []"
| "join c [s] = s"
| "join c (s # ss) = s @ c # join c ss"

definition att_Default :: "admission_request option \<Rightarrow> ImpNetworkAttachment \<Rightarrow> ImpNetworkAttachment" where
  "att_Default req att =
     (let att = (if as_Mode (na_Spec att) = ''''
                 then att\<lparr>na_Spec := (na_Spec att)\<lparr>as_Mode := AttachmentModeAccess\<rparr>\<rparr> else att) in
      case req of
        None \<Rightarrow> att
      | Some r \<Rightarrow>
          if \<not> ar_Create r then att
          else att\<lparr>na_Meta := (na_Meta att)\<lparr>om_Annotations :=
                 AList.update AnnotationRequesterGroups (join (CHR '','') (ar_Groups r))
                   (AList.update AnnotationRequester (ar_Username r) (om_Annotations (na_Meta att)))\<rparr>\<rparr>)"

definition find_definition :: "api_error + ClusterImpConfigSpec \<Rightarrow> string \<Rightarrow> LANAttachmentSpec option" where
  "find_definition cfg name =
     (case cfg of Inl _ \<Rightarrow> None | Inr c \<Rightarrow> find (\<lambda>d. la_Name d = name) (cf_LANAttachments c))"

definition webhook_resolveDefinition :: "att_client option \<Rightarrow> ImpNetworkAttachment \<Rightarrow> LANAttachmentSpec option" where
  "webhook_resolveDefinition c att =
     (case c of
        None \<Rightarrow> None
      | Some cl \<Rightarrow> if as_AttachmentRef (na_Spec att) = '''' then None
                   else find_definition (ac_config cl) (as_AttachmentRef (na_Spec att)))"

definition validateIPInSubnet :: "string \<Rightarrow> string \<Rightarrow> string option" where
  "validateIPInSubnet ipStr cidr =
     (case ParseIP ipStr of
        None \<Rightarrow> Some (''is not a valid IPv4 address'')
      | Some ip \<Rightarrow>
          (case ParseCIDR cidr of
             None \<Rightarrow> Some (''attachment definition subnet is invalid'')
           | Some ipNet \<Rightarrow> if \<not> Contains ipNet ip then Some (ipStr @ '' is outside attachment subnet '' @ cidr) else None))"

text \<open>The guard for VMs owned by a sandbox: only an owned VM and a failed lookup are refused.\<close>

definition sandbox_guard :: "att_client option \<Rightarrow> ImpNetworkAttachment \<Rightarrow> field_errors" where
  "sandbox_guard c att =
     (case c of
        None \<Rightarrow> []
      | Some cl \<Rightarrow>
          if as_VMRef (na_Spec att) = '''' then []
          else case ac_vm cl (om_Namespace (na_Meta att)) (as_VMRef (na_Spec att)) of
                 Inr vm \<Rightarrow> if has_key (om_Labels (vm_Meta vm)) SandboxOwnerLabel
                           then [(''spec.vmRef'', ''ImpVM is sandbox-owned'')] else []
               | Inl e \<Rightarrow> if e = NotFound then [] else [(''spec.vmRef'', ''Internal error'')])"

definition address_errors :: "ImpNetworkAttachmentSpec \<Rightarrow> LANAttachmentSpec \<Rightarrow> field_errors" where
  "address_errors sp def =
     (let requestDHCP = (as_DHCP sp = Some True) in
      (if requestDHCP \<and> \<not> la_AllowDHCP def
       then [(''spec.dhcp'', ''attachment definition does not permit DHCP'')]
       else if \<not> requestDHCP \<and> as_IP sp = ''''
       then [(''spec.ip'', ''a static ip inside the definition subnet is required when DHCP is not requested'')]
       else []) @
      (if \<not> requestDHCP \<and> as_IP sp \<noteq> ''''
       then (case validateIPInSubnet (as_IP sp) (la_SubnetCIDR def) of Some e \<Rightarrow> [(''spec.ip'', e)] | None \<Rightarrow> [])
       else []))"

definition validateSpec :: "att_client option \<Rightarrow> admission_request option \<Rightarrow> ImpNetworkAttachment \<Rightarrow> field_errors" where
  "validateSpec c req att =
     (let sp = na_Spec att;
          errs = (if as_VMRef sp = '''' then [(''spec.vmRef.name'', ''target ImpVM is required'')] else []) in
      if as_AttachmentRef sp = '''' then errs @ [(''spec.attachmentRef'', ''attachment definition name is required'')]
      else
        let errs = errs @ sandbox_guard c att @
              (if as_Mode sp \<noteq> '''' \<and> as_Mode sp \<noteq> AttachmentModeAccess then [(''spec.mode'', ''Unsupported value'')] else []) @
              (if as_DHCP sp = Some True \<and> as_IP sp \<noteq> ''''
               then [(''spec.ip'', ''ip must not be set when DHCP is requested'')] else []) in
        case webhook_resolveDefinition c att of
          None \<Rightarrow>
            (if c = None then errs @ [(''spec.attachmentRef'', ''webhook has no client to resolve definitions'')]
             else errs @ [(''spec.attachmentRef'', ''Not found'')])
        | Some def \<Rightarrow>
            errs @ address_errors sp def @
            (case req of
               Some r \<Rightarrow> if \<not> Permits def (ar_Username r) (ar_Groups r)
                         then [(''spec.attachmentRef'', ''subject is not allowed to use attachment definition'')] else []
             | None \<Rightarrow> []))"

definition att_ValidateCreate :: "att_client option \<Rightarrow> admission_request option \<Rightarrow> ImpNetworkAttachment \<Rightarrow> field_errors" where
  "att_ValidateCreate c req att = validateSpec c req att"

definition att_ValidateUpdate :: "ImpNetworkAttachment \<Rightarrow> ImpNetworkAttachment \<Rightarrow> field_errors" where
  "att_ValidateUpdate oldAtt newAtt =
     (if na_Spec oldAtt \<noteq> na_Spec newAtt
      then [(''spec'', ''spec is immutable after creation; delete and recreate the attachment'')] else []) @
     concat (map (\<lambda>ann. if att_annotation oldAtt ann \<noteq> att_annotation newAtt ann
                        then [(''metadata.annotations'', ''requester audit annotations are immutable'')] else [])
       [AnnotationRequester, AnnotationRequesterGroups])"

definition att_ValidateDelete :: "att_client option \<Rightarrow> ImpNetworkAttachment \<Rightarrow> field_errors" where
  "att_ValidateDelete c att =
     (if att_annotation att AnnotationForceDelete = ''true'' then []
      else case c of
        None \<Rightarrow> []
      | Some cl \<Rightarrow>
          (case ac_vm cl (om_Namespace (na_Meta att)) (as_VMRef (na_Spec att)) of
             Inl _ \<Rightarrow> []
           | Inr vm \<Rightarrow> if vm_phase vm = VMPhaseRunning \<or> vm_phase vm = VMPhaseStarting
                       then [(''metadata.name'', ''ImpVM is running; stop the VM before deleting its attachment'')] else []))"

section \<open>The controller\<close>

datatype att_effect =
    UpdateAttStatus ImpNetworkAttachment
  | AttachmentAuthorized string string string
  | AttachmentDenied string string

record att_env =
  ne_srv :: "(att_effect, ImpNetworkAttachment) server"
  ne_att :: "string \<Rightarrow> string \<Rightarrow> api_error + ImpNetworkAttachment"
  ne_vm :: "string \<Rightarrow> string \<Rightarrow> api_error + ImpVM"
  ne_config :: "api_error + ClusterImpConfigSpec"
  ne_profile :: "string \<Rightarrow> api_error + ClusterImpNodeProfileSpec"
  ne_now :: int

definition attachmentRequester :: "ImpNetworkAttachment \<Rightarrow> string" where
  "attachmentRequester att = att_annotation att AnnotationRequester"

definition attachmentRequesterGroups :: "ImpNetworkAttachment \<Rightarrow> string list" where
  "attachmentRequesterGroups att =
     (let raw = att_annotation att AnnotationRequesterGroups in if raw = '''' then [] else split_on (CHR '','') raw)"

definition phase_status :: "AttachmentPhase \<Rightarrow> cond_status" where
  "phase_status ph =
     (case ph of AttachmentPhaseAuthorized \<Rightarrow> ConditionTrue | AttachmentPhasePending \<Rightarrow> ConditionUnknown
      | _ \<Rightarrow> ConditionFalse)"

definition setAttachmentCondition :: "int \<Rightarrow> AttachmentPhase \<Rightarrow> string \<Rightarrow> string \<Rightarrow> ImpNetworkAttachment \<Rightarrow> ImpNetworkAttachment" where
  "setAttachmentCondition now phase reason msg att =
     upd_att (\<lambda>s. s\<lparr>at_Conditions := SetStatusCondition
       \<lparr>c_Type = ConditionAttachmentAuthorized, c_Status = phase_status phase, c_Reason = reason, c_Message = msg,
        c_ObservedGeneration = om_Generation (na_Meta att), c_LastTransitionTime = now\<rparr> (at_Conditions s)\<rparr>) att"

definition authorized_cond :: "ImpNetworkAttachment \<Rightarrow> condition option" where
  "authorized_cond att = FindStatusCondition (at_Conditions (na_Status att)) ConditionAttachmentAuthorized"

definition attachmentConditionChanged :: "ImpNetworkAttachment \<Rightarrow> ImpNetworkAttachment \<Rightarrow> bool" where
  "attachmentConditionChanged oldAtt newAtt =
     (case (authorized_cond oldAtt, authorized_cond newAtt) of
        (Some oldC, Some newC) \<Rightarrow>
          c_Status oldC \<noteq> c_Status newC \<or> c_Reason oldC \<noteq> c_Reason newC \<or> c_Message oldC \<noteq> c_Message newC
      | (None, None) \<Rightarrow> False
      | _ \<Rightarrow> True)"

record decision =
  d_node :: string
  d_phase :: AttachmentPhase
  d_reason :: string
  d_message :: string
  d_macAddr :: string
  d_assignedIP :: string

text \<open>The status fields the decision fills in, apart from the condition and the phase.\<close>

definition fill_status :: "decision \<Rightarrow> ImpNetworkAttachment \<Rightarrow> ImpNetworkAttachment" where
  "fill_status d att = upd_att (\<lambda>s. s\<lparr>
     at_Requester := (if at_Requester s = '''' then attachmentRequester att else at_Requester s),
     at_Node := (if d_node d \<noteq> '''' then d_node d else at_Node s),
     at_MACAddress := (if d_macAddr d \<noteq> '''' then d_macAddr d else at_MACAddress s),
     at_AssignedIP := (if at_AssignedIP s = '''' then d_assignedIP d else at_AssignedIP s)\<rparr>) att"

definition decide :: "att_env \<Rightarrow> ImpNetworkAttachment \<Rightarrow> decision \<Rightarrow> (att_effect, ctrl_result) io" where
  "decide env orig d =
     (let filled = fill_status d orig;
          att = setAttachmentCondition (ne_now env) (d_phase d) (d_reason d) (d_message d) filled;
          changed = (filled \<noteq> orig \<or> attachmentConditionChanged orig att) in
      if \<not> changed then ret no_requeue
      else
        and_then (send (ne_srv env) (UpdateAttStatus (upd_att (\<lambda>s. s\<lparr>at_Phase := d_phase d\<rparr>) att))) (\<lambda>att.
        and_then
          (if at_Phase (na_Status orig) = d_phase d then ret ()
           else case d_phase d of
                  AttachmentPhaseAuthorized \<Rightarrow>
                    emit (AttachmentAuthorized (om_Name (na_Meta att)) (as_VMRef (na_Spec att)) (d_node d))
                | AttachmentPhaseDenied \<Rightarrow> emit (AttachmentDenied (om_Name (na_Meta att)) (d_message d))
                | _ \<Rightarrow> ret ()) (\<lambda>_.
        ret no_requeue)))"

definition resolveDefinition :: "att_env \<Rightarrow> string \<Rightarrow> LANAttachmentSpec option" where
  "resolveDefinition env name = find_definition (ne_config env) name"

definition find_binding :: "api_error + ClusterImpNodeProfileSpec \<Rightarrow> string \<Rightarrow> NodeLANBinding option" where
  "find_binding profile defName =
     (case profile of Inl _ \<Rightarrow> None | Inr p \<Rightarrow> find (\<lambda>b. nb_AttachmentName b = defName) (np_LANBindings p))"

definition resolveBinding :: "att_env \<Rightarrow> string \<Rightarrow> string \<Rightarrow> NodeLANBinding option" where
  "resolveBinding env nodeName defName = find_binding (ne_profile env nodeName) defName"

definition refusal :: "string \<Rightarrow> AttachmentPhase \<Rightarrow> string \<Rightarrow> string \<Rightarrow> decision" where
  "refusal node phase reason msg =
     \<lparr>d_node = node, d_phase = phase, d_reason = reason, d_message = msg, d_macAddr = '''', d_assignedIP = ''''\<rparr>"

definition evaluate :: "att_env \<Rightarrow> ImpNetworkAttachment \<Rightarrow> ImpVM \<Rightarrow> decision" where
  "evaluate env att vm =
     (let nodeName = vt_NodeName (vm_Status vm); ref = as_AttachmentRef (na_Spec att) in
      case resolveDefinition env ref of
        None \<Rightarrow> refusal nodeName AttachmentPhaseDenied ''DefinitionMissing''
          (''Attachment definition '' @ ref @ '' is missing from ClusterImpConfig'')
      | Some def \<Rightarrow>
          if \<not> Permits def (attachmentRequester att) (attachmentRequesterGroups att)
          then refusal nodeName AttachmentPhaseDenied ''SubjectNotAllowed'' ''Requester is not in the definition subject allowlist''
          else if resolveBinding env nodeName (la_Name def) = None
          then refusal nodeName AttachmentPhaseDenied ''NodeBindingMissing''
            (''Node profile for '' @ nodeName @ '' has no LAN binding for definition '' @ la_Name def)
          else \<lparr>d_node = nodeName, d_phase = AttachmentPhaseAuthorized, d_reason = ''Allowed'',
                 d_message = ''Attachment authorized on node '' @ nodeName,
                 d_macAddr = MACAddr (vm_namespace vm @ ''/'' @ vm_name vm),
                 d_assignedIP = (if as_DHCP (na_Spec att) \<noteq> Some True then as_IP (na_Spec att) else '''')\<rparr>)"

definition att_Reconcile :: "att_env \<Rightarrow> string \<Rightarrow> string \<Rightarrow> (att_effect, ctrl_result) io" where
  "att_Reconcile env ns name =
     (case ne_att env ns name of
        Inl e \<Rightarrow> if e = NotFound then ret no_requeue else fail (Api e)
      | Inr att \<Rightarrow>
          (case ne_vm env (om_Namespace (na_Meta att)) (as_VMRef (na_Spec att)) of
             Inl e \<Rightarrow>
               if e = NotFound
               then decide env att (refusal '''' AttachmentPhasePending ''WaitingForVM'' ''Referenced ImpVM does not exist yet'')
               else fail (Api e)
           | Inr vm \<Rightarrow>
               if vt_NodeName (vm_Status vm) = ''''
               then decide env att (refusal '''' AttachmentPhasePending ''WaitingForSchedule'' ''Referenced ImpVM is not scheduled yet'')
               else decide env att (evaluate env att vm)))"

definition attachmentsForVM :: "(string \<Rightarrow> api_error + ImpNetworkAttachment list) \<Rightarrow> ImpVM \<Rightarrow> (string \<times> string) list" where
  "attachmentsForVM list_in vm =
     (case list_in (vm_namespace vm) of
        Inl _ \<Rightarrow> []
      | Inr atts \<Rightarrow> map (\<lambda>att. (om_Namespace (na_Meta att), om_Name (na_Meta att)))
          (filter (\<lambda>att. as_VMRef (na_Spec att) = vm_name vm) atts))"

definition attachmentsForAllowlist :: "api_error + ImpNetworkAttachment list \<Rightarrow> (string \<times> string) list" where
  "attachmentsForAllowlist all_atts =
     (case all_atts of Inl _ \<Rightarrow> [] | Inr atts \<Rightarrow> map (\<lambda>att. (om_Namespace (na_Meta att), om_Name (na_Meta att))) atts)"

section \<open>Authorization\<close>

text \<open>The policy: the VM is scheduled, the definition is in the allowlist and admits the requester, and the
  profile of the VM's node binds the definition.\<close>

definition allowed :: "att_env \<Rightarrow> ImpNetworkAttachment \<Rightarrow> bool" where
  "allowed env att =
     (case ne_vm env (om_Namespace (na_Meta att)) (as_VMRef (na_Spec att)) of
        Inl _ \<Rightarrow> False
      | Inr vm \<Rightarrow>
          vt_NodeName (vm_Status vm) \<noteq> '''' \<and>
          (case find_definition (ne_config env) (as_AttachmentRef (na_Spec att)) of
             None \<Rightarrow> False
           | Some def \<Rightarrow>
               Permits def (attachmentRequester att) (attachmentRequesterGroups att) \<and>
               find_binding (ne_profile env (vt_NodeName (vm_Status vm))) (la_Name def) \<noteq> None))"

definition authorized :: "ImpNetworkAttachment \<Rightarrow> bool" where
  "authorized att = (case authorized_cond att of None \<Rightarrow> False | Some c \<Rightarrow> c_Status c = ConditionTrue)"

text \<open>The object the API server holds after a run: the last accepted update.\<close>

fun stored_att :: "ImpNetworkAttachment \<Rightarrow> att_effect list \<Rightarrow> ImpNetworkAttachment" where
  "stored_att att [] = att"
| "stored_att att (UpdateAttStatus a # tr) = stored_att a tr"
| "stored_att att (_ # tr) = stored_att att tr"

lemma phase_status_True [simp]: "phase_status ph = ConditionTrue \<longleftrightarrow> ph = AttachmentPhaseAuthorized"
  by (cases ph) (simp_all add: phase_status_def)

lemma authorized_cond_set:
  "\<exists>c. authorized_cond (setAttachmentCondition now ph reason msg att) = Some c \<and> c_Status c = phase_status ph"
proof -
  let ?new = "\<lparr>c_Type = ConditionAttachmentAuthorized, c_Status = phase_status ph, c_Reason = reason, c_Message = msg,
        c_ObservedGeneration = om_Generation (na_Meta att), c_LastTransitionTime = now\<rparr>"
  obtain c where "FindStatusCondition (SetStatusCondition ?new (at_Conditions (na_Status att))) (c_Type ?new) = Some c"
      "c_Status c = c_Status ?new"
    using Find_Set_same [of ?new "at_Conditions (na_Status att)"] by blast
  then show ?thesis by (simp add: authorized_cond_def setAttachmentCondition_def)
qed

lemma authorized_upd [simp]:
  "authorized (upd_att (\<lambda>s. s\<lparr>at_Phase := ph\<rparr>) att) = authorized att"
  "authorized_cond (fill_status d att) = authorized_cond att"
  by (simp_all add: authorized_def authorized_cond_def fill_status_def)

lemma authorized_set: "authorized (setAttachmentCondition now ph reason msg att) \<longleftrightarrow> ph = AttachmentPhaseAuthorized"
  using authorized_cond_set [of now ph reason msg att] by (auto simp: authorized_def)

text \<open>Whether the decision is written or was recorded before, the stored condition is the decision's.\<close>

lemma decide_stores:
  assumes "decide env att d [] = (Inr r, tr)"
  shows "authorized (stored_att att tr) \<longleftrightarrow> d_phase d = AttachmentPhaseAuthorized"
proof -
  let ?new = "setAttachmentCondition (ne_now env) (d_phase d) (d_reason d) (d_message d) (fill_status d att)"
  have "\<not> attachmentConditionChanged att ?new \<Longrightarrow> authorized att = authorized ?new"
    by (auto simp: attachmentConditionChanged_def authorized_def split: option.splits)
  then show ?thesis
    using assms authorized_set [of "ne_now env" "d_phase d" "d_reason d" "d_message d" "fill_status d att"]
    by (auto simp: decide_def Let_def io_run split: if_splits sum.splits AttachmentPhase.splits)
qed

lemma evaluate_phase:
  "d_phase (evaluate env att vm) = AttachmentPhaseAuthorized \<longleftrightarrow>
     (case find_definition (ne_config env) (as_AttachmentRef (na_Spec att)) of
        None \<Rightarrow> False
      | Some def \<Rightarrow> Permits def (attachmentRequester att) (attachmentRequesterGroups att) \<and>
          find_binding (ne_profile env (vt_NodeName (vm_Status vm))) (la_Name def) \<noteq> None)"
  by (simp add: evaluate_def Let_def refusal_def resolveDefinition_def resolveBinding_def split: option.split)

text \<open>C31. Authorization is revalidated on every pass: after a reconcile that succeeds, whatever the attachment said
  before, its stored Authorized condition is true exactly when the policy holds now - the VM is
  scheduled, the definition is still in the allowlist and permits the recorded requester, and the
  VM's node binds it. So a withdrawn definition, subject or binding withdraws the authorization.\<close>

theorem attachment_authorization:
  assumes "ne_att env ns name = Inr att" and "att_Reconcile env ns name [] = (Inr r, tr)"
  shows "authorized (stored_att att tr) \<longleftrightarrow> allowed env att"
  using assms decide_stores [of env att _ r tr]
  by (auto simp: att_Reconcile_def allowed_def evaluate_phase refusal_def io_run split: sum.splits if_splits)

section \<open>Admission and authorization agree\<close>

lemma split_join:
  assumes "\<forall>g\<in>set gs. c \<notin> set g" and "gs \<noteq> []"
  shows "split_on c (join c gs) = gs"
  using assms by (induction c gs rule: join.induct) (auto simp: split_on_single split_on_append)

lemma groups_stamped:
  assumes "ar_Create req" and "\<forall>g\<in>set (ar_Groups req). g \<noteq> '''' \<and> CHR '','' \<notin> set g"
  shows "attachmentRequesterGroups (att_Default (Some req) att) = ar_Groups req"
    and "attachmentRequester (att_Default (Some req) att) = ar_Username req"
proof -
  have "join (CHR '','') (ar_Groups req) = '''' \<longleftrightarrow> ar_Groups req = []"
    using assms(2) by (cases "ar_Groups req"; cases "tl (ar_Groups req)") auto
  then show "attachmentRequesterGroups (att_Default (Some req) att) = ar_Groups req"
    using assms split_join [of "ar_Groups req" "CHR '',''"]
    by (auto simp: attachmentRequesterGroups_def att_Default_def Let_def)
  show "attachmentRequester (att_Default (Some req) att) = ar_Username req"
    using assms(1) by (simp add: attachmentRequester_def att_Default_def Let_def annotation_defs)
qed

lemma validateSpec_admits:
  assumes "validateSpec (Some cl) (Some req) att = []"
  obtains def where "find_definition (ac_config cl) (as_AttachmentRef (na_Spec att)) = Some def"
    and "Permits def (ar_Username req) (ar_Groups req)"
    and "as_DHCP (na_Spec att) \<noteq> Some True \<Longrightarrow> \<exists>nw ip. ParseCIDR (la_SubnetCIDR def) = Some nw \<and>
           ParseIP (as_IP (na_Spec att)) = Some ip \<and> Contains nw ip"
    and "as_DHCP (na_Spec att) = Some True \<Longrightarrow> la_AllowDHCP def"
  using assms
  by (auto simp: validateSpec_def Let_def webhook_resolveDefinition_def address_errors_def validateIPInSubnet_def
      split: option.splits if_splits)

text \<open>C32. What admission lets in, the controller authorizes. The annotations stamped at creation give the
  requester and the groups back (no group name is empty or has a comma), so an attachment admitted
  for a user is authorized as soon as its VM is scheduled on a node that binds the definition, if
  the allowlist has not changed; and a static address of an admitted attachment lies in the
  definition's subnet.\<close>

theorem admitted_attachment_authorized:
  assumes "ar_Create req" and "\<forall>g\<in>set (ar_Groups req). g \<noteq> '''' \<and> CHR '','' \<notin> set g"
    and "att = att_Default (Some req) request" and "att_ValidateCreate (Some cl) (Some req) att = []"
    and "ne_att env ns name = Inr att" and "ne_config env = ac_config cl"
    and "ne_vm env (om_Namespace (na_Meta att)) (as_VMRef (na_Spec att)) = Inr vm" and "vt_NodeName (vm_Status vm) \<noteq> ''''"
    and "\<forall>d. find_definition (ac_config cl) (as_AttachmentRef (na_Spec att)) = Some d \<longrightarrow>
           find_binding (ne_profile env (vt_NodeName (vm_Status vm))) (la_Name d) \<noteq> None"
    and "att_Reconcile env ns name [] = (Inr r, tr)"
  shows "authorized (stored_att att tr) \<and>
    (\<exists>d. find_definition (ne_config env) (as_AttachmentRef (na_Spec att)) = Some d \<and>
       (as_DHCP (na_Spec att) = Some True \<and> la_AllowDHCP d \<or>
        (\<exists>nw ip. ParseCIDR (la_SubnetCIDR d) = Some nw \<and> ParseIP (as_IP (na_Spec att)) = Some ip \<and> Contains nw ip)))"
proof -
  obtain d where d: "find_definition (ac_config cl) (as_AttachmentRef (na_Spec att)) = Some d"
      "Permits d (ar_Username req) (ar_Groups req)"
      "as_DHCP (na_Spec att) \<noteq> Some True \<Longrightarrow> \<exists>nw ip. ParseCIDR (la_SubnetCIDR d) = Some nw \<and>
           ParseIP (as_IP (na_Spec att)) = Some ip \<and> Contains nw ip"
      "as_DHCP (na_Spec att) = Some True \<Longrightarrow> la_AllowDHCP d"
    using validateSpec_admits assms(4) unfolding att_ValidateCreate_def by blast
  have "allowed env att"
    using assms(1-3,6-9) d(1,2) by (simp add: allowed_def groups_stamped)
  moreover have "d_phase (evaluate env att vm) = AttachmentPhaseAuthorized"
    using calculation assms(7,8) by (simp add: evaluate_phase allowed_def split: option.splits)
  then have "authorized (stored_att att tr)"
    using decide_stores [of env att "evaluate env att vm" r tr] assms(5,7,8,10) by (simp add: att_Reconcile_def)
  ultimately show ?thesis using d assms(6) by auto
qed

section \<open>Examples\<close>

definition zero_att :: ImpNetworkAttachment where
  "zero_att = \<lparr>na_Meta = zero_meta,
     na_Spec = \<lparr>as_VMRef = '''', as_AttachmentRef = '''', as_Mode = '''', as_DHCP = None, as_IP = ''''\<rparr>,
     na_Status = \<lparr>at_Phase = AttachmentPhaseUnset, at_Requester = '''', at_Node = '''', at_MACAddress = '''',
       at_AssignedIP = '''', at_Conditions = []\<rparr>\<rparr>"

fun quiet_att_server :: "(att_effect, ImpNetworkAttachment) server" where
  "quiet_att_server tr (UpdateAttStatus a) = Inr a"
| "quiet_att_server tr _ = Inr zero_att"

lemma decide_returns: "ne_srv env = quiet_att_server \<Longrightarrow> fst (decide env att d []) = Inr no_requeue"
  by (simp add: decide_def Let_def io_run split: AttachmentPhase.split)

definition example_definition :: LANAttachmentSpec where
  "example_definition = \<lparr>la_Name = ''office'', la_VLANID = 20, la_SubnetCIDR = ''10.0.0.0/24'', la_AllowDHCP = False,
     la_AllowedSubjects = [''group:ops'']\<rparr>"

definition example_lan_config :: ClusterImpConfigSpec where
  "example_lan_config = \<lparr>cf_Capacity = \<lparr>cc_DefaultFraction = '''', cc_MemoryReserveMiB = None\<rparr>,
     cf_LANAttachments = [example_definition], cf_DefaultHttpCheck = None, cf_SandboxFloorTenancy = None\<rparr>"

definition example_profile :: ClusterImpNodeProfileSpec where
  "example_profile = \<lparr>np_CapacityFraction = '''', np_MaxImpVMs = 0, np_VCPUCapacity = 0, np_MemoryMiB = 0,
     np_CPUModel = '''', np_VTEPIP = '''',
     np_LANBindings = [\<lparr>nb_AttachmentName = ''office'', nb_ParentInterface = ''eth1''\<rparr>]\<rparr>"

definition example_request :: admission_request where
  "example_request = \<lparr>ar_Create = True, ar_Username = ''alice'', ar_Groups = [''dev'', ''ops'']\<rparr>"

definition example_att :: ImpNetworkAttachment where
  "example_att = zero_att\<lparr>na_Spec := \<lparr>as_VMRef = ''vm'', as_AttachmentRef = ''office'', as_Mode = '''', as_DHCP = None,
     as_IP = ''10.0.0.5''\<rparr>\<rparr>"

definition example_att_env :: "ImpNetworkAttachment \<Rightarrow> att_env" where
  "example_att_env att = \<lparr>ne_srv = quiet_att_server, ne_att = \<lambda>_ _. Inr att,
     ne_vm = \<lambda>_ _. Inr (set_status_node ''n1'' zero_vm), ne_config = Inr example_lan_config,
     ne_profile = \<lambda>_. Inr example_profile, ne_now = 0\<rparr>"

definition example_att_client :: att_client where
  "example_att_client = \<lparr>ac_vm = \<lambda>_ _. Inl NotFound, ac_config = Inr example_lan_config\<rparr>"

lemma example_Reconcile: "fst (att_Reconcile (example_att_env att) ns name []) = Inr no_requeue"
  by (simp add: att_Reconcile_def decide_returns example_att_env_def)

lemma example_att_env_sel [simp]:
  "ne_att (example_att_env att) = (\<lambda>_ _. Inr att)" "ne_vm (example_att_env att) = (\<lambda>_ _. Inr (set_status_node ''n1'' zero_vm))"
  "ne_config (example_att_env att) = Inr example_lan_config" "ne_profile (example_att_env att) = (\<lambda>_. Inr example_profile)"
  by (simp_all add: example_att_env_def)

lemmas example_att_defs = example_att_def zero_att_def zero_meta_def example_lan_config_def example_definition_def
  example_profile_def example_request_def example_att_client_def find_definition_def find_binding_def

theorem attachment_authorization_witness:
  "(let env = example_att_env example_att in
    authorized (stored_att example_att (snd (att_Reconcile env ''ns'' ''a'' [])))) = False"
proof -
  let ?env = "example_att_env example_att"
  have "att_Reconcile ?env ''ns'' ''a'' [] = (Inr no_requeue, snd (att_Reconcile ?env ''ns'' ''a'' []))"
    by (simp add: prod_eq_iff example_Reconcile)
  moreover have "\<not> allowed ?env example_att"
    by (simp add: allowed_def Permits_def example_att_defs attachmentRequester_def str_get_def)
  ultimately show ?thesis
    using attachment_authorization [of ?env "''ns''" "''a''" example_att] by simp
qed

lemma example_admitted:
  "att_ValidateCreate (Some example_att_client) (Some example_request) (att_Default (Some example_request) example_att) = []"
  by code_simp

theorem admitted_attachment_authorized_witness:
  "let att = att_Default (Some example_request) example_att; env = example_att_env att in
   authorized (stored_att att (snd (att_Reconcile env ''ns'' ''a'' [])))"
proof -
  let ?att = "att_Default (Some example_request) example_att"
  let ?env = "example_att_env ?att"
  have run: "att_Reconcile ?env ''ns'' ''a'' [] = (Inr no_requeue, snd (att_Reconcile ?env ''ns'' ''a'' []))"
    by (simp add: prod_eq_iff example_Reconcile)
  have "authorized (stored_att ?att (snd (att_Reconcile ?env ''ns'' ''a'' [])))"
    using admitted_attachment_authorized [OF _ _ refl example_admitted _ _ _ _ _ run]
    by (simp add: example_att_defs)
  then show ?thesis by simp
qed

end
