(* ===== verification/Firecracker.thy ===== *)
theory Firecracker
  imports Lease_Allocator Network_Controller Attachments Agent
begin

text \<open>
  The Firecracker driver of the node agent (agent/firecracker\_driver.go, agent/guestagent.go): starting a
  VM with its root file system, network and VMM process, stopping it, inspecting it, taking a
  snapshot, and taking over a process after a restart of the agent. The state holds the map of
  processes, the node-local address tracker and the log of the calls that left the driver; the host,
  the API server and the Firecracker SDK answer from the log. Probes and metrics run in their own
  goroutines and are only started and cancelled here.
\<close>

section \<open>State\<close>

record NetworkInfo =
  ni_TAPName :: string
  ni_BridgeName :: string
  ni_MACAddr :: string
  ni_IP :: string
  ni_PrefixLen :: nat
  ni_Gateway :: string
  ni_DNS :: "string list"
  ni_Subnet :: string
  ni_NetworkKey :: string
  ni_ClaimHolder :: string
  ni_NATEnabled :: bool
  ni_EgressInterface :: string
  ni_IsLAN :: bool
  ni_VLANID :: int
  ni_ParentInterface :: string
  ni_DHCP :: bool
  ni_DenyCIDRs :: "string list"

text \<open>The fields of firecracker.Config that the driver sets: one root drive, at most one network interface
  (MAC address and host device), at most one vsock device, and the snapshot to load.\<close>

record fc_config =
  fc_SocketPath :: string
  fc_KernelImagePath :: string
  fc_KernelArgs :: string
  fc_RootDrive :: string
  fc_VcpuCount :: int
  fc_MemSizeMib :: int
  fc_Interface :: "(string \<times> string) option"
  fc_Vsock :: "string option"
  fc_Snapshot :: "(string \<times> string) option"

text \<open>A machine handle is the configuration it was created from; it is missing for a process taken over.\<close>

record fcProc =
  fp_machine :: "fc_config option"
  fp_pid :: int
  fp_socket :: string
  fp_vsockPath :: string
  fp_netInfo :: "NetworkInfo option"
  fp_probes :: bool

datatype build_option = WithDiskSizeGiB int | WithRunnerGuestAgent string | WithGuestAgent string | WithEnv strmap

text \<open>Calls to the host and the SDK that may fail with a message.\<close>

datatype host_call =
    EnsureNetwork string string nat
  | SetupVM string string string
  | TeardownVM string
  | EnsureNAT string string
  | RemoveNAT string string
  | EnsureEgressDeny string "string list"
  | RemoveEgressDeny string
  | EnsureLANBridge string string int
  | TeardownLANBridgeIfUnused string string int
  | MkdirSockets string
  | RemoveFile string
  | OpenSerialLog string
  | CloseSerialLog string
  | NewMachine string fc_config
  | MachineStart fc_config
  | Shutdown fc_config
  | StopVMM fc_config
  | PauseVM fc_config
  | ResumeVM fc_config
  | CreateSnapshot fc_config string string
  | RunProbes string
  | CancelProbes string

text \<open>An entry of the log: a host call with its outcome, a build of a root file system, a request of the
  lease allocator, and an address that was claimed or is to be released.\<close>

datatype fc_event =
    Did host_call "string option"
  | Built string "string list" "build_option list"
  | CreatedLease lease_key string "api_error option"
  | GotLease lease_key
  | DeletedLease lease_key nat "api_error option"
  | Claimed string string string
  | Releasing string string string

record fc_state =
  fs_procs :: "string \<Rightarrow> fcProc option"
  fs_alloc :: "Allocator option"
  fs_log :: "fc_event list"

type_synonym 'a fc_io = "(fc_state, 'a) run"

datatype signal_result = SignalOk | ProcessGone | SignalError string

text \<open>\<open>fe_Net\<close> and \<open>fe_Claims\<close> tell whether the network manager and the lease allocator are set,
  \<open>fe_LAN\<close> whether the manager can attach LANs.\<close>

record fc_env =
  fe_BinPath :: string
  fe_SocketDir :: string
  fe_KernelPath :: string
  fe_KernelArgs :: string
  fe_GuestAgentPath :: string
  fe_NodeName :: string
  fe_Net :: bool
  fe_LAN :: bool
  fe_Claims :: bool
  fe_sort :: sorter
  fe_class :: "string \<Rightarrow> api_error + ImpVMClassSpec"
  fe_network :: "string \<Rightarrow> string \<Rightarrow> api_error + ImpNetwork"
  fe_pool :: "string \<Rightarrow> string \<Rightarrow> api_error + cilium_pool"
  fe_attachments :: "string \<Rightarrow> api_error + ImpNetworkAttachment list"
  fe_config :: "api_error + ClusterImpConfigSpec"
  fe_profile :: "string \<Rightarrow> api_error + ClusterImpNodeProfileSpec"
  fe_snapshot :: "string \<Rightarrow> string \<Rightarrow> api_error + ImpVMSnapshot"
  fe_host :: "fc_event list \<Rightarrow> host_call \<Rightarrow> string option"
  fe_build :: "fc_event list \<Rightarrow> string \<Rightarrow> string list \<Rightarrow> build_option list \<Rightarrow> string + string"
  fe_pid :: "fc_event list \<Rightarrow> fc_config \<Rightarrow> string + int"
  fe_signal :: "fc_event list \<Rightarrow> int \<Rightarrow> signal_result"
  fe_stat :: "fc_event list \<Rightarrow> string \<Rightarrow> bool"
  fe_create :: "fc_event list \<Rightarrow> lease_key \<Rightarrow> string \<Rightarrow> api_error option"
  fe_get :: "fc_event list \<Rightarrow> lease_key \<Rightarrow> api_error + Lease"
  fe_delete :: "fc_event list \<Rightarrow> lease_key \<Rightarrow> nat \<Rightarrow> api_error option"

section \<open>Calls\<close>

definition note_event :: "fc_event \<Rightarrow> fc_state \<Rightarrow> fc_state" where
  "note_event e s = s\<lparr>fs_log := fs_log s @ [e]\<rparr>"

definition record_event :: "fc_event \<Rightarrow> unit fc_io" where
  "record_event e = (\<lambda>s. (Inr (), note_event e s))"

text \<open>A call that tells its outcome, one whose failure ends the run, and one whose failure is only logged.\<close>

definition host :: "fc_env \<Rightarrow> host_call \<Rightarrow> string option fc_io" where
  "host env c = (\<lambda>s. let r = fe_host env (fs_log s) c in (Inr r, note_event (Did c r) s))"

definition must :: "fc_env \<Rightarrow> host_call \<Rightarrow> string \<Rightarrow> unit fc_io" where
  "must env c what = and_then (host env c) (\<lambda>r. case r of None \<Rightarrow> ret () | Some e \<Rightarrow> fail (Err (what @ '': '' @ e)))"

definition try_host :: "fc_env \<Rightarrow> host_call \<Rightarrow> unit fc_io" where
  "try_host env c = and_then (host env c) (\<lambda>_. ret ())"

primrec run_lease :: "fc_env \<Rightarrow> 'a lease_prog \<Rightarrow> 'a fc_io" where
  "run_lease env (Done x) = ret x"
| "run_lease env (CreateLease k h f) =
     (\<lambda>s. let r = fe_create env (fs_log s) k h in run_lease env (f r) (note_event (CreatedLease k h r) s))"
| "run_lease env (GetLease k f) =
     (\<lambda>s. let r = fe_get env (fs_log s) k in run_lease env (f r) (note_event (GotLease k) s))"
| "run_lease env (DeleteLease k u f) =
     (\<lambda>s. let r = fe_delete env (fs_log s) k u in run_lease env (f r) (note_event (DeletedLease k u r) s))"

section \<open>Paths, options and the configuration\<close>

definition ResolveGuestAgentEnabled :: "ImpVM \<Rightarrow> ImpVMClassSpec option \<Rightarrow> bool" where
  "ResolveGuestAgentEnabled vm class =
     (case Option.bind (vs_GuestAgent (vm_Spec vm)) ga_Enabled of
        Some b \<Rightarrow> b
      | None \<Rightarrow>
          (case Option.bind (Option.bind class cs_GuestAgent) ga_Enabled of Some b \<Rightarrow> b | None \<Rightarrow> True))"

definition socketPath :: "fc_env \<Rightarrow> ImpVM \<Rightarrow> string" where
  "socketPath env vm = path_join [fe_SocketDir env, vm_namespace vm @ ''-'' @ vm_name vm @ ''.sock'']"

definition trim_suffix :: "string \<Rightarrow> string \<Rightarrow> string" where
  "trim_suffix s suf = (if drop (length s - length suf) s = suf then take (length s - length suf) s else s)"

definition vsockPathFromSocket :: "string \<Rightarrow> string" where
  "vsockPathFromSocket p = trim_suffix p ''.sock'' @ ''.vsock''"

definition VSOCKPath :: "fc_env \<Rightarrow> ImpVM \<Rightarrow> string" where
  "VSOCKPath env vm = vsockPathFromSocket (socketPath env vm)"

definition guestAgentPath :: "fc_env \<Rightarrow> string" where
  "guestAgentPath env = (if fe_GuestAgentPath env \<noteq> '''' then fe_GuestAgentPath env else ''/opt/imp/guest-agent'')"

definition resolveVMEnv :: "env_var list \<Rightarrow> strmap" where
  "resolveVMEnv vars =
     foldl (\<lambda>env v. if ev_Name v = '''' \<or> ev_ValueFrom v \<or> ev_Name v = ''IMP_GITHUB_JITCONFIG'' then env
                    else AList.update (ev_Name v) (ev_Value v) env) [] vars"

definition rootfsBuildOptions :: "fc_env \<Rightarrow> ImpVM \<Rightarrow> ImpVMClassSpec \<Rightarrow> bool \<Rightarrow> build_option list" where
  "rootfsBuildOptions env vm class gaEnabled =
     [WithDiskSizeGiB (cs_DiskGiB class)] @
     (if gaEnabled then
        if has_key (om_Labels (vm_Meta vm)) LabelRunnerPool \<or> vs_RunnerConfigSecret (vm_Spec vm) \<noteq> ''''
        then [WithRunnerGuestAgent (guestAgentPath env)] else [WithGuestAgent (guestAgentPath env)]
      else []) @
     (let e = resolveVMEnv (vs_Env (vm_Spec vm)) in if e \<noteq> [] then [WithEnv e] else [])"

definition staticNetworkBootParam :: "NetworkInfo \<Rightarrow> error + string" where
  "staticNetworkBootParam info =
     (if 32 < ni_PrefixLen info then Inl (Panic ''index out of range'')
      else
        let dns = take 2 (ni_DNS info @ ['''', '''']) in
        Inr (join (CHR '':'')
          [ni_IP info, '''', ni_Gateway info, ip_string (net_mask (ni_PrefixLen info)), '''', '''', ''off'',
           dns ! 0, dns ! 1, '''']))"

definition buildConfig ::
  "fc_env \<Rightarrow> ImpVMClassSpec \<Rightarrow> string \<Rightarrow> string \<Rightarrow> NetworkInfo option \<Rightarrow> bool \<Rightarrow> error + fc_config" where
  "buildConfig env class rootfsPath sockPath netInfo gaEnabled =
     (case (case netInfo of
              Some info \<Rightarrow> if \<not> ni_DHCP info then (case staticNetworkBootParam info of Inl e \<Rightarrow> Inl e | Inr p \<Rightarrow> Inr ('' ip='' @ p))
                           else Inr ''''
            | None \<Rightarrow> Inr '''') of
        Inl e \<Rightarrow> Inl e
      | Inr ipArg \<Rightarrow>
          Inr \<lparr>fc_SocketPath = sockPath, fc_KernelImagePath = fe_KernelPath env,
             fc_KernelArgs = fe_KernelArgs env @ ipArg @ (if gaEnabled then '' init=/.imp/init'' else ''''),
             fc_RootDrive = rootfsPath, fc_VcpuCount = cs_VCPU class, fc_MemSizeMib = cs_MemoryMiB class,
             fc_Interface = map_option (\<lambda>info. (ni_MACAddr info, ni_TAPName info)) netInfo,
             fc_Vsock = (if gaEnabled then Some (vsockPathFromSocket sockPath) else None), fc_Snapshot = None\<rparr>)"

definition configureSnapshotBoot :: "string \<Rightarrow> fc_config \<Rightarrow> fc_config" where
  "configureSnapshotBoot dir cfg = cfg\<lparr>fc_Snapshot := Some (path_join [dir, ''vm.state''], path_join [dir, ''vm.mem''])\<rparr>"

definition applySnapshotBoot :: "fc_env \<Rightarrow> ImpVM \<Rightarrow> fc_config \<Rightarrow> fc_config fc_io" where
  "applySnapshotBoot env vm cfg =
     and_then (lift (fe_snapshot env (vm_namespace vm) (vs_SnapshotRef (vm_Spec vm)))) (\<lambda>snap.
     ret (if st_SnapshotPath (sn_Status snap) = '''' then cfg
          else configureSnapshotBoot (st_SnapshotPath (sn_Status snap)) cfg))"

section \<open>Networking\<close>

definition releaseNetworkIP :: "fc_env \<Rightarrow> string \<Rightarrow> string \<Rightarrow> string \<Rightarrow> bool fc_io" where
  "releaseNetworkIP env netKey ip holder =
     and_then
       (when_io (fe_Claims env \<and> holder \<noteq> '''')
         (and_then (record_event (Releasing netKey ip holder)) (\<lambda>_.
          and_then (run_lease env (LeaseRelease netKey ip holder)) (\<lambda>_. ret ())))) (\<lambda>_.
     (\<lambda>s. case fs_alloc s of
            None \<Rightarrow> (Inr False, s)
          | Some a \<Rightarrow> (case Release netKey ip a of (wasLast, a') \<Rightarrow> (Inr wasLast, s\<lparr>fs_alloc := Some a'\<rparr>))))"

text \<open>The lease allocator's Allocate as the driver calls it: a success is an entry of the log.\<close>

definition claim_ip :: "fc_env \<Rightarrow> string \<Rightarrow> string \<Rightarrow> string \<Rightarrow> string \<Rightarrow> string fc_io" where
  "claim_ip env netKey subnet gateway holder =
     and_then (run_lease env (LeaseAllocate netKey subnet gateway holder)) (\<lambda>r.
     and_then (raise r) (\<lambda>ip.
     and_then (record_event (Claimed netKey ip holder)) (\<lambda>_. ret ip)))"

definition reserve_local :: "string \<Rightarrow> string \<Rightarrow> unit fc_io" where
  "reserve_local netKey ip = (\<lambda>s. (Inr (), s\<lparr>fs_alloc := map_option (Reserve netKey ip) (fs_alloc s)\<rparr>))"

text \<open>The first host address: the last byte of the network address plus one, which wraps.\<close>

definition default_gateway :: "ipnet \<Rightarrow> string" where
  "default_gateway cidr =
     (let w = (case To4 (net_ip cidr) of Some w \<Rightarrow> w | None \<Rightarrow> 0) in
      ip_string (of_octets (octet 3 w) (octet 2 w) (octet 1 w) ((octet 0 w + 1) mod 256)))"

definition host_network :: "fc_env \<Rightarrow> NetworkInfo \<Rightarrow> NetworkInfo fc_io" where
  "host_network env info =
     (let release = releaseNetworkIP env (ni_NetworkKey info) (ni_IP info) (ni_ClaimHolder info) in
      and_then (host env (EnsureNetwork (ni_BridgeName info) (ni_Gateway info) (ni_PrefixLen info))) (\<lambda>r.
      case r of
        Some e \<Rightarrow> and_then release (\<lambda>_. fail (Err (''ensure bridge: '' @ e)))
      | None \<Rightarrow>
      and_then (host env (SetupVM (ni_TAPName info) (ni_BridgeName info) (ni_MACAddr info))) (\<lambda>r.
      case r of
        Some e \<Rightarrow> and_then release (\<lambda>_. fail (Err (''setup tap: '' @ e)))
      | None \<Rightarrow>
      and_then (when_io (ni_NATEnabled info) (try_host env (EnsureNAT (ni_Subnet info) (ni_EgressInterface info)))) (\<lambda>_.
      if ni_DenyCIDRs info = [] then ret info
      else
        and_then (host env (EnsureEgressDeny (ni_Subnet info) (ni_DenyCIDRs info))) (\<lambda>r.
        case r of
          Some e \<Rightarrow>
            and_then release (\<lambda>_.
            and_then (try_host env (TeardownVM (ni_TAPName info))) (\<lambda>_.
            fail (Err (''ensure egress deny policy: '' @ e))))
        | None \<Rightarrow> ret info)))))"

definition setupNetwork :: "fc_env \<Rightarrow> ImpVM \<Rightarrow> string \<Rightarrow> NetworkInfo fc_io" where
  "setupNetwork env vm networkRef =
     and_then (lift (fe_network env (vm_namespace vm) networkRef)) (\<lambda>impNet.
     let netKey = om_Namespace (net_Meta impNet) @ ''/'' @ om_Name (net_Meta impNet);
         vKey = vmKey vm; spec = net_Spec impNet in
     and_then (raise (resolveAllocationSubnet (Some (fe_pool env)) impNet (vs_NetworkGroup (vm_Spec vm)))) (\<lambda>allocSubnet.
     case ParseCIDR allocSubnet of
       None \<Rightarrow> fail (Err (''parse subnet '' @ allocSubnet))
     | Some cidr \<Rightarrow>
         let gateway = (if ns_Gateway spec = '''' then default_gateway cidr else ns_Gateway spec) in
         if \<not> fe_Claims env then fail (Err ''lease allocator is not configured'')
         else
           and_then (claim_ip env netKey allocSubnet gateway vKey) (\<lambda>ip.
           and_then (reserve_local netKey ip) (\<lambda>_.
           host_network env
             \<lparr>ni_TAPName = TAPName vKey, ni_BridgeName = BridgeName netKey, ni_MACAddr = MACAddr vKey, ni_IP = ip,
              ni_PrefixLen = net_prefix cidr, ni_Gateway = gateway, ni_DNS = ns_DNS spec, ni_Subnet = allocSubnet,
              ni_NetworkKey = netKey, ni_ClaimHolder = vKey, ni_NATEnabled = nat_Enabled (ns_NAT spec),
              ni_EgressInterface = nat_EgressInterface (ns_NAT spec), ni_IsLAN = False, ni_VLANID = 0,
              ni_ParentInterface = '''', ni_DHCP = False,
              ni_DenyCIDRs = (case ns_Firewall spec of None \<Rightarrow> [] | Some f \<Rightarrow> fw_DenyCIDRs f)\<rparr>))))"

definition authorizedAttachmentForVM :: "fc_env \<Rightarrow> ImpVM \<Rightarrow> ImpNetworkAttachment option" where
  "authorizedAttachmentForVM env vm =
     (case fe_attachments env (vm_namespace vm) of
        Inl _ \<Rightarrow> None
      | Inr atts \<Rightarrow>
          let found = filter (\<lambda>att. as_VMRef (na_Spec att) = vm_name vm \<and> authorized att) atts in
          if found = [] then None
          else Some (sort_slice (fe_sort env) (\<lambda>a b. om_Name (na_Meta a) < om_Name (na_Meta b)) found ! 0))"

definition resolveLANDefinition :: "fc_env \<Rightarrow> string \<Rightarrow> LANAttachmentSpec option" where
  "resolveLANDefinition env name = find_definition (fe_config env) name"

definition resolveNodeLANBinding :: "fc_env \<Rightarrow> string \<Rightarrow> string \<Rightarrow> NodeLANBinding option" where
  "resolveNodeLANBinding env nodeName defName = find_binding (fe_profile env nodeName) defName"

definition setupLANAttachment :: "fc_env \<Rightarrow> ImpVM \<Rightarrow> NetworkInfo option fc_io" where
  "setupLANAttachment env vm =
     (case authorizedAttachmentForVM env vm of
        None \<Rightarrow> ret None
      | Some att \<Rightarrow>
          (case resolveLANDefinition env (as_AttachmentRef (na_Spec att)) of
             None \<Rightarrow> fail (Err ''attachment references missing definition'')
           | Some def \<Rightarrow>
               (case resolveNodeLANBinding env (fe_NodeName env) (la_Name def) of
                  None \<Rightarrow> fail (Err ''node profile has no LAN binding for definition'')
                | Some binding \<Rightarrow>
                    if \<not> fe_LAN env then fail (Err ''network manager does not support LAN attachments'')
                    else
                      let vKey = vmKey vm;
                          bridgeName = (if 0 < la_VLANID def then BridgeName (''lan/'' @ la_Name def) else nb_ParentInterface binding) in
                      and_then (must env (EnsureLANBridge bridgeName (nb_ParentInterface binding) (la_VLANID def))
                          ''ensure lan bridge for attachment'') (\<lambda>_.
                      and_then (must env (SetupVM (TAPName vKey) bridgeName (MACAddr vKey)) ''setup tap for attachment'') (\<lambda>_.
                      ret (Some
                        \<lparr>ni_TAPName = TAPName vKey, ni_BridgeName = bridgeName, ni_MACAddr = MACAddr vKey, ni_IP = '''',
                         ni_PrefixLen = 0, ni_Gateway = '''', ni_DNS = [], ni_Subnet = la_SubnetCIDR def,
                         ni_NetworkKey = ''lan/'' @ la_Name def, ni_ClaimHolder = '''', ni_NATEnabled = False,
                         ni_EgressInterface = '''', ni_IsLAN = True, ni_VLANID = la_VLANID def,
                         ni_ParentInterface = nb_ParentInterface binding, ni_DHCP = (as_DHCP (na_Spec att) = Some True),
                         ni_DenyCIDRs = []\<rparr>))))))"

definition teardownLANAttachment :: "fc_env \<Rightarrow> NetworkInfo \<Rightarrow> unit fc_io" where
  "teardownLANAttachment env info =
     when_io (fe_LAN env)
       (try_host env (TeardownLANBridgeIfUnused (ni_BridgeName info) (ni_ParentInterface info) (ni_VLANID info)))"

section \<open>The operations of VMDriver\<close>

definition cleanupSocketFiles :: "fc_env \<Rightarrow> string list \<Rightarrow> unit fc_io" where
  "cleanupSocketFiles env paths = for_each (\<lambda>p. when_io (p \<noteq> '''') (try_host env (RemoveFile p))) paths"

definition buildRootfs :: "fc_env \<Rightarrow> ImpVM \<Rightarrow> build_option list \<Rightarrow> string fc_io" where
  "buildRootfs env vm opts =
     (let sp = vm_Spec vm;
          layers = (if vs_RunnerLayer sp \<noteq> '''' then [vs_RunnerLayer sp] else []) @
                   (if vs_CiliumLayer sp \<noteq> '''' then [vs_CiliumLayer sp] else []) in
      (\<lambda>s. case fe_build env (fs_log s) (vs_Image sp) layers opts of
             Inl e \<Rightarrow> (Inl (Err (''build rootfs: '' @ e)), note_event (Built (vs_Image sp) layers opts) s)
           | Inr p \<Rightarrow> (Inr p, note_event (Built (vs_Image sp) layers opts) s)))"

definition snapshot_boot :: "fc_env \<Rightarrow> ImpVM \<Rightarrow> fc_config \<Rightarrow> fc_config fc_io" where
  "snapshot_boot env vm cfg =
     (if vt_SuspendSnapshotPath (vm_Status vm) \<noteq> ''''
      then ret (configureSnapshotBoot (vt_SuspendSnapshotPath (vm_Status vm)) cfg)
      else if vs_SnapshotRef (vm_Spec vm) \<noteq> '''' then applySnapshotBoot env vm cfg
      else ret cfg)"

definition register_proc :: "string \<Rightarrow> fcProc \<Rightarrow> unit fc_io" where
  "register_proc key p = (\<lambda>s. (Inr (), s\<lparr>fs_procs := (fs_procs s)(key \<mapsto> p)\<rparr>))"

definition launch :: "fc_env \<Rightarrow> fc_config \<Rightarrow> string \<Rightarrow> string \<Rightarrow> int fc_io" where
  "launch env cfg sockPath vsockPath =
     (let abort = (\<lambda>what. and_then (try_host env (StopVMM cfg)) (\<lambda>_.
                     and_then (cleanupSocketFiles env [sockPath, vsockPath]) (\<lambda>_. fail (Err what)))) in
      and_then (must env (NewMachine (fe_BinPath env) cfg) ''create machine'') (\<lambda>_.
      and_then (host env (MachineStart cfg)) (\<lambda>r.
      case r of
        Some e \<Rightarrow> abort (''start machine: '' @ e)
      | None \<Rightarrow>
          (\<lambda>s. case fe_pid env (fs_log s) cfg of
                 Inl e \<Rightarrow> abort (''get pid: '' @ e) s
               | Inr pid \<Rightarrow> (Inr pid, s)))))"

definition boot :: "fc_env \<Rightarrow> ImpVM \<Rightarrow> ImpVMClassSpec \<Rightarrow> bool \<Rightarrow> string \<Rightarrow> NetworkInfo option \<Rightarrow> int fc_io" where
  "boot env vm class gaEnabled rootfsPath netInfo =
     (let sockPath = socketPath env vm; vsockPath = vsockPathFromSocket sockPath;
          serial = path_join [fe_SocketDir env, vm_namespace vm @ ''-'' @ vm_name vm @ ''.serial.log''] in
      and_then (must env (MkdirSockets (fe_SocketDir env)) ''socket dir'') (\<lambda>_.
      and_then (cleanupSocketFiles env [sockPath, vsockPath]) (\<lambda>_.
      and_then (raise (buildConfig env class rootfsPath sockPath netInfo gaEnabled)) (\<lambda>cfg.
      and_then (snapshot_boot env vm cfg) (\<lambda>cfg.
      and_then (must env (OpenSerialLog serial) ''open serial log'') (\<lambda>_.
      deferring
        (and_then (launch env cfg sockPath vsockPath) (\<lambda>pid.
         and_then (register_proc (vmKey vm)
            \<lparr>fp_machine = Some cfg, fp_pid = pid, fp_socket = sockPath,
             fp_vsockPath = (if gaEnabled then vsockPath else ''''), fp_netInfo = netInfo, fp_probes = gaEnabled\<rparr>) (\<lambda>_.
         and_then (when_io gaEnabled (try_host env (RunProbes (vmKey vm)))) (\<lambda>_.
         ret pid))))
        (try_host env (CloseSerialLog serial))))))))"

definition fc_Start :: "fc_env \<Rightarrow> ImpVM \<Rightarrow> int fc_io" where
  "fc_Start env vm =
     (case vs_ClassRef (vm_Spec vm) of
        None \<Rightarrow> fail (Err ''vm has no classRef'')
      | Some className \<Rightarrow>
          and_then (lift (fe_class env className)) (\<lambda>class.
          let gaEnabled = ResolveGuestAgentEnabled vm (Some class) in
          and_then (buildRootfs env vm (rootfsBuildOptions env vm class gaEnabled)) (\<lambda>rootfsPath.
          case vs_NetworkRef (vm_Spec vm) of
            Some networkRef \<Rightarrow>
              if fe_Net env then
                and_then (setupNetwork env vm networkRef) (\<lambda>netInfo.
                on_error (boot env vm class gaEnabled rootfsPath (Some netInfo))
                  (and_then (releaseNetworkIP env (ni_NetworkKey netInfo) (ni_IP netInfo) (ni_ClaimHolder netInfo)) (\<lambda>_.
                   try_host env (TeardownVM (ni_TAPName netInfo)))))
              else boot env vm class gaEnabled rootfsPath None
          | None \<Rightarrow>
              if fe_Net env then
                and_then (setupLANAttachment env vm) (\<lambda>netInfo.
                on_error (boot env vm class gaEnabled rootfsPath netInfo)
                  (case netInfo of
                     None \<Rightarrow> fail (Panic ''invalid memory address or nil pointer dereference'')
                   | Some info \<Rightarrow> try_host env (TeardownVM (ni_TAPName info))))
              else boot env vm class gaEnabled rootfsPath None)))"

definition stop_network :: "fc_env \<Rightarrow> NetworkInfo \<Rightarrow> unit fc_io" where
  "stop_network env info =
     and_then (when_io (fe_Net env) (try_host env (TeardownVM (ni_TAPName info)))) (\<lambda>_.
     if ni_IsLAN info then teardownLANAttachment env info
     else
       and_then (releaseNetworkIP env (ni_NetworkKey info) (ni_IP info) (ni_ClaimHolder info)) (\<lambda>wasLast.
       and_then (when_io (wasLast \<and> ni_NATEnabled info \<and> fe_Net env)
         (try_host env (RemoveNAT (ni_Subnet info) (ni_EgressInterface info)))) (\<lambda>_.
       when_io (wasLast \<and> ni_DenyCIDRs info \<noteq> [] \<and> fe_Net env) (try_host env (RemoveEgressDeny (ni_Subnet info))))))"

definition forget_proc :: "string \<Rightarrow> unit fc_io" where
  "forget_proc key = (\<lambda>s. (Inr (), s\<lparr>fs_procs := (fs_procs s)(key := None)\<rparr>))"

definition fc_Stop :: "fc_env \<Rightarrow> ImpVM \<Rightarrow> unit fc_io" where
  "fc_Stop env vm = (\<lambda>s.
     case fs_procs s (vmKey vm) of
       None \<Rightarrow> (Inr (), s)
     | Some proc \<Rightarrow>
         and_then (when_io (fp_probes proc) (try_host env (CancelProbes (vmKey vm)))) (\<lambda>_.
         and_then
           (case fp_machine proc of
              None \<Rightarrow> ret ()
            | Some m \<Rightarrow> and_then (try_host env (Shutdown m)) (\<lambda>_. try_host env (StopVMM m))) (\<lambda>_.
         and_then (cleanupSocketFiles env [fp_socket proc, fp_vsockPath proc]) (\<lambda>_.
         and_then (case fp_netInfo proc of None \<Rightarrow> ret () | Some info \<Rightarrow> stop_network env info) (\<lambda>_.
         forget_proc (vmKey vm))))) s)"

definition fc_Inspect :: "fc_env \<Rightarrow> ImpVM \<Rightarrow> VMState fc_io" where
  "fc_Inspect env vm = (\<lambda>s.
     case fs_procs s (vmKey vm) of
       None \<Rightarrow> (Inr \<lparr>st_Running = False, st_IP = '''', st_PID = 0\<rparr>, s)
     | Some proc \<Rightarrow>
         (case fe_signal env (fs_log s) (fp_pid proc) of
            ProcessGone \<Rightarrow> and_then (forget_proc (vmKey vm)) (\<lambda>_. ret \<lparr>st_Running = False, st_IP = '''', st_PID = 0\<rparr>) s
          | SignalError e \<Rightarrow> (Inl (Err (''inspect '' @ vmKey vm @ '': '' @ e)), s)
          | SignalOk \<Rightarrow>
              (Inr \<lparr>st_Running = True, st_IP = (case fp_netInfo proc of None \<Rightarrow> '''' | Some i \<Rightarrow> ni_IP i), st_PID = fp_pid proc\<rparr>, s)))"

definition fc_Snapshot :: "fc_env \<Rightarrow> ImpVM \<Rightarrow> string \<Rightarrow> (string \<times> string) fc_io" where
  "fc_Snapshot env vm destDir = (\<lambda>s.
     case fs_procs s (vmKey vm) of
       None \<Rightarrow> (Inl (Err (''VM '' @ vmKey vm @ '' is not running on this node'')), s)
     | Some proc \<Rightarrow>
         (case fp_machine proc of
            None \<Rightarrow> (Inl (Err (''cannot snapshot VM '' @ vmKey vm @ '': no machine handle (started by a previous agent process)'')), s)
          | Some m \<Rightarrow>
              let statePath = path_join [destDir, ''vm.state'']; memPath = path_join [destDir, ''vm.mem''] in
              and_then (must env (PauseVM m) ''pause VM'') (\<lambda>_.
              deferring
                (and_then (must env (CreateSnapshot m memPath statePath) ''CreateSnapshot'') (\<lambda>_. ret (statePath, memPath)))
                (try_host env (ResumeVM m))) s))"

definition fc_IsAlive :: "fc_env \<Rightarrow> int \<Rightarrow> bool fc_io" where
  "fc_IsAlive env pid = (\<lambda>s. (Inr (fe_signal env (fs_log s) pid = SignalOk), s))"

definition fc_Reattach :: "fc_env \<Rightarrow> ImpVM \<Rightarrow> unit fc_io" where
  "fc_Reattach env vm = (\<lambda>s.
     let sock = socketPath env vm in
     if \<not> fe_stat env (fs_log s) sock then (Inl (Err (''reattach '' @ vmKey vm @ '': socket not found - PID may be reused'')), s)
     else register_proc (vmKey vm)
            \<lparr>fp_machine = None, fp_pid = vt_RuntimePID (vm_Status vm), fp_socket = sock, fp_vsockPath = '''',
             fp_netInfo = None, fp_probes = False\<rparr> s)"

definition GetVSockPath :: "fc_state \<Rightarrow> string \<Rightarrow> string option" where
  "GetVSockPath s key =
     (case fs_procs s key of
        None \<Rightarrow> None
      | Some proc \<Rightarrow> if fp_vsockPath proc = '''' then None else Some (fp_vsockPath proc))"

text \<open>A restart of the agent: the new driver knows no process.\<close>

definition restarted :: "fc_state \<Rightarrow> fc_state" where
  "restarted s = s\<lparr>fs_procs := (\<lambda>_. None), fs_alloc := map_option (\<lambda>_. NewAllocator) (fs_alloc s)\<rparr>"

section \<open>Resources\<close>

text \<open>What a driver must give back: a TAP device that was set up, an address it claimed, a VMM process it tried
  to start. A resource is open until its removal is attempted; the removals are best effort.\<close>

datatype resource = Tap string | Claim string string string | Vmm fc_config

fun change :: "fc_event \<Rightarrow> resource set \<Rightarrow> resource set" where
  "change (Did (SetupVM t b m) None) R = insert (Tap t) R"
| "change (Did (TeardownVM t) r) R = R - {Tap t}"
| "change (Did (MachineStart c) r) R = insert (Vmm c) R"
| "change (Did (StopVMM c) r) R = R - {Vmm c}"
| "change (Claimed k i h) R = insert (Claim k i h) R"
| "change (Releasing k i h) R = R - {Claim k i h}"
| "change _ R = R"

definition opened :: "fc_event list \<Rightarrow> resource set" where
  "opened log = fold change log {}"

definition net_res :: "NetworkInfo \<Rightarrow> resource set" where
  "net_res i = insert (Tap (ni_TAPName i)) (if ni_IsLAN i then {} else {Claim (ni_NetworkKey i) (ni_IP i) (ni_ClaimHolder i)})"

definition res_of :: "fcProc \<Rightarrow> resource set" where
  "res_of p = (case fp_netInfo p of None \<Rightarrow> {} | Some i \<Rightarrow> net_res i) \<union>
     (case fp_machine p of None \<Rightarrow> {} | Some c \<Rightarrow> {Vmm c})"

lemma opened_snoc [simp]: "opened (log @ [e]) = change e (opened log)"
  by (simp add: opened_def)

lemma opened_append: "opened (log @ es) = fold change es (opened log)"
  by (simp add: opened_def)

lemma change_mono: "A \<subseteq> B \<Longrightarrow> change e A \<subseteq> change e B"
  by (cases "(e, A)" rule: change.cases) auto

text \<open>The assertions of the proofs: at most the resources \<open>X\<close> are open, and the map of processes is \<open>f\<close>.\<close>

definition holding :: "resource set \<Rightarrow> (string \<Rightarrow> fcProc option) \<Rightarrow> fc_state \<Rightarrow> bool" where
  "holding X f s \<longleftrightarrow> opened (fs_log s) \<subseteq> X \<and> fs_procs s = f"

lemma holding_mono: "holding X f s \<Longrightarrow> X \<subseteq> Y \<Longrightarrow> holding Y f s"
  by (auto simp: holding_def)

lemma triple_holding:
  "triple (holding X f) m (\<lambda>x. holding (Y x) f) (holding Z f) \<Longrightarrow> (\<And>x. Y x \<subseteq> Y' x) \<Longrightarrow> Z \<subseteq> Z' \<Longrightarrow>
   triple (holding X f) m (\<lambda>x. holding (Y' x) f) (holding Z' f)"
  by (erule triple_weaken) (auto intro: holding_mono)

lemma record_triple: "triple (holding X f) (record_event e) (\<lambda>_. holding (change e X) f) E"
  by (simp add: triple_def record_event_def note_event_def holding_def change_mono)

lemma host_triple: "triple (holding X f) (host env c) (\<lambda>r. holding (change (Did c r) X) f) E"
  by (simp add: triple_def host_def note_event_def holding_def change_mono Let_def)

lemma must_triple:
  assumes "\<And>e. change (Did c (Some e)) X \<subseteq> Z"
  shows "triple (holding X f) (must env c what) (\<lambda>_. holding (change (Did c None) X) f) (holding Z f)"
  unfolding must_def
  by (rule triple_then [OF host_triple])
    (use assms in \<open>auto intro!: triple_ret triple_fail intro: holding_mono split: option.split\<close>)

lemma must_quiet:
  assumes "\<And>r. change (Did c r) X = X"
  shows "triple (holding X f) (must env c what) (\<lambda>_. holding X f) (holding X f)"
  using must_triple [of c X X f env what] assms by simp

lemma try_triple:
  assumes "\<And>r. change (Did c r) X \<subseteq> Y"
  shows "triple (holding X f) (try_host env c) (\<lambda>_. holding Y f) E"
  unfolding try_host_def
  by (rule triple_then [OF host_triple]) (use assms in \<open>auto intro!: triple_ret intro: holding_mono\<close>)

lemma lease_triple: "triple (holding X f) (run_lease env p) (\<lambda>_. holding X f) E"
proof (induction p)
  case (Done x) then show ?case by (simp add: triple_ret)
qed (auto simp: triple_def note_event_def holding_def Let_def)

lemma release_triple:
  "triple (holding X f) (releaseNetworkIP env k i h)
     (\<lambda>_. holding (if fe_Claims env \<and> h \<noteq> '''' then X - {Claim k i h} else X) f) E"
proof -
  have alloc: "triple (holding Y f) (\<lambda>s. case fs_alloc s of None \<Rightarrow> (Inr False, s)
      | Some a \<Rightarrow> (case Release k i a of (wasLast, a') \<Rightarrow> (Inr wasLast, s\<lparr>fs_alloc := Some a'\<rparr>))) (\<lambda>_. holding Y f) E" for Y
    by (auto simp: triple_def holding_def split: option.split prod.split)
  show ?thesis
    unfolding releaseNetworkIP_def
    by (rule triple_then [OF _ alloc])
      (auto intro!: triple_when triple_then [OF record_triple] triple_then [OF lease_triple] triple_ret)
qed

lemma cleanup_triple: "triple (holding X f) (cleanupSocketFiles env ps) (\<lambda>_. holding X f) E"
proof (unfold cleanupSocketFiles_def, induction ps)
  case (Cons p ps)
  have "triple (holding X f) (when_io (p \<noteq> '''') (try_host env (RemoveFile p))) (\<lambda>_. holding X f) E"
    by (rule triple_when) (auto intro: try_triple)
  then show ?case using triple_then [OF _ Cons] by simp
qed (simp add: triple_ret)

section \<open>Starting\<close>

lemma host_network_triple:
  assumes "fe_Claims env" "ni_ClaimHolder i \<noteq> ''''" "\<not> ni_IsLAN i"
  shows "triple (holding (insert (Claim (ni_NetworkKey i) (ni_IP i) (ni_ClaimHolder i)) X) f) (host_network env i)
    (\<lambda>x s. x = i \<and> holding (X \<union> net_res i) f s) (holding X f)"
proof -
  let ?c = "Claim (ni_NetworkKey i) (ni_IP i) (ni_ClaimHolder i)" and ?t = "Tap (ni_TAPName i)"
  have release: "triple (holding Y f) (releaseNetworkIP env (ni_NetworkKey i) (ni_IP i) (ni_ClaimHolder i))
      (\<lambda>_. holding (Y - {?c}) f) E" for Y E
    using release_triple [of Y f env "ni_NetworkKey i" "ni_IP i" "ni_ClaimHolder i" E] assms(1,2) by simp
  have nat: "triple (holding Y f) (when_io b (try_host env (EnsureNAT n e))) (\<lambda>_. holding Y f) E" for Y b n e E
    by (rule triple_when) (auto intro: try_triple)
  have abort: "triple (holding Y f) (and_then (releaseNetworkIP env (ni_NetworkKey i) (ni_IP i) (ni_ClaimHolder i)) (\<lambda>_. fail e))
      Q (holding X f)" if "Y \<subseteq> insert ?c X" for Y e and Q :: "NetworkInfo \<Rightarrow> fc_state \<Rightarrow> bool"
    by (rule triple_then [OF release]) (use that in \<open>auto intro!: triple_fail intro: holding_mono\<close>)
  have deny: "triple (holding (insert ?t (insert ?c X)) f)
      (and_then (releaseNetworkIP env (ni_NetworkKey i) (ni_IP i) (ni_ClaimHolder i)) (\<lambda>_.
       and_then (try_host env (TeardownVM (ni_TAPName i))) (\<lambda>_. fail e))) Q (holding X f)" for e and Q :: "NetworkInfo \<Rightarrow> fc_state \<Rightarrow> bool"
    by (rule triple_then [OF release], rule triple_then [OF try_triple [where Y = X]])
      (auto intro!: triple_fail)
  have both: "holding (insert ?t (insert ?c X)) f s \<Longrightarrow> holding (X \<union> net_res i) f s" for s
    using assms(3) by (auto simp: net_res_def elim: holding_mono)
  show ?thesis
    unfolding host_network_def Let_def
    by (auto intro!: triple_then [OF host_triple] triple_then [OF nat] abort deny triple_ret both split: option.split)
qed

lemma claim_triple:
  "triple (holding X f) (claim_ip env k subnet gw h) (\<lambda>ip. holding (insert (Claim k ip h) X) f) (holding X f)"
  unfolding claim_ip_def
  by (rule triple_then [OF lease_triple], rule triple_then [OF triple_raise [where Q = "\<lambda>_. holding X f"]], simp, simp)
    (auto intro!: triple_then [OF record_triple] triple_ret)

lemma reserve_triple: "triple (holding X f) (reserve_local k ip) (\<lambda>_. holding X f) E"
  by (simp add: triple_def reserve_local_def holding_def)

text \<open>What a process needs so that stopping it gives its network back.\<close>

definition returnable :: "fc_env \<Rightarrow> NetworkInfo \<Rightarrow> bool" where
  "returnable env i \<longleftrightarrow> fe_Net env \<and> (\<not> ni_IsLAN i \<longrightarrow> fe_Claims env \<and> ni_ClaimHolder i \<noteq> '''')"

lemma vmKey_nonempty [simp]: "vmKey vm \<noteq> ''''" "'''' \<noteq> vmKey vm"
  by (simp_all add: vmKey_def)

lemma triple_get: "(\<And>x. triple P (m x) Q E) \<Longrightarrow> (\<And>s. P s \<Longrightarrow> E s) \<Longrightarrow> triple P (and_then (lift r) m) Q E"
  by (rule triple_then [OF triple_lift [where Q = "\<lambda>_. P"]])

lemma triple_value: "(\<And>x. triple P (m x) Q E) \<Longrightarrow> (\<And>s. P s \<Longrightarrow> E s) \<Longrightarrow> triple P (and_then (raise r) m) Q E"
  by (rule triple_then [OF triple_raise [where Q = "\<lambda>_. P"]])

lemma triple_pure: "(B \<Longrightarrow> triple P m Q E) \<Longrightarrow> triple (\<lambda>s. P s \<and> B) m Q E"
  by (auto simp: triple_def)

lemma setupNetwork_triple:
  assumes "fe_Net env"
  shows "triple (holding X f) (setupNetwork env vm n)
    (\<lambda>i s. holding (X \<union> net_res i) f s \<and> \<not> ni_IsLAN i \<and> returnable env i) (holding X f)"
proof -
  have claimed: "triple (holding X f) (and_then (claim_ip env k sn g (vmKey vm)) (\<lambda>ip. and_then (reserve_local k ip) (\<lambda>_. host_network env (info ip))))
      (\<lambda>i s. holding (X \<union> net_res i) f s \<and> \<not> ni_IsLAN i \<and> returnable env i) (holding X f)"
    if "fe_Claims env" and info: "\<And>ip. ni_NetworkKey (info ip) = k \<and> ni_IP (info ip) = ip \<and> ni_ClaimHolder (info ip) = vmKey vm \<and> \<not> ni_IsLAN (info ip)"
    for k sn g info
  proof (rule triple_then [OF claim_triple], rule triple_then [OF reserve_triple])
    fix ip u
    show "triple (holding (insert (Claim k ip (vmKey vm)) X) f) (host_network env (info ip))
        (\<lambda>i s. holding (X \<union> net_res i) f s \<and> \<not> ni_IsLAN i \<and> returnable env i) (holding X f)"
      using host_network_triple [of env "info ip" X f] that(1) info [of ip] assms
      by (auto simp: returnable_def elim!: triple_weaken)
  qed
  show ?thesis
    unfolding setupNetwork_def Let_def
    by (rule triple_get) (auto intro!: triple_value triple_fail claimed split: option.split)
qed

lemma setupLAN_triple:
  assumes "fe_Net env"
  shows "triple (holding X f) (setupLANAttachment env vm)
    (\<lambda>r s. case r of None \<Rightarrow> holding X f s | Some i \<Rightarrow> holding (X \<union> net_res i) f s \<and> ni_IsLAN i \<and> returnable env i)
    (holding X f)"
  unfolding setupLANAttachment_def Let_def
  using assms
  by (auto intro!: triple_ret triple_fail triple_then [OF must_triple [where Z = X]]
      simp: returnable_def net_res_def elim: holding_mono split: option.split)

lemma launch_triple:
  "triple (holding X f) (launch env cfg sock vsock) (\<lambda>_. holding (insert (Vmm cfg) X) f) (holding X f)"
proof -
  have abort: "triple (holding (insert (Vmm cfg) X) f) (and_then (try_host env (StopVMM cfg)) (\<lambda>_.
      and_then (cleanupSocketFiles env [sock, vsock]) (\<lambda>_. fail e))) Q (holding X f)" for e and Q :: "int \<Rightarrow> fc_state \<Rightarrow> bool"
    by (rule triple_then [OF try_triple [where Y = X]]) (auto intro!: triple_fail triple_then [OF cleanup_triple])
  have pid: "triple (holding (insert (Vmm cfg) X) f) (\<lambda>s. case fe_pid env (fs_log s) cfg of
      Inl e \<Rightarrow> and_then (try_host env (StopVMM cfg)) (\<lambda>_. and_then (cleanupSocketFiles env [sock, vsock]) (\<lambda>_. fail (err e))) s
    | Inr pid \<Rightarrow> (Inr pid, s)) (\<lambda>_. holding (insert (Vmm cfg) X) f) (holding X f)" for err
    using triple_run [OF abort] by (auto simp: triple_def split: sum.split)
  show ?thesis
    unfolding launch_def Let_def
    by (rule triple_then [OF must_triple], simp, rule triple_then [OF host_triple])
      (auto intro: abort pid split: option.split)
qed

definition registered :: "resource set \<Rightarrow> (string \<Rightarrow> fcProc option) \<Rightarrow> string \<Rightarrow> NetworkInfo option \<Rightarrow> fc_state \<Rightarrow> bool" where
  "registered X f key netInfo s \<longleftrightarrow> (\<exists>p. holding (X \<union> res_of p) (f(key \<mapsto> p)) s \<and> fp_netInfo p = netInfo)"

lemma boot_triple:
  "triple (holding X f) (boot env vm class ga rootfs netInfo) (\<lambda>_. registered X f (vmKey vm) netInfo) (holding X f)"
proof -
  have quiet: "triple (holding Y g) (try_host env c) (\<lambda>_. holding Y g) E" if "\<And>r. change (Did c r) Y = Y" for Y g c E
    by (rule try_triple) (simp add: that)
  have close: "triple (registered X f k n) (try_host env (CloseSerialLog p)) (\<lambda>_. registered X f k n) E" for p k n E
    unfolding registered_def
    by (auto simp: triple_def try_host_def host_def note_event_def holding_def Let_def io_run)
  have register: "triple (holding (insert (Vmm cfg) X) f) (register_proc key p)
      (\<lambda>_. holding (insert (Vmm cfg) X) (f(key \<mapsto> p))) E" for cfg key p E
    by (simp add: triple_def register_proc_def holding_def)
  have run: "triple (holding (insert (Vmm cfg) X) f)
      (and_then (register_proc (vmKey vm) p) (\<lambda>_. and_then (when_io b (try_host env (RunProbes (vmKey vm)))) (\<lambda>_. ret pid)))
      (\<lambda>_. registered X f (vmKey vm) netInfo) E"
    if "fp_machine p = Some cfg" "fp_netInfo p = netInfo" for cfg p b pid E
  proof -
    have "holding (insert (Vmm cfg) X) (f(vmKey vm \<mapsto> p)) s \<Longrightarrow> registered X f (vmKey vm) netInfo s" for s
      unfolding registered_def using that by (intro exI [of _ p]) (auto simp: res_of_def elim: holding_mono)
    then show ?thesis
      by (intro triple_then [OF register] triple_then [OF triple_when [OF quiet]] triple_ret) auto
  qed
  have config: "triple (holding X f) (snapshot_boot env vm cfg) (\<lambda>_. holding X f) (holding X f)" for cfg
    by (auto simp: snapshot_boot_def applySnapshotBoot_def intro!: triple_ret triple_get)
  show ?thesis
    unfolding boot_def Let_def
    apply (rule triple_then [OF must_quiet], simp, rule triple_then [OF cleanup_triple], rule triple_value,
        rule triple_then [OF config], rule triple_then [OF must_quiet], simp)
     apply (rule triple_deferring)
       apply (rule triple_then [OF launch_triple], rule run)
        apply simp
       apply simp
      apply (rule close)
     apply (rule quiet)
     apply simp
    apply simp
    done
qed

text \<open>A start that fails, even by a panic, leaves nothing open that was not open before and the map as it
  was; one that succeeds has entered a process that owns what was opened.\<close>

definition started :: "fc_env \<Rightarrow> resource set \<Rightarrow> (string \<Rightarrow> fcProc option) \<Rightarrow> string \<Rightarrow> fc_state \<Rightarrow> bool" where
  "started env X f key s \<longleftrightarrow>
     (\<exists>p. holding (X \<union> res_of p) (f(key \<mapsto> p)) s \<and> (\<forall>i. fp_netInfo p = Some i \<longrightarrow> returnable env i))"

lemma started_networked:
  assumes "registered (X \<union> net_res i) f key (Some i) s" and "returnable env i"
  shows "started env X f key s"
proof -
  obtain p where "holding (X \<union> net_res i \<union> res_of p) (f(key \<mapsto> p)) s" "fp_netInfo p = Some i"
    using assms(1) unfolding registered_def by blast
  then show ?thesis
    using assms(2) unfolding started_def by (intro exI [of _ p]) (auto simp: res_of_def elim: holding_mono)
qed

lemma start_plain_triple:
  "triple (holding X f) (boot env vm cls ga rootfs None) (\<lambda>_. started env X f (vmKey vm)) (holding X f)"
  by (rule triple_weaken [OF boot_triple]) (auto simp: registered_def started_def)

lemma start_network_triple:
  "triple (\<lambda>s. holding (X \<union> net_res i) f s \<and> \<not> ni_IsLAN i \<and> returnable env i)
     (on_error (boot env vm cls ga rootfs (Some i))
       (and_then (releaseNetworkIP env (ni_NetworkKey i) (ni_IP i) (ni_ClaimHolder i)) (\<lambda>_. try_host env (TeardownVM (ni_TAPName i)))))
     (\<lambda>_. started env X f (vmKey vm)) (holding X f)"
proof -
  have giveback: "triple (holding (X \<union> net_res i) f)
      (and_then (releaseNetworkIP env (ni_NetworkKey i) (ni_IP i) (ni_ClaimHolder i)) (\<lambda>_. try_host env (TeardownVM (ni_TAPName i))))
      (\<lambda>_. holding X f) (holding X f)" if "returnable env i" "\<not> ni_IsLAN i"
    by (rule triple_then [OF release_triple], rule try_triple) (use that in \<open>auto simp: net_res_def returnable_def\<close>)
  show ?thesis
    by (rule triple_pure, rule triple_on_error [OF triple_weaken [OF boot_triple] giveback]) (auto intro: started_networked)
qed

lemma start_lan_triple:
  "triple (\<lambda>s. case r of None \<Rightarrow> holding X f s | Some i \<Rightarrow> holding (X \<union> net_res i) f s \<and> ni_IsLAN i \<and> returnable env i)
     (on_error (boot env vm cls ga rootfs r) (case r of None \<Rightarrow> fail e | Some i \<Rightarrow> try_host env (TeardownVM (ni_TAPName i))))
     (\<lambda>_. started env X f (vmKey vm)) (holding X f)"
proof (cases r)
  case None
  then show ?thesis using triple_on_error [OF start_plain_triple triple_fail [of "holding X f" "holding X f" e]] by simp
next
  case (Some i)
  have teardown: "triple (holding (X \<union> net_res i) f) (try_host env (TeardownVM (ni_TAPName i))) (\<lambda>_. holding X f) (holding X f)"
    if "ni_IsLAN i"
    by (rule try_triple) (use that in \<open>auto simp: net_res_def\<close>)
  have "triple (\<lambda>s. holding (X \<union> net_res i) f s \<and> ni_IsLAN i \<and> returnable env i)
      (on_error (boot env vm cls ga rootfs (Some i)) (try_host env (TeardownVM (ni_TAPName i))))
      (\<lambda>_. started env X f (vmKey vm)) (holding X f)"
    by (rule triple_pure, rule triple_on_error [OF triple_weaken [OF boot_triple] teardown]) (auto intro: started_networked)
  then show ?thesis using Some by simp
qed

lemma Start_triple: "triple (holding X f) (fc_Start env vm) (\<lambda>_. started env X f (vmKey vm)) (holding X f)"
proof -
  have rootfs: "triple (holding X f) (buildRootfs env vm opts) (\<lambda>_. holding X f) (holding X f)" for opts
    by (auto simp: triple_def buildRootfs_def Let_def note_event_def holding_def split: sum.split)
  show ?thesis
    unfolding fc_Start_def Let_def
    by (auto intro!: triple_fail triple_get triple_then [OF rootfs] start_plain_triple
        triple_then [OF setupNetwork_triple start_network_triple] triple_then [OF setupLAN_triple start_lan_triple]
        split: option.split)
qed

section \<open>Stopping\<close>

lemma stop_network_triple:
  assumes "returnable env i"
  shows "triple (holding X f) (stop_network env i) (\<lambda>_. holding (X - net_res i) f) E"
proof -
  have quiet: "triple (holding Y f) (when_io b (try_host env c)) (\<lambda>_. holding Y f) E" if "\<And>r. change (Did c r) Y = Y" for Y b c
    by (rule triple_when) (auto intro!: try_triple simp: that)
  have lan: "ni_IsLAN i \<Longrightarrow> triple (holding (X - {Tap (ni_TAPName i)}) f) (teardownLANAttachment env i) (\<lambda>_. holding (X - net_res i) f) E"
    unfolding teardownLANAttachment_def net_res_def by (simp add: quiet)
  have network: "triple (holding (X - {Tap (ni_TAPName i)}) f)
      (and_then (releaseNetworkIP env (ni_NetworkKey i) (ni_IP i) (ni_ClaimHolder i)) (\<lambda>wasLast.
       and_then (when_io (b1 wasLast) (try_host env (RemoveNAT n e))) (\<lambda>_.
       when_io (b2 wasLast) (try_host env (RemoveEgressDeny n'))))) (\<lambda>_. holding (X - net_res i) f) E"
    if "\<not> ni_IsLAN i" for b1 b2 n e n'
    by (rule triple_then [OF release_triple], rule triple_then [OF quiet], simp, rule triple_weaken [OF quiet])
      (use assms that in \<open>auto simp: net_res_def returnable_def holding_def\<close>)
  show ?thesis
    unfolding stop_network_def
    by (rule triple_then [OF triple_when [OF try_triple [where Y = "X - {Tap (ni_TAPName i)}"]]])
      (use assms in \<open>auto simp: returnable_def intro: lan network\<close>)
qed

text \<open>Stopping gives back everything its process owns and forgets the process, whatever fails on the way.\<close>

lemma Stop_triple:
  assumes "f (vmKey vm) = Some p" and "\<And>i. fp_netInfo p = Some i \<Longrightarrow> returnable env i"
  shows "triple (holding X f) (fc_Stop env vm) (\<lambda>_. holding (X - res_of p) (f(vmKey vm := None))) E"
proof -
  let ?V = "case fp_machine p of None \<Rightarrow> {} | Some c \<Rightarrow> {Vmm c}"
  let ?N = "case fp_netInfo p of None \<Rightarrow> {} | Some i \<Rightarrow> net_res i"
  have cancel: "triple (holding X f) (when_io b (try_host env (CancelProbes k))) (\<lambda>_. holding X f) E" for b k
    by (rule triple_when) (auto intro: try_triple)
  have machine: "triple (holding X f) (case fp_machine p of None \<Rightarrow> ret ()
      | Some m \<Rightarrow> and_then (try_host env (Shutdown m)) (\<lambda>_. try_host env (StopVMM m))) (\<lambda>_. holding (X - ?V) f) E"
    by (auto intro!: triple_ret triple_then [OF try_triple [where Y = X]] try_triple split: option.split)
  have net: "triple (holding (X - ?V) f) (case fp_netInfo p of None \<Rightarrow> ret () | Some i \<Rightarrow> stop_network env i)
      (\<lambda>_. holding (X - ?V - ?N) f) E"
    using stop_network_triple assms(2) by (auto intro!: triple_ret split: option.split)
  have forget: "triple (holding (X - ?V - ?N) f) (forget_proc k) (\<lambda>_. holding (X - res_of p) (f(k := None))) E" for k
    by (auto simp: triple_def forget_proc_def holding_def res_of_def)
  have "triple (holding X f) (and_then (when_io (fp_probes p) (try_host env (CancelProbes (vmKey vm)))) (\<lambda>_.
      and_then (case fp_machine p of None \<Rightarrow> ret ()
        | Some m \<Rightarrow> and_then (try_host env (Shutdown m)) (\<lambda>_. try_host env (StopVMM m))) (\<lambda>_.
      and_then (cleanupSocketFiles env [fp_socket p, fp_vsockPath p]) (\<lambda>_.
      and_then (case fp_netInfo p of None \<Rightarrow> ret () | Some i \<Rightarrow> stop_network env i) (\<lambda>_.
      forget_proc (vmKey vm)))))) (\<lambda>_. holding (X - res_of p) (f(vmKey vm := None))) E"
    by (rule triple_then [OF cancel], rule triple_then [OF machine], rule triple_then [OF cleanup_triple],
        rule triple_then [OF net], rule forget)
  then show ?thesis using assms(1) unfolding triple_def fc_Stop_def holding_def by simp
qed

section \<open>Histories\<close>

datatype driver_op = StartOp ImpVM | StopOp ImpVM | InspectOp ImpVM | SnapshotOp ImpVM string | ReattachOp ImpVM

fun driver_step :: "fc_env \<Rightarrow> driver_op \<Rightarrow> fc_state \<Rightarrow> fc_state" where
  "driver_step env (StartOp vm) s = snd (fc_Start env vm s)"
| "driver_step env (StopOp vm) s = snd (fc_Stop env vm s)"
| "driver_step env (InspectOp vm) s = snd (fc_Inspect env vm s)"
| "driver_step env (SnapshotOp vm dir) s = snd (fc_Snapshot env vm dir s)"
| "driver_step env (ReattachOp vm) s = snd (fc_Reattach env vm s)"

text \<open>A VM is started or taken over only when it is not registered, and no inspection finds a process dead.\<close>

fun driver_legal :: "fc_env \<Rightarrow> driver_op list \<Rightarrow> fc_state \<Rightarrow> bool" where
  "driver_legal env [] s = True"
| "driver_legal env (op # ops) s =
     ((case op of
         StartOp vm \<Rightarrow> fs_procs s (vmKey vm) = None
       | ReattachOp vm \<Rightarrow> fs_procs s (vmKey vm) = None
       | InspectOp vm \<Rightarrow>
           (case fs_procs s (vmKey vm) of None \<Rightarrow> True | Some p \<Rightarrow> fe_signal env (fs_log s) (fp_pid p) \<noteq> ProcessGone)
       | _ \<Rightarrow> True) \<and> driver_legal env ops (driver_step env op s))"

definition owned :: "(string \<Rightarrow> fcProc option) \<Rightarrow> resource set" where
  "owned f = (\<Union>p\<in>ran f. res_of p)"

definition accounted :: "fc_env \<Rightarrow> fc_state \<Rightarrow> bool" where
  "accounted env s \<longleftrightarrow> holding (owned (fs_procs s)) (fs_procs s) s \<and>
     (\<forall>p\<in>ran (fs_procs s). \<forall>i. fp_netInfo p = Some i \<longrightarrow> returnable env i)"

lemma owned_upd: "f k = None \<Longrightarrow> owned (f(k \<mapsto> p)) = owned f \<union> res_of p"
  by (auto simp: owned_def)

lemma owned_remove: "f k = Some p \<Longrightarrow> owned f - res_of p \<subseteq> owned (f(k := None))"
proof
  fix x assume "f k = Some p" "x \<in> owned f - res_of p"
  then obtain a q where "f a = Some q" "x \<in> res_of q" "x \<notin> res_of p" "f k = Some p" by (auto simp: owned_def ran_def)
  moreover from this have "a \<noteq> k" by auto
  ultimately
  show "x \<in> owned (f(k := None))" by (auto simp: owned_def ran_def intro!: exI [of _ q] exI [of _ a])
qed

lemma accounted_start:
  assumes s: "accounted env s" and free: "fs_procs s (vmKey vm) = None"
  shows "accounted env (snd (fc_Start env vm s))"
proof (cases "fc_Start env vm s")
  case (Pair r s')
  let ?f = "fs_procs s"
  have run: "case fc_Start env vm s of (Inl e, s') \<Rightarrow> holding (owned ?f) ?f s' | (Inr x, s') \<Rightarrow> started env (owned ?f) ?f (vmKey vm) s'"
    by (rule triple_run [OF Start_triple]) (use s in \<open>simp add: accounted_def\<close>)
  show ?thesis
  proof (cases r)
    case (Inl e)
    then have "holding (owned ?f) ?f s'" using run Pair by simp
    then show ?thesis using s Pair by (simp add: accounted_def holding_def)
  next
    case (Inr x)
    then obtain p where "holding (owned ?f \<union> res_of p) (?f(vmKey vm \<mapsto> p)) s'" "\<forall>i. fp_netInfo p = Some i \<longrightarrow> returnable env i"
      using run Pair unfolding started_def by auto
    then show ?thesis using s Pair free by (auto simp: accounted_def holding_def owned_upd)
  qed
qed

lemma accounted_stop:
  assumes s: "accounted env s"
  shows "accounted env (snd (fc_Stop env vm s))"
proof (cases "fs_procs s (vmKey vm)")
  case None
  then show ?thesis using s by (simp add: fc_Stop_def)
next
  case (Some p)
  let ?f = "fs_procs s" and ?s = "snd (fc_Stop env vm s)"
  have "holding (owned ?f - res_of p) (?f(vmKey vm := None)) ?s"
    using tripleD [OF Stop_triple, of ?f vm p env "owned ?f" s] s Some unfolding accounted_def by (auto simp: ran_def)
  then show ?thesis
    using s owned_remove [of ?f "vmKey vm" p] Some by (auto simp: accounted_def holding_def ran_def split: if_splits)
qed

lemma accounted_quiet:
  assumes "accounted env s" and "fs_procs s' = fs_procs s" and "opened (fs_log s') \<subseteq> opened (fs_log s)"
  shows "accounted env s'"
  using assms by (auto simp: accounted_def holding_def)

lemma snapshot_quiet:
  "fs_procs (snd (fc_Snapshot env vm dir s)) = fs_procs s \<and> opened (fs_log (snd (fc_Snapshot env vm dir s))) = opened (fs_log s)"
  by (auto simp: fc_Snapshot_def must_def try_host_def host_def note_event_def io_run Let_def ret_def fail_def
      opened_append split: option.split)

lemma accounted_step:
  assumes "accounted env s" and "driver_legal env (op # ops) s"
  shows "accounted env (driver_step env op s)"
proof (cases op)
  case (StartOp vm) then show ?thesis using assms accounted_start by simp
next
  case (StopOp vm) then show ?thesis using assms accounted_stop by simp
next
  case (InspectOp vm)
  then have "snd (fc_Inspect env vm s) = s"
    using assms(2) by (auto simp: fc_Inspect_def split: option.splits signal_result.splits)
  then show ?thesis using InspectOp assms(1) by simp
next
  case (SnapshotOp vm dir) then show ?thesis using assms(1) snapshot_quiet accounted_quiet by simp
next
  case (ReattachOp vm)
  then show ?thesis
    using assms by (auto simp: fc_Reattach_def Let_def register_proc_def accounted_def holding_def owned_upd)
qed

text \<open>C33. The driver loses track of nothing it opened. In every history of starts, stops, inspections, snapshots
  and takeovers, whatever the host, the SDK and the API server answer, every TAP device it set up,
  every address it claimed and every VMM it launched is either being given back or belongs to a
  registered process: a start that fails at any step, even by a panic, undoes what it did, and a stop
  undoes what its start did. The history starts VMs that are not running, and no inspection meets a
  dead process.\<close>

theorem driver_accounts:
  assumes "driver_legal env ops s" and "fs_procs s = (\<lambda>_. None)" and "fs_log s = []"
  shows "let s' = fold (driver_step env) ops s in opened (fs_log s') \<subseteq> (\<Union>p\<in>ran (fs_procs s'). res_of p)"
proof -
  have "driver_legal env ops t \<Longrightarrow> accounted env t \<Longrightarrow> accounted env (fold (driver_step env) ops t)" for t
    by (induction ops arbitrary: t) (use accounted_step in auto)
  moreover have "accounted env s" using assms(2,3) by (simp add: accounted_def holding_def opened_def)
  ultimately show ?thesis using assms(1) by (auto simp: accounted_def holding_def owned_def Let_def)
qed

section \<open>Processes the driver loses\<close>


text \<open>C35. A VM taken over after a restart of the agent cannot be stopped. Taking over registers the process
  without a machine handle and without its network; a stop then reports success, forgets the process
  and has done nothing but remove the API socket: the VMM runs on, and its TAP device and address
  stay in use.\<close>

theorem reattached_orphaned:
  assumes "fe_stat env (fs_log s) (socketPath env vm)"
  shows "\<exists>s' s'' r. fc_Reattach env vm s = (Inr (), s') \<and> fc_Stop env vm s' = (Inr (), s'') \<and>
    fs_procs s'' (vmKey vm) = None \<and> opened (fs_log s'') = opened (fs_log s) \<and>
    set (fs_log s'') \<subseteq> insert (Did (RemoveFile (socketPath env vm)) r) (set (fs_log s))"
  using assms
  by (auto simp: fc_Reattach_def fc_Stop_def Let_def register_proc_def forget_proc_def cleanupSocketFiles_def
      try_host_def host_def note_event_def io_run ret_def)

text \<open>C36. A VM without a network whose start fails takes the reconcile down with it. When the VM has neither a
  network nor an authorized LAN attachment, every failure after the root file system was built is
  turned into a nil dereference by the deferred cleanup, so the agent never sees the real error.\<close>

theorem start_failure_panics:
  assumes "vs_ClassRef (vm_Spec vm) = Some c" and "fe_class env c = Inr cls"
    and "\<forall>log image layers opts. \<exists>p. fe_build env log image layers opts = Inr p"
    and "vs_NetworkRef (vm_Spec vm) = None" and "fe_Net env" and "authorizedAttachmentForVM env vm = None"
    and "fst (fc_Start env vm s) = Inl e"
  shows "e = Panic ''invalid memory address or nil pointer dereference''"
proof -
  obtain p s' where build: "buildRootfs env vm (rootfsBuildOptions env vm cls (ResolveGuestAgentEnabled vm (Some cls))) s = (Inr p, s')"
  proof -
    let ?opts = "rootfsBuildOptions env vm cls (ResolveGuestAgentEnabled vm (Some cls))"
    obtain p where "fe_build env (fs_log s) (vs_Image (vm_Spec vm))
        ((if vs_RunnerLayer (vm_Spec vm) \<noteq> '''' then [vs_RunnerLayer (vm_Spec vm)] else []) @
         (if vs_CiliumLayer (vm_Spec vm) \<noteq> '''' then [vs_CiliumLayer (vm_Spec vm)] else [])) ?opts = Inr p"
      using assms(3) by blast
    then show thesis using that by (simp add: buildRootfs_def Let_def)
  qed
  have "fst (on_error (boot env vm cls (ResolveGuestAgentEnabled vm (Some cls)) p None)
      (fail (Panic ''invalid memory address or nil pointer dereference'')) s') = Inl e"
    using assms build by (simp add: fc_Start_def Let_def io_run setupLANAttachment_def)
  then show ?thesis
    unfolding run_on_error by (auto simp: fail_def split: prod.splits sum.splits)
qed

text \<open>Socket paths join the namespace and the name with a dash, which both may contain: two VMs of different
  namespaces may have the same sockets.\<close>

lemma socketPath_collision:
  assumes "vm_namespace vm1 = a @ ''-'' @ b" "vm_name vm1 = c" and "vm_namespace vm2 = a" "vm_name vm2 = b @ ''-'' @ c"
  shows "socketPath env vm1 = socketPath env vm2"
  using assms by (simp add: socketPath_def)

text \<open>A snapshot resumes the VM whatever happens to the files.\<close>

lemma snapshot_resumes:
  assumes "fs_procs s (vmKey vm) = Some p" and "fp_machine p = Some m" and "fe_host env (fs_log s) (PauseVM m) = None"
  shows "\<exists>r. last (fs_log (snd (fc_Snapshot env vm dir s))) = Did (ResumeVM m) r"
  using assms
  by (auto simp: fc_Snapshot_def must_def try_host_def host_def note_event_def io_run Let_def ret_def fail_def split: option.split)

section \<open>Examples\<close>

definition example_fc_env :: fc_env where
  "example_fc_env = \<lparr>fe_BinPath = ''/usr/bin/firecracker'', fe_SocketDir = ''/run/imp/sockets'', fe_KernelPath = ''/vmlinux'',
     fe_KernelArgs = ''console=ttyS0'', fe_GuestAgentPath = '''', fe_NodeName = ''n1'', fe_Net = True, fe_LAN = False,
     fe_Claims = True, fe_sort = insertion_sort,
     fe_class = \<lambda>_. Inr \<lparr>cs_VCPU = 1, cs_MemoryMiB = 128, cs_DiskGiB = 1, cs_Arch = ArchUnset, cs_Probes = None,
       cs_GuestAgent = None, cs_RestartPolicy = None, cs_Tolerations = []\<rparr>,
     fe_network = \<lambda>_ _. Inl NotFound, fe_pool = \<lambda>_ _. Inl NotFound, fe_attachments = \<lambda>_. Inr [],
     fe_config = Inl NotFound, fe_profile = \<lambda>_. Inl NotFound, fe_snapshot = \<lambda>_ _. Inl NotFound,
     fe_host = \<lambda>_ c. (case c of MachineStart _ \<Rightarrow> Some ''no KVM'' | _ \<Rightarrow> None), fe_build = \<lambda>_ _ _ _. Inr ''/rootfs.ext4'',
     fe_pid = \<lambda>_ _. Inr 7, fe_signal = \<lambda>_ _. ProcessGone, fe_stat = \<lambda>_ _. True, fe_create = \<lambda>_ _ _. None,
     fe_get = \<lambda>_ _. Inl NotFound, fe_delete = \<lambda>_ _ _. None\<rparr>"

definition example_fc_vm :: ImpVM where
  "example_fc_vm = upd_spec (\<lambda>s. s\<lparr>vs_ClassRef := Some ''small'', vs_Image := ''img''\<rparr>)
     (upd_meta (\<lambda>m. m\<lparr>om_Namespace := ''ns'', om_Name := ''vm''\<rparr>) zero_vm)"

definition fresh_driver :: fc_state where
  "fresh_driver = \<lparr>fs_procs = \<lambda>_. None, fs_alloc = Some NewAllocator, fs_log = []\<rparr>"

definition example_proc :: fcProc where
  "example_proc = \<lparr>fp_machine = None, fp_pid = 7, fp_socket = ''s'', fp_vsockPath = '''', fp_netInfo = None, fp_probes = False\<rparr>"

theorem driver_accounts_witness:
  "let s' = fold (driver_step example_fc_env) [StartOp example_fc_vm, StopOp example_fc_vm] fresh_driver in
   opened (fs_log s') \<subseteq> (\<Union>p\<in>ran (fs_procs s'). res_of p)"
  by (rule driver_accounts) (simp_all add: fresh_driver_def)


theorem reattached_orphaned_witness:
  "\<exists>s' s''. fc_Reattach example_fc_env example_fc_vm fresh_driver = (Inr (), s') \<and>
     fc_Stop example_fc_env example_fc_vm s' = (Inr (), s'') \<and> fs_procs s'' (vmKey example_fc_vm) = None"
  using reattached_orphaned [of example_fc_env fresh_driver example_fc_vm] by (auto simp: example_fc_env_def)

theorem start_failure_panics_witness:
  "fst (fc_Start example_fc_env example_fc_vm fresh_driver) = Inl (Panic ''invalid memory address or nil pointer dereference'')"
proof -
  have "isl (fst (fc_Start example_fc_env example_fc_vm fresh_driver))" by code_simp
  then obtain e where e: "fst (fc_Start example_fc_env example_fc_vm fresh_driver) = Inl e" by (auto simp: isl_def)
  have "e = Panic ''invalid memory address or nil pointer dereference''"
    by (rule start_failure_panics [OF _ _ _ _ _ _ e, of "''small''"])
      (simp_all add: example_fc_env_def example_fc_vm_def authorizedAttachmentForVM_def zero_vm_def zero_vm_spec_def)
  then show ?thesis using e by simp
qed

end
