(* ===== verification/Probes.thy ===== *)
theory Probes
  imports ImpVM_Base
begin

text \<open>
  Health probes of a VM (agent/probe/runner.go) and the patch of its conditions (runProbes of
  agent/firecracker\_driver.go). A probe is polled by a ticker; the loop is a fold over the outcomes of its
  ticks, which the guest agent decides. The counters are 32-bit integers. The condition that the
  loop reports is characterised by the outcomes alone.
\<close>

section \<open>The runner\<close>

text \<open>The guest agent's answers: the exit code of a command, and the status code of an HTTP check.\<close>

record guest_client =
  gc_Exec :: "string list \<Rightarrow> string + int"
  gc_HTTPCheck :: "int \<Rightarrow> string \<Rightarrow> string + int"

definition runProbe :: "guest_client \<Rightarrow> probe \<Rightarrow> bool" where
  "runProbe client p =
     (case pr_Exec p of
        Some e \<Rightarrow> (case gc_Exec client (ea_Command e) of Inl _ \<Rightarrow> False | Inr code \<Rightarrow> code = 0)
      | None \<Rightarrow>
          (case pr_HTTP p of
             Some h \<Rightarrow> (case gc_HTTPCheck client (hg_Port h) (hg_Path h) of Inl _ \<Rightarrow> False | Inr code \<Rightarrow> 200 \<le> code \<and> code < 400)
           | None \<Rightarrow> False))"

definition probeCondition :: "int \<Rightarrow> string \<Rightarrow> bool \<Rightarrow> condition" where
  "probeCondition now condType ready =
     \<lparr>c_Type = condType, c_Status = (if ready then ConditionTrue else ConditionFalse),
      c_Reason = (if ready then ''ProbeSucceeded'' else ''ProbeFailed''),
      c_Message = (if ready then ''probe passed'' else ''probe failed''), c_ObservedGeneration = 0,
      c_LastTransitionTime = now\<rparr>"

definition probe_period :: "probe \<Rightarrow> int" where
  "probe_period p = (let period = seconds (pr_PeriodSeconds p) in if period \<le> 0 then seconds 10 else period)"

definition failure_threshold :: "probe \<Rightarrow> int" where
  "failure_threshold p = (if pr_FailureThreshold p \<le> 0 then 3 else pr_FailureThreshold p)"

record probe_counters =
  consecutiveFails :: int
  consecutiveSuccesses :: int

text \<open>One tick: the new counters and the status to patch, if any.\<close>

definition probe_tick :: "int \<Rightarrow> bool \<Rightarrow> probe_counters \<Rightarrow> bool option \<times> probe_counters" where
  "probe_tick failureThreshold ok c =
     (if ok then
        let n = wrap32 (consecutiveSuccesses c + 1) in
        (if n = 1 then Some True else None, \<lparr>consecutiveFails = 0, consecutiveSuccesses = n\<rparr>)
      else
        let n = wrap32 (consecutiveFails c + 1) in
        (if failureThreshold \<le> n then Some False else None, \<lparr>consecutiveFails = n, consecutiveSuccesses = 0\<rparr>))"

text \<open>The loop of pollProbe over the outcomes of the ticks: the patches it asks for, in order.\<close>

fun poll_loop :: "int \<Rightarrow> bool list \<Rightarrow> probe_counters \<Rightarrow> bool list" where
  "poll_loop thr [] c = []"
| "poll_loop thr (ok # oks) c =
     (case probe_tick thr ok c of (patch, c') \<Rightarrow>
        (case patch of None \<Rightarrow> [] | Some b \<Rightarrow> [b]) @ poll_loop thr oks c')"

definition pollProbe :: "probe \<Rightarrow> bool list \<Rightarrow> bool list" where
  "pollProbe p oks = poll_loop (failure_threshold p) oks \<lparr>consecutiveFails = 0, consecutiveSuccesses = 0\<rparr>"

text \<open>The loops that Run starts, with the type of the condition each reports.\<close>

definition runner_Run :: "ProbeSpec option \<Rightarrow> (string \<times> probe) list" where
  "runner_Run spec =
     (case spec of
        None \<Rightarrow> []
      | Some sp \<Rightarrow>
          (case ps_StartupProbe sp of None \<Rightarrow> [] | Some p \<Rightarrow> [(''Started'', p)]) @
          (case ps_ReadinessProbe sp of None \<Rightarrow> [] | Some p \<Rightarrow> [(''Ready'', p)]) @
          (case ps_LivenessProbe sp of None \<Rightarrow> [] | Some p \<Rightarrow> [(''Healthy'', p)]))"

text \<open>The patcher: the conditions are merged into the stored object; errors are logged and dropped.\<close>

definition patch_conditions :: "vm_server \<Rightarrow> api_error + ImpVM \<Rightarrow> condition list \<Rightarrow> unit vm_io" where
  "patch_conditions srv r conds =
     (case r of
        Inl _ \<Rightarrow> ret ()
      | Inr vm \<Rightarrow>
          and_then (try_send srv (PatchVMStatus vm
            (upd_status (\<lambda>s. s\<lparr>vt_Conditions := foldl (\<lambda>cs c. SetStatusCondition c cs) (vt_Conditions s) conds\<rparr>) vm))) (\<lambda>_.
          ret ()))"

section \<open>What is reported\<close>

text \<open>The number of failures since the last success.\<close>

definition trailing_fails :: "bool list \<Rightarrow> nat" where
  "trailing_fails oks = length (takeWhile Not (rev oks))"

definition reported :: "int \<Rightarrow> bool list \<Rightarrow> bool option" where
  "reported thr oks =
     (if thr \<le> int (trailing_fails oks) then Some False else if True \<in> set oks then Some True else None)"

definition last_patch :: "bool list \<Rightarrow> bool option" where
  "last_patch ps = (if ps = [] then None else Some (last ps))"

definition counters_after :: "bool list \<Rightarrow> probe_counters" where
  "counters_after oks =
     \<lparr>consecutiveFails = wrap32 (int (trailing_fails oks)),
      consecutiveSuccesses = wrap32 (int (length (takeWhile id (rev oks))))\<rparr>"

lemma wrap32_plus: "wrap32 (wrap32 a + b) = wrap32 (a + b)"
  unfolding wrap32_def
  using signed_take_bit_add [of 31 a b] signed_take_bit_add [of 31 "signed_take_bit 31 a" b] by simp

lemma wrap32_small [simp]: "wrap32 0 = 0" "wrap32 1 = 1"
  by (simp_all add: wrap32_def)

lemma counters_sel [simp]:
  "consecutiveFails (counters_after oks) = wrap32 (int (trailing_fails oks))"
  "consecutiveSuccesses (counters_after oks) = wrap32 (int (length (takeWhile id (rev oks))))"
  by (simp_all add: counters_after_def)

lemma trailing_snoc [simp]:
  "trailing_fails (oks @ [True]) = 0" "trailing_fails (oks @ [False]) = Suc (trailing_fails oks)"
  by (simp_all add: trailing_fails_def)

lemma tick_counters:
  "snd (probe_tick thr ok (counters_after oks)) = counters_after (oks @ [ok])"
  by (cases ok) (simp_all add: probe_tick_def Let_def wrap32_plus wrap32_plus [unfolded add.commute [of "wrap32 _"]] counters_after_def add.commute [of _ 1])

lemma tick_reported:
  assumes "0 < thr" "thr < 2 ^ 31"
  shows "(case fst (probe_tick thr ok (counters_after oks)) of None \<Rightarrow> reported thr oks | Some b \<Rightarrow> Some b) = reported thr (oks @ [ok])"
proof (cases ok)
  case True
  have "reported thr oks \<noteq> Some True \<Longrightarrow> takeWhile id (rev oks) = []"
  proof (cases "rev oks")
    case (Cons x xs)
    assume "reported thr oks \<noteq> Some True"
    moreover have "x \<Longrightarrow> True \<in> set oks" using Cons by (metis list.set_intros(1) set_rev)
    ultimately show ?thesis using Cons assms by (auto simp: reported_def trailing_fails_def split: if_splits)
  qed simp
  then have "wrap32 (int (length (takeWhile id (rev oks))) + 1) = 1 \<or> reported thr oks = Some True" by auto
  then show ?thesis using True assms by (auto simp: probe_tick_def Let_def reported_def wrap32_plus split: if_splits)
next
  case False
  have low: "wrap32 (int (Suc (trailing_fails oks))) = int (Suc (trailing_fails oks))" if "int (trailing_fails oks) < thr"
    using that assms by (intro wrap32_id) auto
  show ?thesis
  proof (cases "thr \<le> int (trailing_fails oks)")
    case True then show ?thesis using False by (auto simp: probe_tick_def Let_def reported_def)
  next
    case False
    then have "wrap32 (consecutiveFails (counters_after oks) + 1) = int (Suc (trailing_fails oks))"
      using low wrap32_plus [of "int (trailing_fails oks)" 1] by (simp add: add.commute)
    then show ?thesis using \<open>\<not> ok\<close> False by (auto simp: probe_tick_def Let_def reported_def)
  qed
qed

text \<open>C37. The loop reports what the outcomes say, with counters of 32 bits that wrap: after any number of ticks
  the last status it patched is false exactly when the failures since the last success have reached
  the threshold, and otherwise true once there was a success; before either it has patched nothing.\<close>

theorem probe_reports:
  assumes "pr_FailureThreshold p < 2 ^ 31"
  shows "last_patch (pollProbe p oks) = reported (failure_threshold p) oks"
proof -
  let ?thr = "failure_threshold p"
  have thr: "0 < ?thr" "?thr < 2 ^ 31" using assms by (auto simp: failure_threshold_def)
  have step: "last_patch (ps @ poll_loop ?thr oks (counters_after done_ticks)) = reported ?thr (done_ticks @ oks)"
    if "last_patch ps = reported ?thr done_ticks" for ps done_ticks
    using that
  proof (induction oks arbitrary: ps done_ticks)
    case (Cons ok oks)
    obtain patch c' where t: "probe_tick ?thr ok (counters_after done_ticks) = (patch, c')" by fastforce
    then have c': "c' = counters_after (done_ticks @ [ok])" using tick_counters [of ?thr ok done_ticks] by simp
    have "last_patch (ps @ (case patch of None \<Rightarrow> [] | Some b \<Rightarrow> [b])) = reported ?thr (done_ticks @ [ok])"
      using tick_reported [OF thr, of done_ticks ok] t Cons.prems by (auto simp: last_patch_def split: option.splits)
    from Cons.IH [OF this] show ?case using t c' by simp
  qed (simp add: last_patch_def)
  have "counters_after [] = \<lparr>consecutiveFails = 0, consecutiveSuccesses = 0\<rparr>"
    by (simp add: trailing_fails_def counters_after_def)
  moreover have "last_patch [] = reported ?thr []"
    using thr by (simp add: last_patch_def reported_def trailing_fails_def)
  ultimately show ?thesis
    using step [of "[]" "[]"] by (simp add: pollProbe_def)
qed

theorem probe_reports_witness:
  "let p = \<lparr>pr_Exec = None, pr_HTTP = None, pr_InitialDelaySeconds = 0, pr_PeriodSeconds = 10, pr_FailureThreshold = 2\<rparr> in
   last_patch (pollProbe p [False, True, True, False, False, True, False]) = Some True"
proof -
  let ?p = "\<lparr>pr_Exec = None, pr_HTTP = None, pr_InitialDelaySeconds = 0, pr_PeriodSeconds = 10, pr_FailureThreshold = 2\<rparr>"
  have "last_patch (pollProbe ?p [False, True, True, False, False, True, False]) =
      reported (failure_threshold ?p) [False, True, True, False, False, True, False]"
    by (rule probe_reports) simp
  then show ?thesis by (simp add: reported_def failure_threshold_def trailing_fails_def)
qed

end
