(* ===== verification/Runner_Platform.thy ===== *)
theory Runner_Platform
  imports Snapshot_Types Device_Names Go_Std
begin

unbundle bit_operations_syntax

text \<open>
  CI platforms (internal/runner): the checks on the credentials of a pool, the GitHub, Forgejo and GitLab
  drivers, the contract of the one-time runner configuration, webhook signatures, and the source of
  GitHub App installation tokens. The REST APIs of the platforms, the parser of private keys and the
  signing of tokens are parameters. Texts are byte strings; trimming knows the ASCII spaces.
\<close>

section \<open>The one-time configuration (driver.go)\<close>

record JITConfig =
  jc_EncodedConfig :: string
  jc_RunnerName :: string

definition MarshalSecretValue :: "JITConfig \<Rightarrow> error + string" where
  "MarshalSecretValue c =
     (if jc_EncodedConfig c = '''' then Inl (Err ''JIT config is empty'') else Inr (jc_EncodedConfig c))"

definition JITConfigFromSecretValue :: "string \<Rightarrow> string \<Rightarrow> string \<Rightarrow> error + JITConfig" where
  "JITConfigFromSecretValue version payload runnerName =
     (if version \<noteq> '''' \<and> version \<noteq> ''v1'' then Inl (Err (''unsupported JIT config version '' @ version))
      else if payload = '''' then Inl (Err ''JIT config is empty'')
      else Inr \<lparr>jc_EncodedConfig = payload, jc_RunnerName = runnerName\<rparr>)"

lemma jit_roundtrip: "MarshalSecretValue c = Inr p \<Longrightarrow> JITConfigFromSecretValue ''v1'' p (jc_RunnerName c) = Inr c"
  by (auto simp: MarshalSecretValue_def JITConfigFromSecretValue_def split: if_splits)

section \<open>Credentials (auth.go)\<close>

record PlatformAuth =
  pa_Provider :: string
  pa_Source :: string
  pa_Scope :: string
  pa_RunnerGroup :: string
  pa_Credentials :: strmap

definition trim_prefix :: "string \<Rightarrow> string \<Rightarrow> string" where
  "trim_prefix s p = (if has_prefix s p then drop (length p) s else s)"

definition validScope :: "string \<Rightarrow> string \<Rightarrow> bool" where
  "validScope provider scope =
     (if provider = ''gitlab'' then has_prefix scope ''group:'' \<or> has_prefix scope ''project:''
      else if has_prefix scope ''org:'' then
        let name = trim_prefix scope ''org:'' in 0 < length name \<and> CHR ''/'' \<notin> set name
      else if has_prefix scope ''repo:'' then
        (case split_on (CHR ''/'') (trim_prefix scope ''repo:'') of
           [owner, repo] \<Rightarrow> owner \<noteq> '''' \<and> repo \<noteq> ''''
         | _ \<Rightarrow> False)
      else False)"

definition ResolvePlatformAuth :: "string \<Rightarrow> string \<Rightarrow> string \<Rightarrow> string \<Rightarrow> strmap \<Rightarrow> error + PlatformAuth" where
  "ResolvePlatformAuth provider source scope runnerGroup credentials =
     (if provider = '''' then Inl (Err ''provider is required'')
      else if scope = '''' then Inl (Err ''exclusive org or repo scope is required'')
      else if runnerGroup = '''' \<and> provider = ''github-actions'' then Inl (Err ''runner group is required'')
      else
        let src = (if source = '''' then ''pat'' else source) in
        if provider = ''github-actions'' \<and> src \<noteq> ''pat'' \<and> src \<noteq> ''github_app'' then Inl (Err ''unsupported token source'')
        else if provider \<noteq> ''github-actions'' \<and> source = ''github_app''
        then Inl (Err ''github_app is supported only for github-actions'')
        else if \<not> validScope provider scope
        then Inl (Err ''scope must be an exclusive org:<name> or repo:<owner>/<repo>'')
        else if src = ''github_app'' \<and>
                \<not> list_all (\<lambda>key. str_get credentials key \<noteq> '''')
                    [''github-app-id'', ''github-app-installation-id'', ''github-app-private-key'']
        then Inl (Err ''required GitHub App credential key is missing'')
        else if src \<noteq> ''github_app'' \<and> str_get credentials ''token'' = ''''
        then Inl (Err ''named credential key token is missing'')
        else Inr \<lparr>pa_Provider = provider, pa_Source = src, pa_Scope = scope, pa_RunnerGroup = runnerGroup,
                  pa_Credentials = credentials\<rparr>)"

definition trim_space :: "string \<Rightarrow> string" where
  "trim_space s = rev (dropWhile is_space (rev (dropWhile is_space s)))"

definition ParseNumericCredential :: "strmap \<Rightarrow> string \<Rightarrow> error + int" where
  "ParseNumericCredential data key =
     (case sscan_int 63 (trim_space (str_get data key)) of
        Some n \<Rightarrow> if n \<le> 0 then Inl (Err ''numeric credential is invalid'') else Inr n
      | None \<Rightarrow> Inl (Err ''numeric credential is invalid''))"

section \<open>GitHub and Forgejo (github.go)\<close>

record GitHubDriver =
  gh_org :: string
  gh_owner :: string
  gh_repo :: string
  gh_runnerGroup :: string
  gh_labels :: "string list"
  gh_hmacSecret :: string

definition add_label :: "string list \<Rightarrow> string \<Rightarrow> string list" where
  "add_label result label =
     (let l = trim_space label in if l \<noteq> '''' \<and> l \<notin> set result then result @ [l] else result)"

definition runnerLabels :: "string list \<Rightarrow> string list" where
  "runnerLabels labels = foldl add_label [''self-hosted''] labels"

definition newGitHubDriverWithClient :: "string \<Rightarrow> string \<Rightarrow> string list \<Rightarrow> string \<Rightarrow> error + GitHubDriver" where
  "newGitHubDriverWithClient scope runnerGroup labels hmacSecret =
     (let d = \<lparr>gh_org = '''', gh_owner = '''', gh_repo = '''', gh_runnerGroup = runnerGroup,
               gh_labels = runnerLabels labels, gh_hmacSecret = hmacSecret\<rparr> in
      if has_prefix scope ''org:'' then Inr (d\<lparr>gh_org := trim_prefix scope ''org:''\<rparr>)
      else if has_prefix scope ''repo:'' then
        (case cut_at (CHR ''/'') (trim_prefix scope ''repo:'') of
           Some (owner, repo) \<Rightarrow> Inr (d\<lparr>gh_owner := owner, gh_repo := repo\<rparr>)
         | None \<Rightarrow> Inl (Err (''invalid repo scope '' @ scope @ '': expected owner/repo'')))
      else Inl (Err (''invalid scope '' @ scope @ '': must start with org: or repo'')))"

text \<open>The REST calls of the driver: the runner groups of an organisation, a request for a configuration, and the
  number of queued workflow runs. The name of a runner is given by the clock.\<close>

record jit_request =
  jr_Name :: string
  jr_RunnerGroupID :: int
  jr_Labels :: "string list"

record github_api =
  ga_groups :: "string \<Rightarrow> string + (int \<times> string) list"
  ga_jit :: "GitHubDriver \<Rightarrow> jit_request \<Rightarrow> string + JITConfig option"
  ga_queued :: "string \<Rightarrow> string \<Rightarrow> string + int"
  ga_clock :: int

definition runnerGroupID :: "github_api \<Rightarrow> GitHubDriver \<Rightarrow> error + int" where
  "runnerGroupID api d =
     (if gh_runnerGroup d = '''' then Inr 1
      else if gh_org d = '''' then Inl (Err (''runner group '' @ gh_runnerGroup d @ '' requires organization scope''))
      else case ga_groups api (gh_org d) of
             Inl e \<Rightarrow> Inl (Err (''list runner groups: '' @ e))
           | Inr gs \<Rightarrow>
               (case find (\<lambda>g. snd g = gh_runnerGroup d) gs of
                  Some g \<Rightarrow> Inr (fst g)
                | None \<Rightarrow> Inl (Err (''runner group '' @ gh_runnerGroup d @ '' not found in organization''))))"

definition github_GetJITConfig :: "github_api \<Rightarrow> GitHubDriver \<Rightarrow> error + JITConfig" where
  "github_GetJITConfig api d =
     (case runnerGroupID api d of
        Inl e \<Rightarrow> Inl e
      | Inr groupID \<Rightarrow>
          (case ga_jit api d \<lparr>jr_Name = ''imp-runner-'' @ itoa_int (ga_clock api), jr_RunnerGroupID = groupID,
                              jr_Labels = gh_labels d\<rparr> of
             Inl e \<Rightarrow> Inl (Err (''GetJITConfig: '' @ e))
           | Inr None \<Rightarrow> Inl (Err ''runner JIT response rejected: empty JIT response'')
           | Inr (Some cfg) \<Rightarrow>
               if jc_EncodedConfig cfg = '''' \<or> jc_RunnerName cfg = ''''
               then Inl (Err ''runner JIT response rejected: empty JIT response'') else Inr cfg))"

definition github_QueueDepth :: "github_api \<Rightarrow> GitHubDriver \<Rightarrow> int" where
  "github_QueueDepth api d =
     (if gh_org d \<noteq> '''' then 0
      else case ga_queued api (gh_owner d) (gh_repo d) of Inl _ \<Rightarrow> 0 | Inr n \<Rightarrow> n)"

text \<open>crypto/hmac with SHA-256: blocks of 64 bytes, a longer key is hashed first.\<close>

definition to_string :: "nat list \<Rightarrow> string" where
  "to_string bs = map char_of bs"

definition hmac_key :: "string \<Rightarrow> nat list" where
  "hmac_key key =
     (let k = (if 64 < length key then Sum256 key else map of_char key) in k @ replicate (64 - length k) 0)"

definition hmac_sha256 :: "string \<Rightarrow> string \<Rightarrow> nat list" where
  "hmac_sha256 key msg =
     (let k = hmac_key key;
          inner = Sum256 (to_string (map (\<lambda>b. b XOR 54) k) @ msg) in
      Sum256 (to_string (map (\<lambda>b. b XOR 92) k) @ to_string inner))"

definition validHMAC :: "GitHubDriver \<Rightarrow> string \<Rightarrow> string \<Rightarrow> bool" where
  "validHMAC d payload signature =
     (if gh_hmacSecret d = '''' then True
      else ''sha256='' @ hex_bytes (hmac_sha256 (gh_hmacSecret d) payload) = signature)"

text \<open>The decoded field Action of an event; None when the payload is not JSON.\<close>

definition github_ValidateWebhook :: "(string \<Rightarrow> string option) \<Rightarrow> GitHubDriver \<Rightarrow> string \<Rightarrow> string \<Rightarrow> error + int" where
  "github_ValidateWebhook action_of d payload signature =
     (if \<not> validHMAC d payload signature then Inl (Err ''invalid webhook signature'')
      else if action_of payload = Some ''queued'' then Inr 1 else Inr 0)"

section \<open>GitLab (gitlab.go)\<close>

record GitLabDriver =
  gl_groupPath :: string
  gl_projectID :: string
  gl_registrationToken :: string
  gl_hmacSecret :: string

definition NewGitLabDriver :: "string \<Rightarrow> string \<Rightarrow> string \<Rightarrow> error + GitLabDriver" where
  "NewGitLabDriver token scope hmacSecret =
     (let d = \<lparr>gl_groupPath = '''', gl_projectID = '''', gl_registrationToken = token, gl_hmacSecret = hmacSecret\<rparr> in
      if has_prefix scope ''group:'' then Inr (d\<lparr>gl_groupPath := trim_prefix scope ''group:''\<rparr>)
      else if has_prefix scope ''project:'' then Inr (d\<lparr>gl_projectID := trim_prefix scope ''project:''\<rparr>)
      else Inl (Err (''invalid scope '' @ scope @ '': must start with group: or project'')))"

text \<open>The registration answers with the identifier and the token of the runner.\<close>

definition gitlab_GetJITConfig :: "(string \<Rightarrow> string + int \<times> string) \<Rightarrow> GitLabDriver \<Rightarrow> error + JITConfig" where
  "gitlab_GetJITConfig register d =
     (case register (gl_registrationToken d) of
        Inl e \<Rightarrow> Inl (Err (''GitLab RegisterNewRunner: '' @ e))
      | Inr (rid, token) \<Rightarrow> Inr \<lparr>jc_EncodedConfig = token, jc_RunnerName = ''imp-runner-'' @ itoa_int rid\<rparr>)"

definition gitlab_QueueDepth :: "GitLabDriver \<Rightarrow> int" where
  "gitlab_QueueDepth d = 0"

definition gitlab_ValidateWebhook ::
  "(string \<Rightarrow> (string \<times> string) option) \<Rightarrow> GitLabDriver \<Rightarrow> string \<Rightarrow> string \<Rightarrow> error + int" where
  "gitlab_ValidateWebhook event_of d payload signature =
     (if gl_hmacSecret d \<noteq> '''' \<and> hex_bytes (hmac_sha256 (gl_hmacSecret d) payload) \<noteq> signature
      then Inl (Err ''invalid GitLab webhook signature'')
      else if event_of payload = Some (''build'', ''pending'') then Inr 1 else Inr 0)"

section \<open>GitHub App installation tokens (githubapp.go)\<close>

record GitHubAppCredentials =
  gc_PrivateKeyPEM :: string
  gc_AppID :: int
  gc_Installation :: int

record githubAppSource =
  src_creds :: GitHubAppCredentials
  src_token :: string
  src_exp :: int

datatype app_request = Mint string | Api_Call string

text \<open>The requests that were sent, in order. The clock, the signature of the App token and the answers of the
  API are read off them: a mint answers with a status and the decoded token and expiry, an API call
  with a status.\<close>

record app_env =
  ap_now :: "app_request list \<Rightarrow> int"
  ap_jwt :: "app_request list \<Rightarrow> string + string"
  ap_mint :: "app_request list \<Rightarrow> string + int \<times> (string \<times> int) option"
  ap_call :: "app_request list \<Rightarrow> string + int"

type_synonym 'a app_io = "(githubAppSource \<times> app_request list, 'a) run"

definition renewWindow :: int where "renewWindow = seconds 300"

definition newGitHubAppSource :: "(string \<Rightarrow> bool) \<Rightarrow> GitHubAppCredentials \<Rightarrow> error + githubAppSource" where
  "newGitHubAppSource key_ok creds =
     (if gc_AppID creds = 0 \<or> gc_Installation creds = 0
      then Inl (Err ''github app credentials require appId and installationId'')
      else if \<not> key_ok (gc_PrivateKeyPEM creds) then Inl (Err ''github app private key'')
      else Inr \<lparr>src_creds = creds, src_token = '''', src_exp = 0\<rparr>)"

definition mint :: "app_env \<Rightarrow> string app_io" where
  "mint env = (\<lambda>(s, tr).
     case ap_jwt env tr of
       Inl e \<Rightarrow> (Inl (Err e), (s, tr))
     | Inr jwt \<Rightarrow>
         let tr = tr @ [Mint jwt] in
         (case ap_mint env tr of
            Inl e \<Rightarrow> (Inl (Err e), (s, tr))
          | Inr (status, body) \<Rightarrow>
              if status = 200 \<or> status = 201 then
                (case body of
                   None \<Rightarrow> (Inl (Err ''github app installation token decode''), (s, tr))
                 | Some (token, expiry) \<Rightarrow>
                     if token = '''' then (Inl (Err ''github app installation token: empty token in response''), (s, tr))
                     else (Inr token, (s\<lparr>src_token := token, src_exp := expiry\<rparr>, tr)))
              else if status = 404 \<or> status = 401 \<or> status = 403 then (Inl (Err ''installation unavailable''), (s, tr))
              else if status = 429 \<or> 500 \<le> status then (Inl (Err ''github app token mint: transient''), (s, tr))
              else (Inl (Err ''github app token mint: unexpected status''), (s, tr))))"

definition installationTokenFor :: "app_env \<Rightarrow> string app_io" where
  "installationTokenFor env = (\<lambda>(s, tr).
     if src_token s \<noteq> '''' \<and> ap_now env tr + renewWindow < src_exp s then (Inr (src_token s), (s, tr))
     else mint env (s, tr))"

definition invalidate :: "unit app_io" where
  "invalidate = (\<lambda>(s, tr). (Inr (), (s\<lparr>src_token := '''', src_exp := 0\<rparr>, tr)))"

definition api_call :: "app_env \<Rightarrow> string \<Rightarrow> int app_io" where
  "api_call env tok = (\<lambda>(s, tr).
     let tr = tr @ [Api_Call tok] in
     case ap_call env tr of Inl e \<Rightarrow> (Inl (Err e), (s, tr)) | Inr status \<Rightarrow> (Inr status, (s, tr)))"

definition RoundTrip :: "app_env \<Rightarrow> int app_io" where
  "RoundTrip env =
     and_then (installationTokenFor env) (\<lambda>tok.
     and_then (api_call env tok) (\<lambda>status.
     if status \<noteq> 401 then ret status
     else
       and_then invalidate (\<lambda>_.
       and_then (installationTokenFor env) (\<lambda>tok. api_call env tok))))"

text \<open>A request that is refused with 401 is retried exactly once, and only with a token minted after the refusal:
  what one round trip sends is a mint, if the cached token is missing or about to expire, and the
  request; after a refusal a mint and the request again.\<close>

fun trip_shape :: "app_request list \<Rightarrow> bool" where
  "trip_shape [] = True"
| "trip_shape [Mint j] = True"
| "trip_shape [Mint j, Api_Call t] = True"
| "trip_shape [Mint j, Api_Call t, Mint j'] = True"
| "trip_shape [Mint j, Api_Call t, Mint j', Api_Call t'] = True"
| "trip_shape [Api_Call t] = True"
| "trip_shape [Api_Call t, Mint j'] = True"
| "trip_shape [Api_Call t, Mint j', Api_Call t'] = True"
| "trip_shape _ = False"

lemma token_requests:
  "\<exists>new. snd (snd (installationTokenFor env (s, tr))) = tr @ new \<and>
     (new = [] \<and> src_token s \<noteq> '''' \<and> ap_now env tr + renewWindow < src_exp s \<or> new = [] \<and> isl (fst (installationTokenFor env (s, tr))) \<or>
      (\<exists>j. new = [Mint j]))"
  by (auto simp: installationTokenFor_def mint_def Let_def isl_def split: sum.split prod.split option.split)

lemma RoundTrip_requests: "\<exists>new. snd (snd (RoundTrip env (s, tr))) = tr @ new \<and> trip_shape new"
proof -
  obtain r1 s1 tr1 where t1: "installationTokenFor env (s, tr) = (r1, (s1, tr1))" by (metis prod_cases3)
  obtain n1 where n1: "tr1 = tr @ n1" "n1 = [] \<or> (\<exists>j. n1 = [Mint j])"
    using token_requests [of env s tr] t1 by auto
  show ?thesis
  proof (cases r1)
    case (Inl e) then show ?thesis using t1 n1 by (auto simp: RoundTrip_def io_run)
  next
    case (Inr tok)
    let ?s2 = "s1\<lparr>src_token := '''', src_exp := 0\<rparr>" and ?tr2 = "tr1 @ [Api_Call tok]"
    obtain r3 s3 tr3 where t3: "installationTokenFor env (?s2, ?tr2) = (r3, (s3, tr3))" by (metis prod_cases3)
    obtain n3 where n3: "tr3 = ?tr2 @ n3" "n3 = [] \<and> isl r3 \<or> (\<exists>j. n3 = [Mint j])"
      using token_requests [of env ?s2 ?tr2] t3 by auto
    show ?thesis
      using t1 n1 t3 n3 Inr
      by (auto simp: RoundTrip_def io_run api_call_def invalidate_def Let_def ret_def isl_def split: sum.split)
  qed
qed

end
