(* ===== verification/Runner_Pool.thy ===== *)
theory Runner_Pool
  imports Runner_Platform ImpVM_Base
begin

text \<open>
  Pools of CI runners (impvmrunnerpool\_controller.go, impvmrunnerpool\_types.go): the controller deletes runners
  that finished, computes the demand from the queue of the platform and from an annotation, creates
  VMs within the limits of the pool, and gives each a one-time configuration in a Secret that the VM
  owns. Counts are 32-bit integers. The API server and the platform are parameters; their answers
  may depend on the writes done so far.
\<close>

section \<open>Objects\<close>

record RunnerScopeSpec =
  rsc_Org :: string
  rsc_Repo :: string

record RunnerPlatformSpec =
  rpl_Type :: string
  rpl_ServerURL :: string
  rpl_Scope :: "RunnerScopeSpec option"
  rpl_RunnerGroup :: string
  rpl_CredentialsSecret :: string
  rpl_TokenSource :: string

datatype RunnerScalingMode = RunnerScalingModeUnset | RunnerScalingModeWebhook | RunnerScalingModePolling | RunnerScalingModeHybrid

record RunnerWebhookSpec =
  rwh_Enabled :: bool
  rwh_SecretRef :: string

record RunnerPollingSpec =
  rpo_Enabled :: bool
  rpo_IntervalSeconds :: int

record RunnerScalingSpec =
  rss_Mode :: RunnerScalingMode
  rss_MinIdle :: "int option"
  rss_MaxConcurrent :: "int option"
  rss_ScaleUpStep :: "int option"
  rss_CooldownSeconds :: "int option"
  rss_Webhook :: "RunnerWebhookSpec option"
  rss_Polling :: "RunnerPollingSpec option"

record RunnerJobDetectionSpec =
  rjd_Webhook :: "RunnerWebhookSpec option"
  rjd_Polling :: "RunnerPollingSpec option"

record ImpVMRunnerPoolSpec =
  rps_TemplateName :: string
  rps_Platform :: RunnerPlatformSpec
  rps_RunnerLayer :: string
  rps_Labels :: "string list"
  rps_Scaling :: "RunnerScalingSpec option"
  rps_JobDetection :: "RunnerJobDetectionSpec option"
  rps_ExpireAfter :: "int option"

record ImpVMRunnerPoolStatus =
  rpt_IdleCount :: int
  rpt_ActiveCount :: int
  rpt_Conditions :: "condition list"

record ImpVMRunnerPool =
  rpp_Meta :: object_meta
  rpp_Spec :: ImpVMRunnerPoolSpec
  rpp_Status :: ImpVMRunnerPoolStatus

record Secret =
  sec_Meta :: object_meta
  sec_Data :: strmap

section \<open>Scaling\<close>

record runnerScalingResolved =
  sr_minIdle :: int
  sr_maxConcurrent :: int
  sr_scaleUpStep :: int
  sr_cooldown :: int
  sr_pollingInterval :: int
  sr_pollingEnabled :: bool
  sr_webhookEnabled :: bool

definition detection_mode :: "RunnerJobDetectionSpec \<Rightarrow> RunnerScalingMode" where
  "detection_mode jd =
     (let webhook = (case rjd_Webhook jd of None \<Rightarrow> False | Some w \<Rightarrow> rwh_Enabled w);
          polling = (case rjd_Polling jd of None \<Rightarrow> False | Some p \<Rightarrow> rpo_Enabled p) in
      if webhook \<and> polling then RunnerScalingModeHybrid
      else if polling then RunnerScalingModePolling
      else if webhook then RunnerScalingModeWebhook
      else RunnerScalingModeUnset)"

definition positive_interval :: "RunnerPollingSpec option \<Rightarrow> int" where
  "positive_interval p = (case p of Some q \<Rightarrow> if 0 < rpo_IntervalSeconds q then rpo_IntervalSeconds q else 0 | None \<Rightarrow> 0)"

definition resolveRunnerScaling :: "ImpVMRunnerPool \<Rightarrow> runnerScalingResolved" where
  "resolveRunnerScaling pool =
     (let sp = rpp_Spec pool;
          get = (\<lambda>f d. case rps_Scaling sp of None \<Rightarrow> d | Some s \<Rightarrow> (case f s of None \<Rightarrow> d | Some v \<Rightarrow> v));
          mode0 = (case rps_Scaling sp of None \<Rightarrow> RunnerScalingModeUnset | Some s \<Rightarrow> rss_Mode s);
          interval0 = (case rps_Scaling sp of None \<Rightarrow> 0 | Some s \<Rightarrow> positive_interval (rss_Polling s));
          (mode, interval) =
            (case rps_JobDetection sp of
               Some jd \<Rightarrow>
                 if mode0 = RunnerScalingModeUnset
                 then (detection_mode jd, if interval0 = 0 then positive_interval (rjd_Polling jd) else interval0)
                 else (mode0, interval0)
             | None \<Rightarrow> (mode0, interval0));
          webhookEnabled = (mode = RunnerScalingModeHybrid \<or> mode = RunnerScalingModeWebhook);
          pollingEnabled = (mode = RunnerScalingModeHybrid \<or> mode = RunnerScalingModePolling);
          maxConcurrent = get rss_MaxConcurrent 10;
          step = get rss_ScaleUpStep 10 in
      \<lparr>sr_minIdle = get rss_MinIdle 0,
       sr_maxConcurrent = (if maxConcurrent \<le> 0 then 1 else maxConcurrent),
       sr_scaleUpStep = (if step \<le> 0 then maxConcurrent else step),
       sr_cooldown = seconds (get rss_CooldownSeconds 30),
       sr_pollingInterval = (if pollingEnabled \<and> interval \<le> 0 then 30 else interval),
       sr_pollingEnabled = pollingEnabled, sr_webhookEnabled = webhookEnabled\<rparr>)"

definition AnnotationRunnerDemand :: string where "AnnotationRunnerDemand = ''imp.dev/runner-demand''"

definition runnerDemandFromAnnotation :: "ImpVMRunnerPool \<Rightarrow> bool \<Rightarrow> int" where
  "runnerDemandFromAnnotation pool enabled =
     (if \<not> enabled then 0
      else
        let raw = str_get (om_Annotations (rpp_Meta pool)) AnnotationRunnerDemand in
        if raw = '''' then 0
        else case Atoi raw of None \<Rightarrow> 0 | Some n \<Rightarrow> if n < 0 then 0 else wrap32 n)"

definition runner_terminal :: "VMPhase \<Rightarrow> bool" where
  "runner_terminal ph \<longleftrightarrow> ph \<in> {VMPhaseSucceeded, VMPhaseFailed, VMPhaseRetryExhausted}"

fun count_active :: "ImpVM list \<Rightarrow> int \<Rightarrow> int" where
  "count_active [] n = n"
| "count_active (vm # vms) n = count_active vms (if runner_terminal (vm_phase vm) then n else wrap32 (n + 1))"

definition runner_desired :: "ImpVMRunnerPool \<Rightarrow> runnerScalingResolved \<Rightarrow> error + int \<Rightarrow> int" where
  "runner_desired pool scaling depth =
     (let d0 = sr_minIdle scaling;
          d1 = (case depth of Inl _ \<Rightarrow> d0 | Inr q \<Rightarrow> if d0 < wrap32 q then wrap32 q else d0);
          demand = runnerDemandFromAnnotation pool (sr_webhookEnabled scaling) in
      if d1 < demand then demand else d1)"

definition runners_to_create :: "runnerScalingResolved \<Rightarrow> int \<Rightarrow> int \<Rightarrow> int" where
  "runners_to_create scaling desiredCount activeCount =
     (let c0 = wrap32 (desiredCount - activeCount);
          c1 = (if c0 < 0 then 0 else c0);
          a0 = wrap32 (sr_maxConcurrent scaling - activeCount);
          available = (if a0 < 0 then 0 else a0);
          c2 = (if available < c1 then available else c1) in
      if sr_scaleUpStep scaling < c2 then sr_scaleUpStep scaling else c2)"

section \<open>The platform driver\<close>

datatype platform_driver = GitHub GitHubDriver | GitLab GitLabDriver

definition platformScope :: "ImpVMRunnerPool \<Rightarrow> error + string" where
  "platformScope pool =
     (let pl = rps_Platform (rpp_Spec pool) in
      case rpl_Scope pl of
        None \<Rightarrow> Inl (Err ''platform.scope is required'')
      | Some sc \<Rightarrow>
          if rpl_Type pl = ''github-actions'' \<or> rpl_Type pl = ''forgejo'' then
            if rsc_Org sc \<noteq> '''' then Inr (''org:'' @ rsc_Org sc)
            else if rsc_Repo sc \<noteq> '''' then Inr (''repo:'' @ rsc_Repo sc)
            else Inl (Err ''invalid platform.scope'')
          else if rpl_Type pl = ''gitlab'' then
            if rsc_Org sc \<noteq> '''' then Inr (''group:'' @ rsc_Org sc)
            else if rsc_Repo sc \<noteq> '''' then Inr (''project:'' @ rsc_Repo sc)
            else Inl (Err ''invalid platform.scope'')
          else Inl (Err ''invalid platform.scope''))"

definition githubAppCredsFromSecret :: "strmap \<Rightarrow> error + GitHubAppCredentials" where
  "githubAppCredsFromSecret data =
     (case ParseNumericCredential data ''github-app-id'' of
        Inl e \<Rightarrow> Inl e
      | Inr appID \<Rightarrow>
          (case ParseNumericCredential data ''github-app-installation-id'' of
             Inl e \<Rightarrow> Inl e
           | Inr instID \<Rightarrow>
               if str_get data ''github-app-private-key'' = ''''
               then Inl (Err ''required GitHub App credential key is missing'')
               else Inr \<lparr>gc_PrivateKeyPEM = str_get data ''github-app-private-key'', gc_AppID = appID, gc_Installation = instID\<rparr>))"

text \<open>The clients of the platforms differ in their transport only; \<open>key_ok\<close> is the parser of private keys, and
  \<open>url_ok\<close> tells whether the SDKs accept a server URL.\<close>

definition driver_of_auth ::
  "(string \<Rightarrow> bool) \<Rightarrow> (string \<Rightarrow> bool) \<Rightarrow> ImpVMRunnerPool \<Rightarrow> PlatformAuth \<Rightarrow> error + platform_driver" where
  "driver_of_auth key_ok url_ok pool auth =
     (let sp = rpp_Spec pool; token = str_get (pa_Credentials auth) ''token'';
          github = (\<lambda>runnerGroup labels. map_sum id GitHub (newGitHubDriverWithClient (pa_Scope auth) runnerGroup labels '''')) in
      if pa_Provider auth = ''github-actions'' then
        if pa_Source auth = ''github_app'' then
          (case githubAppCredsFromSecret (pa_Credentials auth) of
             Inl e \<Rightarrow> Inl e
           | Inr creds \<Rightarrow>
               (case newGitHubAppSource key_ok creds of
                  Inl e \<Rightarrow> Inl e
                | Inr src \<Rightarrow> github (pa_RunnerGroup auth) (rps_Labels sp)))
        else if token = '''' then Inl (Err ''named credential key token is missing'')
        else github (pa_RunnerGroup auth) (rps_Labels sp)
      else if pa_Provider auth = ''forgejo'' then
        if \<not> url_ok (rpl_ServerURL (rps_Platform sp)) then Inl (Err ''forgejo client'') else github '''' []
      else if pa_Provider auth = ''gitlab'' then
        if \<not> url_ok (rpl_ServerURL (rps_Platform sp)) then Inl (Err ''gitlab client'')
        else map_sum id GitLab (NewGitLabDriver token (pa_Scope auth) '''')
      else Inl (Err ''unsupported platform type''))"

definition defaultRunnerDriverFactory ::
  "(string \<Rightarrow> bool) \<Rightarrow> (string \<Rightarrow> bool) \<Rightarrow> api_error + Secret \<Rightarrow> ImpVMRunnerPool \<Rightarrow> error + platform_driver" where
  "defaultRunnerDriverFactory key_ok url_ok creds pool =
     (case creds of
        Inl e \<Rightarrow> Inl (Api e)
      | Inr secret \<Rightarrow>
          (case platformScope pool of
             Inl e \<Rightarrow> Inl e
           | Inr scope \<Rightarrow>
               let pl = rps_Platform (rpp_Spec pool) in
               (case ResolvePlatformAuth (rpl_Type pl) (rpl_TokenSource pl) scope (rpl_RunnerGroup pl) (sec_Data secret) of
                  Inl e \<Rightarrow> Inl e
                | Inr auth \<Rightarrow> driver_of_auth key_ok url_ok pool auth)))"

section \<open>The controller\<close>

datatype runner_effect =
    DeleteRunner ImpVM
  | is_CreateRunner: CreateRunner ImpVM
  | CreateJITSecret Secret
  | PatchRunner ImpVM ImpVM
  | PatchRunnerPool ImpVMRunnerPool ImpVMRunnerPool

type_synonym 'a runner_io = "(runner_effect, 'a) io"

text \<open>A Secret that appears between the first read and the creation is seen by the second read only, so that read
  has an answer of its own. Errors keep their cause and not the text wrapped around it.\<close>

record runner_env =
  re_srv :: "(runner_effect, ImpVM) server"
  re_template :: "string \<Rightarrow> string \<Rightarrow> api_error + ImpVMTemplateSpec"
  re_vms :: "runner_effect list \<Rightarrow> api_error + ImpVM list"
  re_secret :: "runner_effect list \<Rightarrow> string \<Rightarrow> string \<Rightarrow> api_error + Secret"
  re_recovered :: "runner_effect list \<Rightarrow> string \<Rightarrow> string \<Rightarrow> api_error + Secret"
  re_key_ok :: "string \<Rightarrow> bool"
  re_url_ok :: "string \<Rightarrow> bool"
  re_github :: "runner_effect list \<Rightarrow> github_api"
  re_gitlab :: "runner_effect list \<Rightarrow> string \<Rightarrow> string + int \<times> string"

definition runner_driver :: "runner_env \<Rightarrow> ImpVMRunnerPool \<Rightarrow> runner_effect list \<Rightarrow> error + platform_driver" where
  "runner_driver env pool tr =
     defaultRunnerDriverFactory (re_key_ok env) (re_url_ok env)
       (re_secret env tr (om_Namespace (rpp_Meta pool)) (rpl_CredentialsSecret (rps_Platform (rpp_Spec pool)))) pool"

definition queueDepth :: "runner_env \<Rightarrow> ImpVMRunnerPool \<Rightarrow> bool \<Rightarrow> runner_effect list \<Rightarrow> error + int" where
  "queueDepth env pool enabled tr =
     (if \<not> enabled then Inr 0
      else case runner_driver env pool tr of
             Inl e \<Rightarrow> Inl e
           | Inr (GitHub d) \<Rightarrow> Inr (github_QueueDepth (re_github env tr) d)
           | Inr (GitLab d) \<Rightarrow> Inr (gitlab_QueueDepth d))"

definition runnerSecretName :: "ImpVM \<Rightarrow> string" where
  "runnerSecretName vm =
     (let identity = (if om_UID (vm_Meta vm) = '''' then vm_name vm else om_UID (vm_Meta vm)) in
      ''impvm-'' @ map lower_char (map (\<lambda>c. if c = CHR ''_'' then CHR ''-'' else c) identity) @ ''-jit'')"

definition owns_secret :: "ImpVM \<Rightarrow> Secret \<Rightarrow> bool" where
  "owns_secret vm secret =
     list_ex (\<lambda>r. or_Kind r = ''ImpVM'' \<and> or_Name r = vm_name vm \<and> or_UID r = om_UID (vm_Meta vm) \<and> or_Controller r = Some True)
       (om_OwnerReferences (sec_Meta secret))"

definition validateRunnerSecretOwner :: "Secret \<Rightarrow> ImpVM \<Rightarrow> error + unit" where
  "validateRunnerSecretOwner secret vm =
     (if owns_secret vm secret then Inr () else Inl (Err ''runner JIT Secret owner does not match VM identity''))"

definition validateRunnerSecret :: "runner_env \<Rightarrow> ImpVM \<Rightarrow> string \<Rightarrow> unit runner_io" where
  "validateRunnerSecret env vm name = observe (\<lambda>tr.
     case re_secret env tr (vm_namespace vm) name of
       Inl e \<Rightarrow> fail (Api e)
     | Inr secret \<Rightarrow> raise (validateRunnerSecretOwner secret vm))"

definition patchRunnerSecretReference :: "runner_env \<Rightarrow> ImpVM \<Rightarrow> string \<Rightarrow> unit runner_io" where
  "patchRunnerSecretReference env vm name =
     and_then (send (re_srv env) (PatchRunner vm (upd_spec (\<lambda>s. s\<lparr>vs_RunnerConfigSecret := name\<rparr>) vm))) (\<lambda>_. ret ())"

definition driver_jit :: "runner_env \<Rightarrow> ImpVMRunnerPool \<Rightarrow> runner_effect list \<Rightarrow> error + JITConfig" where
  "driver_jit env pool tr =
     (case runner_driver env pool tr of
        Inl e \<Rightarrow> Inl e
      | Inr (GitHub d) \<Rightarrow> github_GetJITConfig (re_github env tr) d
      | Inr (GitLab d) \<Rightarrow> gitlab_GetJITConfig (re_gitlab env tr) d)"

definition jit_secret :: "ImpVMRunnerPool \<Rightarrow> ImpVM \<Rightarrow> JITConfig \<Rightarrow> string \<Rightarrow> error + Secret" where
  "jit_secret pool vm jit payload =
     map_sum id (\<lambda>m. \<lparr>sec_Meta = m, sec_Data = [(''jitconfig'', payload)]\<rparr>)
       (SetControllerReference ''ImpVM'' (vm_Meta vm)
         (zero_meta\<lparr>om_Name := runnerSecretName vm, om_Namespace := vm_namespace vm,
            om_Labels := [(LabelRunnerPool, om_Name (rpp_Meta pool))],
            om_Annotations := [(''imp.dev/runner-name'', jc_RunnerName jit), (''imp.dev/runner-config-version'', ''v1'')]\<rparr>))"

text \<open>Adopting a Secret of that name that the VM owns already.\<close>

definition adopt_secret :: "runner_env \<Rightarrow> ImpVM \<Rightarrow> Secret \<Rightarrow> unit runner_io" where
  "adopt_secret env vm secret =
     and_then (raise (validateRunnerSecretOwner secret vm)) (\<lambda>_. patchRunnerSecretReference env vm (runnerSecretName vm))"

definition create_secret :: "runner_env \<Rightarrow> ImpVM \<Rightarrow> Secret \<Rightarrow> unit runner_io" where
  "create_secret env vm secret =
     and_then (try_send (re_srv env) (CreateJITSecret secret)) (\<lambda>r.
     case r of
       None \<Rightarrow> patchRunnerSecretReference env vm (runnerSecretName vm)
     | Some e \<Rightarrow>
         if e = AlreadyExists then
           observe (\<lambda>tr. case re_recovered env tr (om_Namespace (sec_Meta secret)) (om_Name (sec_Meta secret)) of
                            Inl e \<Rightarrow> fail (Api e)
                          | Inr recovered \<Rightarrow> adopt_secret env vm recovered)
         else fail (Api e))"

definition mintRunnerConfig :: "runner_env \<Rightarrow> ImpVMRunnerPool \<Rightarrow> ImpVM \<Rightarrow> unit runner_io" where
  "mintRunnerConfig env pool vm =
     (if vs_RunnerConfigSecret (vm_Spec vm) \<noteq> '''' then validateRunnerSecret env vm (vs_RunnerConfigSecret (vm_Spec vm))
      else observe (\<lambda>tr.
        case re_secret env tr (vm_namespace vm) (runnerSecretName vm) of
          Inr existing \<Rightarrow> adopt_secret env vm existing
        | Inl e \<Rightarrow>
            if e \<noteq> NotFound then fail (Api e)
            else
              and_then (raise (driver_jit env pool tr)) (\<lambda>jit.
              and_then (raise (MarshalSecretValue jit)) (\<lambda>payload.
              and_then (raise (jit_secret pool vm jit payload)) (\<lambda>secret.
              create_secret env vm secret)))))"

definition runner_vm :: "ImpVMRunnerPool \<Rightarrow> ImpVMTemplateSpec \<Rightarrow> ImpVM" where
  "runner_vm pool tpl =
     \<lparr>vm_Meta = zero_meta\<lparr>om_GenerateName := om_Name (rpp_Meta pool) @ ''-'', om_Namespace := om_Namespace (rpp_Meta pool),
        om_Labels := [(LabelRunnerPool, om_Name (rpp_Meta pool))]\<rparr>,
      vm_Spec = zero_vm_spec\<lparr>vs_ClassRef := Some (ts_ClassRef tpl), vs_Image := ts_Image tpl, vs_Lifecycle := VMLifecycleEphemeral,
        vs_NetworkRef := ts_NetworkRef tpl, vs_Probes := ts_Probes tpl, vs_GuestAgent := ts_GuestAgent tpl,
        vs_NetworkGroup := ts_NetworkGroup tpl,
        vs_RunnerLayer := (if rps_RunnerLayer (rpp_Spec pool) \<noteq> '''' then rps_RunnerLayer (rpp_Spec pool) else ts_RunnerLayer tpl),
        vs_CiliumLayer := ts_CiliumLayer tpl,
        vs_ExpireAfter := (case rps_ExpireAfter (rpp_Spec pool) of Some d \<Rightarrow> Some d | None \<Rightarrow> ts_ExpireAfter tpl)\<rparr>,
      vm_Status = zero_vm_status\<rparr>"

definition createRunnerVM :: "runner_env \<Rightarrow> ImpVMRunnerPool \<Rightarrow> ImpVMTemplateSpec \<Rightarrow> unit runner_io" where
  "createRunnerVM env pool tpl =
     (case SetControllerReference ''ImpVMRunnerPool'' (rpp_Meta pool) (vm_Meta (runner_vm pool tpl)) of
        Inl e \<Rightarrow> fail e
      | Inr meta \<Rightarrow>
          and_then (send (re_srv env) (CreateRunner ((runner_vm pool tpl)\<lparr>vm_Meta := meta\<rparr>))) (\<lambda>vm.
          on_error (mintRunnerConfig env pool vm)
            (and_then (try_send (re_srv env) (DeleteRunner vm)) (\<lambda>_. ret ()))))"

primrec create_runners :: "runner_env \<Rightarrow> ImpVMRunnerPool \<Rightarrow> ImpVMTemplateSpec \<Rightarrow> nat \<Rightarrow> unit runner_io" where
  "create_runners env pool tpl 0 = ret ()"
| "create_runners env pool tpl (Suc n) =
     and_then (createRunnerVM env pool tpl) (\<lambda>_. create_runners env pool tpl n)"

definition delete_finished :: "runner_env \<Rightarrow> ImpVM list \<Rightarrow> unit runner_io" where
  "delete_finished env vms =
     for_each (\<lambda>vm. when_io (om_DeletionTimestamp (vm_Meta vm) = None \<and> runner_terminal (vm_phase vm))
       (send_ignoring (\<lambda>e. e = NotFound) (re_srv env) (DeleteRunner vm))) vms"

definition list_runners :: "runner_env \<Rightarrow> ImpVM list runner_io" where
  "list_runners env = observe (\<lambda>tr. lift (re_vms env tr))"

definition scale_up :: "runner_env \<Rightarrow> ImpVMRunnerPool \<Rightarrow> ImpVMTemplateSpec \<Rightarrow> ImpVM list \<Rightarrow> ctrl_result runner_io" where
  "scale_up env pool tpl vms = observe (\<lambda>tr.
     let activeCount = count_active vms 0;
         scaling = resolveRunnerScaling pool;
         desiredCount = runner_desired pool scaling (queueDepth env pool (sr_pollingEnabled scaling) tr);
         toCreate = runners_to_create scaling desiredCount activeCount in
     and_then (create_runners env pool tpl (nat toCreate)) (\<lambda>_.
     and_then (send (re_srv env) (PatchRunnerPool pool
        (pool\<lparr>rpp_Status := (rpp_Status pool)\<lparr>rpt_ActiveCount := activeCount, rpt_IdleCount := 0\<rparr>\<rparr>))) (\<lambda>_.
     ret (requeue_after (if sr_pollingEnabled scaling \<and> 0 < sr_pollingInterval scaling
                         then seconds (sr_pollingInterval scaling) else sr_cooldown scaling)))))"

definition runner_Reconcile :: "runner_env \<Rightarrow> api_error + ImpVMRunnerPool \<Rightarrow> ctrl_result runner_io" where
  "runner_Reconcile env read =
     (case read of
        Inl e \<Rightarrow> (case ignoreNotFound e of Inl er \<Rightarrow> fail er | Inr _ \<Rightarrow> ret no_requeue)
      | Inr pool \<Rightarrow>
          (case re_template env (om_Namespace (rpp_Meta pool)) (rps_TemplateName (rpp_Spec pool)) of
             Inl e \<Rightarrow> if e = NotFound then ret (requeue_after (seconds 30)) else fail (Api e)
           | Inr tpl \<Rightarrow>
               and_then (list_runners env) (\<lambda>vms.
               and_then (delete_finished env vms) (\<lambda>_.
               and_then (list_runners env) (\<lambda>vms.
               scale_up env pool tpl vms)))))"

section \<open>Limits\<close>

lemma mint_creates_none: "io_ok (\<lambda>e. \<not> is_CreateRunner e) (\<lambda>_. True) (mintRunnerConfig env pool vm)"
proof -
  have patch: "io_ok (\<lambda>e. \<not> is_CreateRunner e) (\<lambda>_. True) (patchRunnerSecretReference env vm n)" for n
    unfolding patchRunnerSecretReference_def by (intro io_rules) simp_all
  have adopt: "io_ok (\<lambda>e. \<not> is_CreateRunner e) (\<lambda>_. True) (adopt_secret env vm s)" for s
    unfolding adopt_secret_def by (intro io_rules patch) simp_all
  show ?thesis
    unfolding mintRunnerConfig_def validateRunnerSecret_def create_secret_def
    by (auto intro!: io_rules patch adopt split: sum.split option.split)
qed

lemma createRunnerVM_counted: "counted is_CreateRunner 1 (createRunnerVM env pool tpl)"
proof -
  have "counted is_CreateRunner 0
      (on_error (mintRunnerConfig env pool vm) (and_then (try_send (re_srv env) (DeleteRunner vm)) (\<lambda>_. ret ())))" for vm
    by (rule counted_none [of _ "\<lambda>_. True"]) (auto intro!: io_rules mint_creates_none)
  from counted_then [OF counted_send this, of "re_srv env"] show ?thesis
    by (auto simp: createRunnerVM_def counted_def fail_def split: sum.split)
qed

lemma create_runners_counted: "counted is_CreateRunner n (create_runners env pool tpl n)"
proof (induction n)
  case 0 show ?case by (simp add: counted_def ret_def)
next
  case (Suc n) then show ?case using counted_then [OF createRunnerVM_counted] by fastforce
qed

lemma count_active_eq:
  "0 \<le> n \<Longrightarrow> n + int (length vms) < 2 ^ 31 \<Longrightarrow>
   count_active vms n = n + int (length (filter (\<lambda>vm. \<not> runner_terminal (vm_phase vm)) vms))"
  by (induction vms arbitrary: n) (auto simp: wrap_simps)

lemma resolve_max_pos: "0 < sr_maxConcurrent (resolveRunnerScaling pool)"
  by (simp add: resolveRunnerScaling_def Let_def split_beta)

lemma runners_to_create_le:
  assumes "0 \<le> active" "active < 2 ^ 31" "0 < sr_maxConcurrent sc" "sr_maxConcurrent sc < 2 ^ 31"
  shows "runners_to_create sc desired active \<le> min (max 0 (sr_maxConcurrent sc - active)) (sr_scaleUpStep sc)"
  using assms wrap32_id [of "sr_maxConcurrent sc - active"] by (simp add: runners_to_create_def Let_def)

lemma scale_up_counted:
  assumes "0 \<le> count_active vms 0" "count_active vms 0 < 2 ^ 31" "sr_maxConcurrent (resolveRunnerScaling pool) < 2 ^ 31"
  shows "counted is_CreateRunner
     (nat (min (max 0 (sr_maxConcurrent (resolveRunnerScaling pool) - count_active vms 0)) (sr_scaleUpStep (resolveRunnerScaling pool))))
     (scale_up env pool tpl vms)"
  unfolding scale_up_def Let_def
proof (rule counted_observe, rule counted_weaken)
  fix tr
  have tail: "counted is_CreateRunner 0 (and_then (send (re_srv env) (PatchRunnerPool a b)) (\<lambda>_. ret c))" for a b c
    by (rule counted_none [of _ "\<lambda>_. True"]) (auto intro!: io_rules)
  show "counted is_CreateRunner (nat (runners_to_create (resolveRunnerScaling pool)
          (runner_desired pool (resolveRunnerScaling pool)
            (queueDepth env pool (sr_pollingEnabled (resolveRunnerScaling pool)) tr)) (count_active vms 0)) + 0)
     (and_then (create_runners env pool tpl (nat (runners_to_create (resolveRunnerScaling pool)
          (runner_desired pool (resolveRunnerScaling pool)
            (queueDepth env pool (sr_pollingEnabled (resolveRunnerScaling pool)) tr)) (count_active vms 0))))
       (\<lambda>_. and_then (send (re_srv env) (PatchRunnerPool pool
          (pool\<lparr>rpp_Status := (rpp_Status pool)\<lparr>rpt_ActiveCount := count_active vms 0, rpt_IdleCount := 0\<rparr>\<rparr>)))
         (\<lambda>_. ret (requeue_after (if sr_pollingEnabled (resolveRunnerScaling pool) \<and> 0 < sr_pollingInterval (resolveRunnerScaling pool)
            then seconds (sr_pollingInterval (resolveRunnerScaling pool)) else sr_cooldown (resolveRunnerScaling pool))))))"
    by (rule counted_then [OF create_runners_counted tail])
  show "nat (runners_to_create (resolveRunnerScaling pool)
          (runner_desired pool (resolveRunnerScaling pool)
            (queueDepth env pool (sr_pollingEnabled (resolveRunnerScaling pool)) tr)) (count_active vms 0)) + 0
     \<le> nat (min (max 0 (sr_maxConcurrent (resolveRunnerScaling pool) - count_active vms 0)) (sr_scaleUpStep (resolveRunnerScaling pool)))"
    using runners_to_create_le [OF assms(1,2) resolve_max_pos assms(3)] by (simp add: nat_mono)
qed

lemma delete_finished_creates_none: "io_ok (\<lambda>e. \<not> is_CreateRunner e) (\<lambda>_. True) (delete_finished env vms)"
  unfolding delete_finished_def by (intro io_rules) simp_all

abbreviation unfinished :: "ImpVM list \<Rightarrow> nat" where
  "unfinished vms \<equiv> length (filter (\<lambda>vm. \<not> runner_terminal (vm_phase vm)) vms)"

text \<open>A list and a number of creations within the limits of a pool.\<close>

definition within_limits :: "runnerScalingResolved \<Rightarrow> ImpVM list \<Rightarrow> runner_effect list \<Rightarrow> bool" where
  "within_limits sc vms new \<longleftrightarrow>
     int (unfinished vms) + int (length (filter is_CreateRunner new)) \<le> sr_maxConcurrent sc \<and>
     int (length (filter is_CreateRunner new)) \<le> sr_scaleUpStep sc"

lemma scale_up_bounded:
  assumes "int (length vms) < 2 ^ 31" "sr_maxConcurrent (resolveRunnerScaling pool) < 2 ^ 31"
  shows "\<exists>new. snd (scale_up env pool tpl vms tr) = tr @ new \<and>
     (length (filter is_CreateRunner new) = 0 \<or> within_limits (resolveRunnerScaling pool) vms new)"
proof -
  have le: "int (unfinished vms) \<le> int (length vms)"
    using length_filter_le [of "\<lambda>vm. \<not> runner_terminal (vm_phase vm)" vms] by (simp only: of_nat_le_iff)
  have len: "int (unfinished vms) < 2 ^ 31" using le assms(1) by (rule le_less_trans)
  have active: "count_active vms 0 = int (unfinished vms)"
    using count_active_eq [of 0 vms] assms(1) by simp
  obtain new where "snd (scale_up env pool tpl vms tr) = tr @ new"
    "length (filter is_CreateRunner new) \<le>
       nat (min (max 0 (sr_maxConcurrent (resolveRunnerScaling pool) - int (unfinished vms))) (sr_scaleUpStep (resolveRunnerScaling pool)))"
    using scale_up_counted [of vms pool env tpl] len assms(2) unfolding active counted_def by auto
  then show ?thesis unfolding within_limits_def by (intro exI [of _ new]) linarith
qed

lemma reconcile_shape:
  "\<exists>del. filter is_CreateRunner del = [] \<and>
     (snd (runner_Reconcile env (Inr pool) tr) = tr @ del \<or>
      (\<exists>vms tpl. re_vms env (tr @ del) = Inr vms \<and>
         runner_Reconcile env (Inr pool) tr = scale_up env pool tpl vms (tr @ del)))"
proof (cases "re_template env (om_Namespace (rpp_Meta pool)) (rps_TemplateName (rpp_Spec pool))")
  case (Inl e) then show ?thesis by (intro exI [of _ "[]"]) (simp add: runner_Reconcile_def io_run)
next
  case tpl: (Inr tpl)
  show ?thesis
  proof (cases "re_vms env tr")
    case (Inl e) with tpl show ?thesis
      by (intro exI [of _ "[]"]) (simp add: runner_Reconcile_def list_runners_def io_run)
  next
    case (Inr vms)
    obtain del where del: "snd (delete_finished env vms tr) = tr @ del" "list_all (\<lambda>e. \<not> is_CreateRunner e) del"
      using delete_finished_creates_none unfolding io_ok_def by blast
    have run: "runner_Reconcile env (Inr pool) tr =
        and_then (delete_finished env vms) (\<lambda>_. and_then (list_runners env) (scale_up env pool tpl)) tr"
      using Inr tpl by (simp add: runner_Reconcile_def list_runners_def io_run)
    obtain r where r: "delete_finished env vms tr = (r, tr @ del)" using del(1) by (metis prod.collapse)
    show ?thesis
      using del(2) r unfolding run
      by (cases r; cases "re_vms env (tr @ del)"; intro exI [of _ del]) (auto simp: list_runners_def io_run list_all_iff)
  qed
qed

text \<open>C38. A reconcile of a pool, whatever requests the API server refuses, creates no runner, or the unfinished runners in the
  list it read after its deletions and the runners it creates are together at most the limit of
  the pool, and those it creates at most one step.\<close>

theorem runners_bounded:
  assumes len: "\<forall>tr vms. re_vms env tr = Inr vms \<longrightarrow> int (length vms) < 2 ^ 31"
    and max: "sr_maxConcurrent (resolveRunnerScaling pool) < 2 ^ 31"
  shows "\<exists>del new. snd (runner_Reconcile env (Inr pool) tr) = tr @ del @ new \<and> filter is_CreateRunner del = [] \<and>
     (length (filter is_CreateRunner new) = 0 \<or>
      (\<exists>vms. re_vms env (tr @ del) = Inr vms \<and> within_limits (resolveRunnerScaling pool) vms new))"
proof -
  obtain del where del: "filter is_CreateRunner del = []" "snd (runner_Reconcile env (Inr pool) tr) = tr @ del \<or>
      (\<exists>vms tpl. re_vms env (tr @ del) = Inr vms \<and> runner_Reconcile env (Inr pool) tr = scale_up env pool tpl vms (tr @ del))"
    using reconcile_shape by blast
  from del(2) show ?thesis
  proof
    assume "snd (runner_Reconcile env (Inr pool) tr) = tr @ del"
    then show ?thesis using del(1) by (intro exI [of _ del] exI [of _ "[]"]) simp
  next
    assume "\<exists>vms tpl. re_vms env (tr @ del) = Inr vms \<and> runner_Reconcile env (Inr pool) tr = scale_up env pool tpl vms (tr @ del)"
    then obtain vms tpl where vms: "re_vms env (tr @ del) = Inr vms"
      and run: "runner_Reconcile env (Inr pool) tr = scale_up env pool tpl vms (tr @ del)" by blast
    obtain new where "snd (scale_up env pool tpl vms (tr @ del)) = (tr @ del) @ new"
      "length (filter is_CreateRunner new) = 0 \<or> within_limits (resolveRunnerScaling pool) vms new"
      using scale_up_bounded [OF len [rule_format, OF vms] max] by blast
    then show ?thesis using del(1) vms unfolding run by (intro exI [of _ del] exI [of _ new]) simp
  qed
qed

section \<open>No runner without its configuration\<close>

text \<open>How a VM gets its configuration: the last write sets its reference to the Secret of its name, which holds a
  configuration and was created just before, or exists and is owned by the VM.\<close>

definition set_reference :: "ImpVM \<Rightarrow> runner_effect" where
  "set_reference vm = PatchRunner vm (upd_spec (\<lambda>s. s\<lparr>vs_RunnerConfigSecret := runnerSecretName vm\<rparr>) vm)"

definition armed :: "runner_env \<Rightarrow> ImpVM \<Rightarrow> runner_effect list \<Rightarrow> runner_effect list \<Rightarrow> bool" where
  "armed env vm tr new \<longleftrightarrow>
     (\<exists>s. owns_secret vm s \<and>
        (new = [CreateJITSecret s, set_reference vm] \<and> om_Name (sec_Meta s) = runnerSecretName vm \<and>
           om_Namespace (sec_Meta s) = vm_namespace vm \<and> str_get (sec_Data s) ''jitconfig'' \<noteq> '''' \<or>
         new = [set_reference vm] \<and>
           Inr s \<in> {re_secret env tr (vm_namespace vm) (runnerSecretName vm), re_recovered env tr (vm_namespace vm) (runnerSecretName vm)}))"

lemma jit_secret_owned:
  assumes "jit_secret pool vm jit payload = Inr s"
  shows "owns_secret vm s" "om_Name (sec_Meta s) = runnerSecretName vm" "om_Namespace (sec_Meta s) = vm_namespace vm"
    "sec_Data s = [(''jitconfig'', payload)]"
  using assms by (auto simp: jit_secret_def SetControllerReference_def owns_secret_def zero_meta_def split: if_splits)

lemma patch_reference_run:
  "patchRunnerSecretReference env vm (runnerSecretName vm) tr =
     (case re_srv env tr (set_reference vm) of Inl e \<Rightarrow> (Inl (Api e), tr) | Inr _ \<Rightarrow> (Inr (), tr @ [set_reference vm]))"
  by (simp add: patchRunnerSecretReference_def set_reference_def io_run split: sum.split)

lemma adopt_secret_run:
  assumes "adopt_secret env vm s tr = (r, tr')"
  shows "r = Inr () \<and> owns_secret vm s \<and> tr' = tr @ [set_reference vm] \<or> isl r \<and> tr' = tr"
  using assms
  by (auto simp: adopt_secret_def validateRunnerSecretOwner_def io_run patch_reference_run split: if_splits sum.splits)

lemma create_secret_run:
  assumes "create_secret env vm s tr = (r, tr')" "om_Name (sec_Meta s) = runnerSecretName vm" "om_Namespace (sec_Meta s) = vm_namespace vm"
  shows "r = Inr () \<and> tr' = tr @ [CreateJITSecret s, set_reference vm] \<or>
     r = Inr () \<and> tr' = tr @ [set_reference vm] \<and>
       (\<exists>s'. owns_secret vm s' \<and> re_recovered env tr (vm_namespace vm) (runnerSecretName vm) = Inr s') \<or>
     isl r \<and> (tr' = tr \<or> tr' = tr @ [CreateJITSecret s])"
  using assms adopt_secret_run
  by (fastforce simp: create_secret_def io_run patch_reference_run split: if_splits sum.splits)

lemma mint_run:
  assumes run: "mintRunnerConfig env pool vm tr = (r, tr')" and unset: "vs_RunnerConfigSecret (vm_Spec vm) = ''''"
  shows "r = Inr () \<and> (\<exists>new. tr' = tr @ new \<and> armed env vm tr new) \<or> isl r \<and> (\<exists>new. tr' = tr @ new)"
proof (cases "re_secret env tr (vm_namespace vm) (runnerSecretName vm)")
  case (Inr existing)
  then have "adopt_secret env vm existing tr = (r, tr')" using run unset by (simp add: mintRunnerConfig_def io_run)
  then show ?thesis using adopt_secret_run [of env vm existing tr r tr'] Inr by (auto simp: armed_def)
next
  case (Inl e)
  show ?thesis
  proof (cases "\<exists>jit payload s. e = NotFound \<and> driver_jit env pool tr = Inr jit \<and> MarshalSecretValue jit = Inr payload \<and>
      jit_secret pool vm jit payload = Inr s")
    case True
    then obtain jit payload s where s: "MarshalSecretValue jit = Inr payload" "jit_secret pool vm jit payload = Inr s"
      and c: "create_secret env vm s tr = (r, tr')"
      using run unset Inl by (auto simp: mintRunnerConfig_def io_run)
    have "payload \<noteq> ''''" using s(1) by (auto simp: MarshalSecretValue_def split: if_splits)
    with create_secret_run [OF c] jit_secret_owned [OF s(2)] show ?thesis by (auto simp: armed_def str_get_def)
  next
    case False
    then have "isl r \<and> tr' = tr" using run unset Inl by (auto simp: mintRunnerConfig_def io_run split: if_splits sum.splits)
    then show ?thesis by simp
  qed
qed


section \<open>Demand of a GitHub pool\<close>

lemma github_driver_of_pool:
  assumes "rpl_Type (rps_Platform (rpp_Spec pool)) = ''github-actions''" "runner_driver env pool tr = Inr drv"
  shows "\<exists>d. drv = GitHub d \<and> gh_runnerGroup d \<noteq> '''' \<and>
     (gh_org d = '''' \<longleftrightarrow> (\<exists>sc. rpl_Scope (rps_Platform (rpp_Spec pool)) = Some sc \<and> rsc_Org sc = ''''))"
proof -
  obtain secret where secret: "re_secret env tr (om_Namespace (rpp_Meta pool)) (rpl_CredentialsSecret (rps_Platform (rpp_Spec pool))) = Inr secret"
    using assms(2) by (auto simp: runner_driver_def defaultRunnerDriverFactory_def split: sum.splits)
  obtain scope where scope: "platformScope pool = Inr scope"
    using assms(2) secret by (auto simp: runner_driver_def defaultRunnerDriverFactory_def split: sum.splits)
  obtain auth where auth: "ResolvePlatformAuth ''github-actions'' (rpl_TokenSource (rps_Platform (rpp_Spec pool))) scope
        (rpl_RunnerGroup (rps_Platform (rpp_Spec pool))) (sec_Data secret) = Inr auth"
    and drv: "driver_of_auth (re_key_ok env) (re_url_ok env) pool auth = Inr drv"
    using assms secret scope by (auto simp: runner_driver_def defaultRunnerDriverFactory_def Let_def split: sum.splits)
  have a: "pa_Provider auth = ''github-actions''" "pa_Scope auth = scope" "pa_RunnerGroup auth \<noteq> ''''"
    using auth by (auto simp: ResolvePlatformAuth_def Let_def split: if_splits)
  obtain d where d: "drv = GitHub d" "newGitHubDriverWithClient scope (pa_RunnerGroup auth) (rps_Labels (rpp_Spec pool)) '''' = Inr d"
    using drv a
    by (cases "newGitHubDriverWithClient scope (pa_RunnerGroup auth) (rps_Labels (rpp_Spec pool)) ''''")
      (auto simp: driver_of_auth_def Let_def split: sum.splits if_splits)
  obtain sc where sc: "rpl_Scope (rps_Platform (rpp_Spec pool)) = Some sc"
    "scope = (if rsc_Org sc \<noteq> '''' then ''org:'' @ rsc_Org sc else ''repo:'' @ rsc_Repo sc)"
    using scope assms(1) by (auto simp: platformScope_def Let_def split: option.splits if_splits)
  show ?thesis
    using d a(3) sc
    by (auto simp: newGitHubDriverWithClient_def trim_prefix_def has_prefix_def Let_def split: option.splits if_splits)
qed

text \<open>C40. A GitHub pool whose queue is seen cannot mint: if reading the queue of a pool of type github-actions ever gives a positive
  number, then every attempt to mint a configuration for a runner of that pool fails, because the
  queue is read for repositories only and the runner group, which is required, needs an organisation.\<close>

theorem github_queue_never_served:
  assumes github: "rpl_Type (rps_Platform (rpp_Spec pool)) = ''github-actions''"
    and depth: "queueDepth env pool True tr = Inr n" and pos: "0 < n"
  shows "isl (driver_jit env pool tr')"
proof -
  obtain d where d: "runner_driver env pool tr = Inr (GitHub d)" "n = github_QueueDepth (re_github env tr) d"
    using depth github_driver_of_pool [OF github] by (auto simp: queueDepth_def split: sum.splits platform_driver.splits)
  then have "gh_org d = ''''" using pos by (auto simp: github_QueueDepth_def split: if_splits)
  with d(1) github_driver_of_pool [OF github] have repo: "\<exists>sc. rpl_Scope (rps_Platform (rpp_Spec pool)) = Some sc \<and> rsc_Org sc = ''''"
    by fastforce
  show ?thesis
  proof (cases "runner_driver env pool tr'")
    case (Inl e) then show ?thesis by (simp add: driver_jit_def)
  next
    case (Inr drv)
    with github_driver_of_pool [OF github] repo obtain d' where "drv = GitHub d'" "gh_runnerGroup d' \<noteq> ''''" "gh_org d' = ''''"
      by blast
    then show ?thesis using Inr by (simp add: driver_jit_def github_GetJITConfig_def runnerGroupID_def)
  qed
qed

section \<open>Examples\<close>

definition example_runner_pool :: "RunnerScopeSpec \<Rightarrow> ImpVMRunnerPool" where
  "example_runner_pool scope =
     \<lparr>rpp_Meta = zero_meta\<lparr>om_Name := ''ci'', om_Namespace := ''d'', om_UID := ''p''\<rparr>,
      rpp_Spec = \<lparr>rps_TemplateName = ''t'',
        rps_Platform = \<lparr>rpl_Type = ''github-actions'', rpl_ServerURL = '''', rpl_Scope = Some scope, rpl_RunnerGroup = ''g'',
          rpl_CredentialsSecret = ''c'', rpl_TokenSource = ''''\<rparr>,
        rps_RunnerLayer = '''', rps_Labels = [''imp''],
        rps_Scaling = Some \<lparr>rss_Mode = RunnerScalingModePolling, rss_MinIdle = Some 4, rss_MaxConcurrent = Some 3, rss_ScaleUpStep = Some 5,
          rss_CooldownSeconds = Some 30, rss_Webhook = None, rss_Polling = None\<rparr>,
        rps_JobDetection = None, rps_ExpireAfter = None\<rparr>,
      rpp_Status = \<lparr>rpt_IdleCount = 0, rpt_ActiveCount = 0, rpt_Conditions = []\<rparr>\<rparr>"

definition example_runner_env :: runner_env where
  "example_runner_env =
     \<lparr>re_srv = (\<lambda>tr e. case e of CreateRunner vm \<Rightarrow> Inr (vm\<lparr>vm_Meta := (vm_Meta vm)\<lparr>om_Name := ''ci-1'', om_UID := ''U_1''\<rparr>\<rparr>) | _ \<Rightarrow> Inr zero_vm),
      re_template = (\<lambda>_ _. Inr \<lparr>ts_ClassRef = ''small'', ts_NetworkRef = None, ts_Image = ''img'', ts_Probes = None, ts_GuestAgent = None,
        ts_RestartPolicy = None, ts_NetworkGroup = '''', ts_RunnerLayer = '''', ts_CiliumLayer = '''', ts_ExpireAfter = None\<rparr>),
      re_vms = (\<lambda>tr. Inr [upd_status (\<lambda>s. s\<lparr>vt_Phase := VMPhaseSucceeded\<rparr>) zero_vm, upd_status (\<lambda>s. s\<lparr>vt_Phase := VMPhaseRunning\<rparr>) zero_vm]),
      re_secret = (\<lambda>tr _ name. if name = ''c'' then Inr \<lparr>sec_Meta = zero_meta, sec_Data = [(''token'', ''x'')]\<rparr> else Inl NotFound),
      re_recovered = (\<lambda>_ _ _. Inl NotFound), re_key_ok = (\<lambda>_. True), re_url_ok = (\<lambda>_. True),
      re_github = (\<lambda>tr. \<lparr>ga_groups = (\<lambda>_. Inr [(7, ''g'')]), ga_jit = (\<lambda>_ _. Inr (Some \<lparr>jc_EncodedConfig = ''cfg'', jc_RunnerName = ''r''\<rparr>)),
        ga_queued = (\<lambda>_ _. Inr 2), ga_clock = 0\<rparr>),
      re_gitlab = (\<lambda>_ _. Inl ''down'')\<rparr>"

abbreviation "org_pool \<equiv> example_runner_pool \<lparr>rsc_Org = ''o'', rsc_Repo = ''''\<rparr>"
abbreviation "repo_pool \<equiv> example_runner_pool \<lparr>rsc_Org = '''', rsc_Repo = ''o/r''\<rparr>"

lemma example_creates:
  "map is_CreateRunner (snd (runner_Reconcile example_runner_env (Inr org_pool) [])) = [False, True, False, False, True, False, False, False]"
  by code_simp

theorem runners_bounded_witness:
  "length (filter is_CreateRunner (snd (runner_Reconcile example_runner_env (Inr org_pool) []))) = 2 \<and>
   (\<exists>del new. snd (runner_Reconcile example_runner_env (Inr org_pool) []) = del @ new \<and>
     (\<exists>vms. re_vms example_runner_env del = Inr vms \<and> within_limits (resolveRunnerScaling org_pool) vms new))"
proof -
  have two: "length (filter is_CreateRunner (snd (runner_Reconcile example_runner_env (Inr org_pool) []))) = 2"
    by (simp only: length_filter_map [symmetric, of _ id, unfolded comp_def id_def] filter_map example_creates) code_simp
  have "sr_maxConcurrent (resolveRunnerScaling org_pool) < 2 ^ 31"
    "\<forall>tr vms. re_vms example_runner_env tr = Inr vms \<longrightarrow> int (length vms) < 2 ^ 31"
    by (simp_all add: resolveRunnerScaling_def example_runner_pool_def Let_def example_runner_env_def)
  from runners_bounded [OF this(2,1), of "[]"] two show ?thesis by (simp del: length_0_conv) (metis add_0 filter_append length_append list.size(3) zero_neq_numeral)
qed


theorem github_queue_never_served_witness:
  "queueDepth example_runner_env repo_pool True [] = Inr 2 \<and> isl (driver_jit example_runner_env repo_pool [])"
proof -
  have "queueDepth example_runner_env repo_pool True [] = Inr 2" by code_simp
  then show ?thesis
    using github_queue_never_served [of repo_pool example_runner_env "[]" 2 "[]"] by (simp add: example_runner_pool_def)
qed

end
