(* ===== verification/Spec2Isabelle.thy ===== *)
theory Spec2Isabelle
  imports ImpVM_Controller Lease_Allocator Network_Controller Migration Warm_Pool Pressure Stub_Driver Firecracker Probes Runner_Pool
begin

text \<open>
  Verification of the imp operator and node agent.
\<close>

end
